(* ===== verification/Vk_Prelude.thy ===== *)
theory Vk_Prelude
  imports Main "HOL-Library.Word" "HOL-Library.Monad_Syntax"
begin

text \<open>
  The prelude of the development: machine integer types, the error numbers of the C
  library, the memory allocator as an oracle, bounded memory copies, and the lemmas on lists,
  options and words that the component theories share.

  Two conventions hold everywhere. A C function that returns an \<open>int\<close> error code returns an
  \<open>int\<close> here, with the negated error number on failure. A function that can stop the program
  (a failing \<open>UK_ASSERT\<close>, an access outside an array, a loop that does not return) returns an
  option, and \<open>None\<close> stands for that outcome; theorems that a component is safe show \<open>Some\<close>.
\<close>

named_theorems returns \<open>when a run returns, and with which result\<close>
named_theorems frame \<open>what an operation leaves as it is\<close>

section \<open>Machine integers\<close>

type_synonym u8 = "8 word"
type_synonym u16 = "16 word"
type_synonym u32 = "32 word"
type_synonym u64 = "64 word"

section \<open>Error numbers\<close>

abbreviation EBADF :: int where "EBADF \<equiv> 9"
abbreviation EAGAIN :: int where "EAGAIN \<equiv> 11"
abbreviation ENOMEM :: int where "ENOMEM \<equiv> 12"
abbreviation EFAULT :: int where "EFAULT \<equiv> 14"
abbreviation EINVAL :: int where "EINVAL \<equiv> 22"
abbreviation ENOTTY :: int where "ENOTTY \<equiv> 25"
abbreviation EFBIG :: int where "EFBIG \<equiv> 27"
abbreviation ENOSPC :: int where "ENOSPC \<equiv> 28"
abbreviation EPIPE :: int where "EPIPE \<equiv> 32"
abbreviation ERANGE :: int where "ERANGE \<equiv> 34"
abbreviation ENOMSG :: int where "ENOMSG \<equiv> 42"
abbreviation ENOTSOCK :: int where "ENOTSOCK \<equiv> 88"
abbreviation ENOPROTOOPT :: int where "ENOPROTOOPT \<equiv> 92"
abbreviation EPROTONOSUPPORT :: int where "EPROTONOSUPPORT \<equiv> 93"
abbreviation ESOCKTNOSUPPORT :: int where "ESOCKTNOSUPPORT \<equiv> 94"
abbreviation EOPNOTSUPP :: int where "EOPNOTSUPP \<equiv> 95"
abbreviation EAFNOSUPPORT :: int where "EAFNOSUPPORT \<equiv> 97"
abbreviation EADDRINUSE :: int where "EADDRINUSE \<equiv> 98"
abbreviation EADDRNOTAVAIL :: int where "EADDRNOTAVAIL \<equiv> 99"
abbreviation ENOBUFS :: int where "ENOBUFS \<equiv> 105"
abbreviation EISCONN :: int where "EISCONN \<equiv> 106"
abbreviation ENOTCONN :: int where "ENOTCONN \<equiv> 107"
abbreviation ECONNREFUSED :: int where "ECONNREFUSED \<equiv> 111"
abbreviation EALREADY :: int where "EALREADY \<equiv> 114"
abbreviation EINPROGRESS :: int where "EINPROGRESS \<equiv> 115"

section \<open>Options as runs that may stop\<close>

definition uk_assert :: "bool \<Rightarrow> unit option" where
  "uk_assert b = (if b then Some () else None)"

lemma uk_assert_simps [simp]:
  "uk_assert True = Some ()" "uk_assert False = None"
  by (simp_all add: uk_assert_def)

lemma uk_assert_eq_Some [simp]: "uk_assert b = Some u \<longleftrightarrow> b"
  by (simp add: uk_assert_def)

declare bind_eq_Some_conv [returns]

lemma uk_assert_bind_eq_Some [simp]:
  "(uk_assert b \<bind> f) = Some y \<longleftrightarrow> b \<and> f () = Some y"
  by (simp add: uk_assert_def)

lemma bind_pairE:
  assumes "x \<bind> (\<lambda>(a, b). f a b) = Some y"
  obtains a b where "x = Some (a, b)" and "f a b = Some y"
  using assms that by (cases x) auto

section \<open>Memory copies\<close>

text \<open>
  \<open>memcpy\<close> into an array at an offset, and out of an array. Both stop when the copy would
  leave the array.
\<close>

definition mem_write :: "'a list \<Rightarrow> nat \<Rightarrow> 'a list \<Rightarrow> 'a list option" where
  "mem_write dst pos src =
     (if pos + length src \<le> length dst
      then Some (take pos dst @ src @ drop (pos + length src) dst) else None)"

definition mem_read :: "'a list \<Rightarrow> nat \<Rightarrow> nat \<Rightarrow> 'a list option" where
  "mem_read src pos n =
     (if pos + n \<le> length src then Some (take n (drop pos src)) else None)"

lemma mem_write_length: "mem_write dst pos src = Some dst' \<Longrightarrow> length dst' = length dst"
  by (auto simp: mem_write_def split: if_splits)

lemma mem_write_nth:
  assumes "mem_write dst pos src = Some dst'" and "i < length dst"
  shows "dst' ! i = (if pos \<le> i \<and> i < pos + length src then src ! (i - pos) else dst ! i)"
proof -
  have le: "pos + length src \<le> length dst"
    and dst': "dst' = take pos dst @ src @ drop (pos + length src) dst"
    using assms(1) by (auto simp: mem_write_def split: if_splits)
  consider "i < pos" | "pos \<le> i" "i < pos + length src" | "pos + length src \<le> i"
    by linarith
  then show ?thesis
  proof cases
    case 1
    with le show ?thesis by (simp add: dst' nth_append)
  next
    case 2
    then have "i - pos < length src" by simp
    with 2 le show ?thesis by (simp add: dst' nth_append)
  next
    case 3
    then have "\<not> i - pos < length src" by simp
    with 3 have "(src @ drop (pos + length src) dst) ! (i - pos) = dst ! i"
      using le assms(2) by (simp only: nth_append if_False) simp
    with 3 le show ?thesis by (simp add: dst' nth_append)
  qed
qed

lemma mem_write_defined:
  "pos + length src \<le> length dst \<Longrightarrow> \<exists>dst'. mem_write dst pos src = Some dst'"
  by (simp add: mem_write_def)

lemma mem_read_length: "mem_read src pos n = Some xs \<Longrightarrow> length xs = n"
  by (auto simp: mem_read_def split: if_splits)

lemma mem_read_nth:
  "mem_read src pos n = Some xs \<Longrightarrow> i < n \<Longrightarrow> xs ! i = src ! (pos + i)"
  by (auto simp: mem_read_def split: if_splits)

lemma take_Suc_update: "k < length xs \<Longrightarrow> take (Suc k) (xs[k := y]) = take k xs @ [y]"
  by (simp add: take_Suc_conv_app_nth)

section \<open>Rounding to a power of two\<close>

definition align_up :: "nat \<Rightarrow> nat \<Rightarrow> nat" where
  "align_up x a = (x + a - 1) div a * a"

definition align_down :: "nat \<Rightarrow> nat \<Rightarrow> nat" where
  "align_down x a = x div a * a"

lemma align_down_dvd: "a dvd x \<Longrightarrow> align_down x a = x"
  by (simp add: align_down_def)

lemma dvd_align_up: "a dvd align_up x a"
  by (simp add: align_up_def)

lemma align_up_ge: "0 < a \<Longrightarrow> x \<le> align_up x a"
proof -
  assume "0 < a"
  have "x + a - 1 = align_up x a + (x + a - 1) mod a"
    by (simp add: align_up_def)
  moreover have "(x + a - 1) mod a < a" using \<open>0 < a\<close> by simp
  ultimately show ?thesis using \<open>0 < a\<close> by linarith
qed

lemma align_up_less: "0 < a \<Longrightarrow> align_up x a < x + a"
proof -
  assume "0 < a"
  have "align_up x a \<le> x + a - 1"
    by (simp add: align_up_def)
  with \<open>0 < a\<close> show ?thesis by linarith
qed

section \<open>The memory allocator\<close>

text \<open>
  The allocator of \<open>lib/ukalloc\<close> is seen by the components as an oracle: the \<open>n\<close>-th request,
  for an alignment and a size, either fails or gives an address and the (unspecified) contents
  of the memory there. The contract \<open>alloc_ok\<close> is the documented one: a block that is granted is
  not at the null address, is aligned as asked, and lies in the address space.
\<close>

type_synonym mem_chunk = "nat \<times> (nat \<Rightarrow> u8)"

record ukalloc =
  al_oracle :: "nat \<Rightarrow> nat \<Rightarrow> nat \<Rightarrow> mem_chunk option"
  al_requests :: nat

definition uk_memalign :: "ukalloc \<Rightarrow> nat \<Rightarrow> nat \<Rightarrow> mem_chunk option \<times> ukalloc" where
  "uk_memalign a align sz =
     (al_oracle a (al_requests a) align sz, a\<lparr>al_requests := Suc (al_requests a)\<rparr>)"

definition uk_malloc :: "ukalloc \<Rightarrow> nat \<Rightarrow> mem_chunk option \<times> ukalloc" where
  "uk_malloc a sz = uk_memalign a 8 sz"

definition alloc_ok :: "ukalloc \<Rightarrow> bool" where
  "alloc_ok a \<longleftrightarrow>
     (\<forall>n align sz addr junk. al_oracle a n align sz = Some (addr, junk) \<longrightarrow>
        0 < addr \<and> align dvd addr \<and> addr + sz \<le> 2 ^ 64)"

text \<open>Two oracles for concrete runs: memory is granted while it can be, and memory is exhausted.\<close>

definition alloc_plenty :: ukalloc where
  "alloc_plenty =
     \<lparr>al_oracle = (\<lambda>n align sz. if 0 < align \<and> align * Suc n + sz \<le> 2 ^ 64
                                then Some (align * Suc n, \<lambda>_. 0) else None),
      al_requests = 0\<rparr>"

definition alloc_exhausted :: ukalloc where
  "alloc_exhausted = \<lparr>al_oracle = (\<lambda>n align sz. None), al_requests = 0\<rparr>"

lemma alloc_ok_plenty [simp]: "alloc_ok alloc_plenty"
  by (auto simp: alloc_ok_def alloc_plenty_def split: if_splits)

lemma alloc_ok_exhausted [simp]: "alloc_ok alloc_exhausted"
  by (simp add: alloc_ok_def alloc_exhausted_def)

lemma alloc_ok_memalign: "alloc_ok a \<Longrightarrow> alloc_ok (snd (uk_memalign a align sz))"
  by (simp add: alloc_ok_def uk_memalign_def)

lemma alloc_ok_memalignD:
  "alloc_ok a \<Longrightarrow> uk_memalign a align sz = (Some (addr, junk), a') \<Longrightarrow>
     0 < addr \<and> align dvd addr \<and> addr + sz \<le> 2 ^ 64"
  unfolding alloc_ok_def uk_memalign_def by blast

section \<open>Words\<close>

lemma unat_ucast_le [simp]:
  "unat (ucast (x :: 'a::len word) :: 'b::len word) \<le> unat x"
  by (simp add: unsigned_ucast_eq take_bit_nat_less_eq_self)

lemma uint_eq_unat: "uint w = int (unat w)"
  by simp

lemma unat_less_exp: "unat (w :: 'a::len word) < 2 ^ LENGTH('a)"
  by (rule unsigned_less)

lemma unat_of_nat_small:
  "n < 2 ^ LENGTH('a) \<Longrightarrow> unat (of_nat n :: 'a::len word) = n"
  by (simp add: unat_of_nat)

end
