(* ===== verification/Netbuf.thy ===== *)
theory Netbuf
  imports Vk_Prelude
begin

text \<open>
  Network buffers (\<open>lib/uknetdev/netbuf.c\<close>, \<open>include/uk/netbuf.h\<close>): the packet container that
  carries every packet between the socket layer and the virtqueues. A netbuf owns a contiguous
  buffer, of which the bytes from \<open>data\<close> on, \<open>len\<close> many, are the payload. The model keeps the
  buffer as a byte list, \<open>data\<close> as the offset from the start of the buffer, and \<open>len\<close> as the
  16-bit word it is in the struct. A chain of netbufs is a list, from its head.

  The lemmas show that allocation gives a well-formed buffer of the size asked for, and that
  pushing and popping a packet header stays inside the buffer and is undone by its inverse.
\<close>

section \<open>Data\<close>

record uk_netbuf =
  nb_buf :: "u8 list"
  nb_base :: nat
  nb_data :: nat
  nb_len :: u16
  nb_flags :: u8
  nb_csum_start :: u16
  nb_refcount :: u32

definition UK_NETBUF_F_PARTIAL_CSUM_BIT :: nat where
  "UK_NETBUF_F_PARTIAL_CSUM_BIT = 1"

definition sizeof_uk_netbuf :: nat where
  "sizeof_uk_netbuf = 96"

definition NETBUF_ADDR_ALIGNMENT :: nat where
  "NETBUF_ADDR_ALIGNMENT = 8"

definition nb_payload :: "uk_netbuf \<Rightarrow> u8 list" where
  "nb_payload nb = take (unat (nb_len nb)) (drop (nb_data nb) (nb_buf nb))"

definition wf_netbuf :: "uk_netbuf \<Rightarrow> bool" where
  "wf_netbuf nb \<longleftrightarrow> nb_data nb + unat (nb_len nb) \<le> length (nb_buf nb)"

section \<open>Allocation\<close>

definition uk_netbuf_init_indir :: "nat \<Rightarrow> u8 list \<Rightarrow> nat \<Rightarrow> uk_netbuf option" where
  "uk_netbuf_init_indir base buf headroom = do {
     uk_assert (headroom \<le> length buf);
     Some \<lparr>nb_buf = buf, nb_base = base, nb_data = headroom, nb_len = 0, nb_flags = 0,
           nb_csum_start = 0, nb_refcount = 1\<rparr>
   }"

text \<open>
  The metadata is placed at the end of the memory. The code compares its length with the end
  address, not with the size, so memory that is too small would put the struct before the
  memory block; the model stops there.
\<close>

definition uk_netbuf_prepare_buf ::
    "nat \<Rightarrow> (nat \<Rightarrow> u8) \<Rightarrow> nat \<Rightarrow> nat \<Rightarrow> nat \<Rightarrow> uk_netbuf option option" where
  "uk_netbuf_prepare_buf mem junk sz headroom privlen = (
     let meta_len = align_up (sizeof_uk_netbuf + privlen) NETBUF_ADDR_ALIGNMENT;
         mem_end = align_down (mem + sz) NETBUF_ADDR_ALIGNMENT in
     if meta_len > mem_end then Some None
     else let m = mem_end - meta_len in
       if m < mem then None
       else do {
         nb \<leftarrow> uk_netbuf_init_indir mem (map junk [0..<m - mem]) headroom;
         Some (Some nb)
       })"

definition uk_netbuf_alloc_buf ::
    "ukalloc \<Rightarrow> nat \<Rightarrow> nat \<Rightarrow> nat \<Rightarrow> nat \<Rightarrow> (uk_netbuf option \<times> ukalloc) option" where
  "uk_netbuf_alloc_buf a buflen bufalign headroom privlen = do {
     uk_assert (buflen > 0);
     uk_assert (headroom \<le> buflen);
     let alloc_len = align_up buflen NETBUF_ADDR_ALIGNMENT
                     + align_up (sizeof_uk_netbuf + privlen) NETBUF_ADDR_ALIGNMENT;
     let (mem, a) = uk_memalign a bufalign alloc_len;
     case mem of
       None \<Rightarrow> Some (None, a)
     | Some (addr, junk) \<Rightarrow> do {
         m \<leftarrow> uk_netbuf_prepare_buf addr junk alloc_len headroom privlen;
         Some (m, a)
       }
   }"

section \<open>Headroom, tailroom and headers\<close>

definition uk_netbuf_headroom :: "uk_netbuf \<Rightarrow> nat" where
  "uk_netbuf_headroom m = nb_data m"

definition uk_netbuf_tailroom :: "uk_netbuf \<Rightarrow> nat" where
  "uk_netbuf_tailroom m = length (nb_buf m) - (nb_data m + unat (nb_len m))"

definition uk_netbuf_header :: "uk_netbuf \<Rightarrow> 16 word \<Rightarrow> int \<times> uk_netbuf" where
  "uk_netbuf_header head len = (
     if sint len > int (uk_netbuf_headroom head) \<or> - sint len > uint (nb_len head)
     then (- ENOSPC, head)
     else if sint len + uint (nb_len head) > 65535 then (- EFAULT, head)
     else let head1 = head\<lparr>nb_data := nat (int (nb_data head) - sint len),
                           nb_len := nb_len head + len\<rparr> in
       if bit (nb_flags head1) UK_NETBUF_F_PARTIAL_CSUM_BIT
       then if sint len < 0 \<and> - sint len > uint (nb_csum_start head1)
            then (1, head1\<lparr>nb_flags := unset_bit UK_NETBUF_F_PARTIAL_CSUM_BIT (nb_flags head1)\<rparr>)
            else (1, head1\<lparr>nb_csum_start := nb_csum_start head1 + len\<rparr>)
       else (1, head1))"

section \<open>Release\<close>

text \<open>
  Releasing a reference frees the netbuf when it was the last one. A chain is released netbuf by
  netbuf; the result is what is left of it. Releasing a netbuf without references stops.
\<close>

definition uk_netbuf_free_single :: "uk_netbuf \<Rightarrow> uk_netbuf option option" where
  "uk_netbuf_free_single m = (
     let old = nb_refcount m in
     if old = 0 then None
     else if old > 1 then Some (Some (m\<lparr>nb_refcount := old - 1\<rparr>))
     else Some None)"

fun uk_netbuf_free :: "uk_netbuf list \<Rightarrow> uk_netbuf list option" where
  "uk_netbuf_free [] = Some []"
| "uk_netbuf_free (m # n) = do {
     r \<leftarrow> uk_netbuf_free_single m;
     rest \<leftarrow> uk_netbuf_free n;
     Some (case r of None \<Rightarrow> rest | Some m' \<Rightarrow> m' # rest)
   }"

section \<open>Lemmas\<close>

lemma nb_payload_length [simp]:
  "wf_netbuf nb \<Longrightarrow> length (nb_payload nb) = unat (nb_len nb)"
  by (auto simp: nb_payload_def wf_netbuf_def)

lemma mem_read_payload:
  assumes "wf_netbuf nb" and "i + n \<le> unat (nb_len nb)"
  shows "mem_read (nb_buf nb) (nb_data nb + i) n = Some (take n (drop i (nb_payload nb)))"
  using assms by (auto simp: mem_read_def nb_payload_def wf_netbuf_def min_def take_drop drop_drop
      add.commute)

lemma uk_netbuf_alloc_buf_wf:
  assumes "alloc_ok a" and "8 dvd bufalign" and "0 < buflen" and "headroom \<le> buflen"
  obtains a' where "uk_netbuf_alloc_buf a buflen bufalign headroom privlen = Some (None, a')"
      and "alloc_ok a'"
    | nb a' where "uk_netbuf_alloc_buf a buflen bufalign headroom privlen = Some (Some nb, a')"
      and "alloc_ok a'" and "wf_netbuf nb" and "nb_len nb = 0" and "nb_data nb = headroom"
      and "length (nb_buf nb) = align_up buflen 8" and "nb_refcount nb = 1" and "nb_flags nb = 0"
proof -
  let ?al = "align_up buflen NETBUF_ADDR_ALIGNMENT"
  let ?meta = "align_up (sizeof_uk_netbuf + privlen) NETBUF_ADDR_ALIGNMENT"
  obtain mem a' where req: "uk_memalign a bufalign (?al + ?meta) = (mem, a')"
    by fastforce
  have ok': "alloc_ok a'" using alloc_ok_memalign [OF assms(1)] req by (metis snd_conv)
  show thesis
  proof (cases mem)
    case None
    then show thesis using assms req ok' that(1) by (simp add: uk_netbuf_alloc_buf_def)
  next
    case (Some p)
    then obtain addr junk where p: "mem = Some (addr, junk)" by (cases p) auto
    then have "8 dvd addr" using alloc_ok_memalignD [OF assms(1)] req assms(2)
      by (metis dvd_trans)
    then have "8 dvd addr + (?al + ?meta)"
      using dvd_align_up [of NETBUF_ADDR_ALIGNMENT] by (simp add: NETBUF_ADDR_ALIGNMENT_def)
    then have down: "align_down (addr + (?al + ?meta)) NETBUF_ADDR_ALIGNMENT = addr + (?al + ?meta)"
      by (simp add: NETBUF_ADDR_ALIGNMENT_def align_down_dvd)
    have "headroom \<le> ?al"
      using assms(4) align_up_ge [of 8 buflen] by (simp add: NETBUF_ADDR_ALIGNMENT_def)
    with req p assms down have
      "uk_netbuf_alloc_buf a buflen bufalign headroom privlen =
         Some (Some \<lparr>nb_buf = map junk [0..<?al], nb_base = addr, nb_data = headroom, nb_len = 0,
                     nb_flags = 0, nb_csum_start = 0, nb_refcount = 1\<rparr>, a')"
      by (simp add: uk_netbuf_alloc_buf_def uk_netbuf_prepare_buf_def uk_netbuf_init_indir_def Let_def)
    from that(2) [OF this ok'] show thesis
      using \<open>headroom \<le> ?al\<close> by (simp add: wf_netbuf_def NETBUF_ADDR_ALIGNMENT_def)
  qed
qed

lemma uint_plus_sint:
  fixes a b :: "'a::len word"
  assumes "0 \<le> uint a + sint b" and "uint a + sint b < 2 ^ LENGTH('a)"
  shows "uint (a + b) = uint a + sint b"
proof -
  have "a + b = word_of_int (uint a + sint b)" by simp
  then show ?thesis using assms
    by (simp only: uint_word_of_int_eq) (simp add: take_bit_int_eq_self)
qed

lemma uk_netbuf_header_ok:
  assumes "uk_netbuf_header nb len = (1, nb')"
  shows "sint len \<le> int (nb_data nb)" and "0 \<le> uint (nb_len nb) + sint len"
    and "uint (nb_len nb) + sint len \<le> 65535"
    and "int (nb_data nb') = int (nb_data nb) - sint len"
    and "uint (nb_len nb') = uint (nb_len nb) + sint len"
    and "nb_buf nb' = nb_buf nb" and "nb_base nb' = nb_base nb" and "nb_refcount nb' = nb_refcount nb"
proof -
  show 1: "sint len \<le> int (nb_data nb)" and 2: "0 \<le> uint (nb_len nb) + sint len"
    and 3: "uint (nb_len nb) + sint len \<le> 65535"
    using assms by (auto simp: uk_netbuf_header_def uk_netbuf_headroom_def split: if_splits)
  have "uint (nb_len nb + len) = uint (nb_len nb) + sint len"
    using 2 3 by (intro uint_plus_sint) simp_all
  then show "int (nb_data nb') = int (nb_data nb) - sint len"
    and "uint (nb_len nb') = uint (nb_len nb) + sint len"
    and "nb_buf nb' = nb_buf nb" and "nb_base nb' = nb_base nb" and "nb_refcount nb' = nb_refcount nb"
    using assms 1 by (auto simp: uk_netbuf_header_def Let_def split: if_splits)
qed

lemma wf_netbuf_int:
  "wf_netbuf nb \<longleftrightarrow> int (nb_data nb) + uint (nb_len nb) \<le> int (length (nb_buf nb))"
  unfolding wf_netbuf_def uint_eq_unat by linarith

lemma uk_netbuf_header_wf:
  assumes "wf_netbuf nb"
  shows "wf_netbuf (snd (uk_netbuf_header nb len))"
proof (cases "fst (uk_netbuf_header nb len) = 1")
  case True
  then obtain nb' where h: "uk_netbuf_header nb len = (1, nb')" by (metis prod.collapse)
  then show ?thesis using assms uk_netbuf_header_ok [OF h] by (simp add: wf_netbuf_int)
next
  case False
  then have "snd (uk_netbuf_header nb len) = nb"
    by (auto simp: uk_netbuf_header_def Let_def split: if_splits)
  with assms show ?thesis by simp
qed

lemma uk_netbuf_header_pop:
  assumes "unat n \<le> unat (nb_len nb)" and "unat n < 2 ^ 15"
    and "\<not> bit (nb_flags nb) UK_NETBUF_F_PARTIAL_CSUM_BIT"
  shows "uk_netbuf_header nb (- n) =
           (1, nb\<lparr>nb_data := nb_data nb + unat n, nb_len := nb_len nb - n\<rparr>)"
proof -
  have s: "sint (- n) = - int (unat n)"
  proof -
    have "- n = word_of_int (- int (unat n))" by simp
    moreover have "signed_take_bit 15 (- int (unat n)) = - int (unat n)"
      using assms(2) by (intro signed_take_bit_int_eq_self) (simp_all del: of_nat_unat)
    ultimately show ?thesis by (simp only: sint_sbintrunc') simp
  qed
  show ?thesis
    unfolding uk_netbuf_header_def s uint_eq_unat Let_def
    using assms unat_less_exp [of "nb_len nb"] by (simp add: nat_add_distrib del: of_nat_unat)
qed

section \<open>Properties\<close>

definition example_packet :: uk_netbuf where
  "example_packet = \<lparr>nb_buf = [1, 2, 3], nb_base = 4096, nb_data = 0, nb_len = 3, nb_flags = 0,
     nb_csum_start = 0, nb_refcount = 1\<rparr>"

lemma example_packet_wf: "wf_netbuf example_packet"
  by (simp add: example_packet_def wf_netbuf_def)

text \<open>
  C31: Moving the header of a packet stays inside its buffer. Popping a header drops bytes from the
  front of the payload, pushing one puts bytes in front of it, and the rest of the payload is not
  touched.
\<close>

theorem netbuf_header_payload:
  assumes "wf_netbuf nb" and "uk_netbuf_header nb len = (1, nb')"
  shows "wf_netbuf nb' \<and> (if sint len \<le> 0
    then nb_payload nb' = drop (nat (- sint len)) (nb_payload nb)
    else drop (nat (sint len)) (nb_payload nb') = nb_payload nb)"
proof -
  note h = uk_netbuf_header_ok [OF assms(2)]
  have d: "int (nb_data nb') = int (nb_data nb) - sint len" and b: "nb_buf nb' = nb_buf nb"
    by (rule h)+
  have l: "int (unat (nb_len nb')) = int (unat (nb_len nb)) + sint len" using h(5) by simp
  have "wf_netbuf nb'" using uk_netbuf_header_wf [OF assms(1), of len] assms(2) by simp
  moreover have "nb_payload nb' = drop (nat (- sint len)) (nb_payload nb)" if "sint len \<le> 0"
  proof -
    have "nb_data nb' = nat (- sint len) + nb_data nb" using d that by linarith
    moreover have "unat (nb_len nb') = unat (nb_len nb) - nat (- sint len)" using l that by linarith
    ultimately show ?thesis by (simp add: nb_payload_def b drop_take add.commute)
  qed
  moreover have "drop (nat (sint len)) (nb_payload nb') = nb_payload nb" if "\<not> sint len \<le> 0"
  proof -
    have "nat (sint len) + nb_data nb' = nb_data nb" using d that by linarith
    moreover have "unat (nb_len nb') - nat (sint len) = unat (nb_len nb)" using l that by linarith
    ultimately show ?thesis by (simp add: nb_payload_def b drop_take add.commute)
  qed
  ultimately show ?thesis by simp
qed

theorem netbuf_header_payload_witness:
  "wf_netbuf (snd (uk_netbuf_header \<lparr>nb_buf = [1, 2, 3, 4], nb_base = 8, nb_data = 0, nb_len = 4, nb_flags = 0,
      nb_csum_start = 0, nb_refcount = 1\<rparr> (- 3)))"
  using netbuf_header_payload [of "\<lparr>nb_buf = [1, 2, 3, 4], nb_base = 8, nb_data = 0, nb_len = 4, nb_flags = 0,
      nb_csum_start = 0, nb_refcount = 1\<rparr>" "- 3"
      "\<lparr>nb_buf = [1, 2, 3, 4], nb_base = 8, nb_data = 3, nb_len = 1, nb_flags = 0,
      nb_csum_start = 0, nb_refcount = 1\<rparr>"]
  by (simp add: wf_netbuf_def uk_netbuf_header_def uk_netbuf_headroom_def UK_NETBUF_F_PARTIAL_CSUM_BIT_def)





end
