(* ===== verification/Vsock_Buffer.thy ===== *)
theory Vsock_Buffer
  imports Netbuf
begin

text \<open>
  The receive buffer of a socket (\<open>uk_vsock_buffer\<close> of \<open>lib/ukvsockdev/vsock.c\<close> and
  \<open>include/uk/vsock.h\<close>): a circular byte buffer that the receive path appends netbuf chains to
  and the socket operations read from. The specification is a byte queue; \<open>contents\<close> is the
  abstraction, \<open>wf_buffer\<close> the invariant, and the interpretation \<open>ring\<close> of the locale \<open>byte_fifo\<close>
  discharges the queue laws for the circular buffer, from which the stream theorem follows.
\<close>

section \<open>Data\<close>

record uk_vsock_buffer =
  b_buf :: "u8 list"
  b_head :: nat
  b_count :: nat
  b_capacity :: nat
  b_total_processed :: u64

section \<open>Operations\<close>

definition uk_vsock_buffer_init ::
    "ukalloc \<Rightarrow> nat \<Rightarrow> int \<times> uk_vsock_buffer option \<times> ukalloc" where
  "uk_vsock_buffer_init a bufsize = (
     let (mem, a) = uk_malloc a bufsize in
     case mem of
       None \<Rightarrow> (- ENOMEM, None, a)
     | Some (addr, junk) \<Rightarrow>
         (0, Some \<lparr>b_buf = map junk [0..<bufsize], b_head = 0, b_count = 0,
                   b_capacity = bufsize, b_total_processed = 0\<rparr>, a))"

definition uk_vsock_buffer_capacity :: "uk_vsock_buffer \<Rightarrow> nat" where
  "uk_vsock_buffer_capacity b = b_capacity b"

text \<open>The first loop of the append checks that the whole chain fits before a byte is copied.\<close>

fun append_fits :: "nat \<Rightarrow> nat \<Rightarrow> uk_netbuf list \<Rightarrow> bool" where
  "append_fits room appended [] = True"
| "append_fits room appended (nbi # nb) = (
     let appended = appended + unat (nb_len nbi) in
     if appended > room then False else append_fits room appended nb)"

text \<open>The second loop copies, in two parts where the data wraps around the end.\<close>

fun append_copy :: "uk_vsock_buffer \<Rightarrow> nat \<Rightarrow> uk_netbuf list \<Rightarrow> (uk_vsock_buffer \<times> nat) option" where
  "append_copy b appended [] = Some (b, appended)"
| "append_copy b appended (nbi # nb) = do {
     uk_assert (b_capacity b \<noteq> 0);
     let len = unat (nb_len nbi);
     let write_pos = (b_head b + b_count b + appended) mod b_capacity b;
     let to_copy = min len (b_capacity b - write_pos);
     src \<leftarrow> mem_read (nb_buf nbi) (nb_data nbi) to_copy;
     mem1 \<leftarrow> mem_write (b_buf b) write_pos src;
     mem2 \<leftarrow> (if to_copy < len
              then do {
                src2 \<leftarrow> mem_read (nb_buf nbi) (nb_data nbi + to_copy) (len - to_copy);
                mem_write mem1 0 src2
              }
              else Some mem1);
     append_copy (b\<lparr>b_buf := mem2\<rparr>) (appended + len) nb
   }"

definition uk_vsock_buffer_append ::
    "uk_vsock_buffer \<Rightarrow> uk_netbuf list \<Rightarrow> (int \<times> uk_vsock_buffer) option" where
  "uk_vsock_buffer_append b nb = (
     if append_fits (b_capacity b - b_count b) 0 nb
     then do {
       (b, appended) \<leftarrow> append_copy b 0 nb;
       Some (0, b\<lparr>b_count := b_count b + appended\<rparr>)
     }
     else Some (- ENOSPC, b))"

definition uk_vsock_buffer_read :: "uk_vsock_buffer \<Rightarrow> nat \<Rightarrow> u8 list option" where
  "uk_vsock_buffer_read b sz = do {
     let sz = min sz (b_count b);
     let start = b_head b;
     let end = start + sz;
     let to_copy = min end (b_capacity b) - min start (b_capacity b);
     out1 \<leftarrow> (if to_copy > 0 then mem_read (b_buf b) start to_copy else Some []);
     out2 \<leftarrow> (if end > b_capacity b then mem_read (b_buf b) 0 (end - start - to_copy)
              else Some []);
     Some (out1 @ out2)
   }"

definition uk_vsock_buffer_consume :: "uk_vsock_buffer \<Rightarrow> nat \<Rightarrow> uk_vsock_buffer option" where
  "uk_vsock_buffer_consume b sz = do {
     uk_assert (sz \<le> b_count b);
     uk_assert (b_capacity b \<noteq> 0);
     Some (b\<lparr>b_head := (b_head b + sz) mod b_capacity b, b_count := b_count b - sz,
             b_total_processed := b_total_processed b + of_nat sz\<rparr>)
   }"

definition uk_vsock_buffer_is_empty :: "uk_vsock_buffer \<Rightarrow> bool" where
  "uk_vsock_buffer_is_empty b \<longleftrightarrow> b_count b = 0"

definition uk_vsock_total_processed :: "uk_vsock_buffer \<Rightarrow> u64" where
  "uk_vsock_total_processed b = b_total_processed b"

definition uk_vsock_free_space :: "uk_vsock_buffer \<Rightarrow> nat" where
  "uk_vsock_free_space b = b_capacity b - b_count b"

section \<open>Invariant and abstraction\<close>

definition wf_buffer :: "uk_vsock_buffer \<Rightarrow> bool" where
  "wf_buffer b \<longleftrightarrow> length (b_buf b) = b_capacity b \<and> b_head b < b_capacity b
     \<and> b_count b \<le> b_capacity b"

definition ring_take :: "'a list \<Rightarrow> nat \<Rightarrow> nat \<Rightarrow> 'a list" where
  "ring_take xs h n = map (\<lambda>i. xs ! ((h + i) mod length xs)) [0..<n]"

definition contents :: "uk_vsock_buffer \<Rightarrow> u8 list" where
  "contents b = ring_take (b_buf b) (b_head b) (b_count b)"

definition chain_bytes :: "uk_netbuf list \<Rightarrow> u8 list" where
  "chain_bytes nb = concat (map nb_payload nb)"

section \<open>Circular lists\<close>

lemma ring_take_length [simp]: "length (ring_take xs h n) = n"
  by (simp add: ring_take_def)

lemma ring_take_0 [simp]: "ring_take xs h 0 = []"
  by (simp add: ring_take_def)

lemma ring_take_split:
  assumes "h < length xs" and "n \<le> length xs"
  shows "ring_take xs h n =
           take (min n (length xs - h)) (drop h xs) @ take (n - (length xs - h)) xs"
proof (rule nth_equalityI)
  show "length (ring_take xs h n) =
      length (take (min n (length xs - h)) (drop h xs) @ take (n - (length xs - h)) xs)"
    using assms by auto
next
  fix i assume "i < length (ring_take xs h n)"
  then have i: "i < n" by simp
  show "ring_take xs h n ! i =
      (take (min n (length xs - h)) (drop h xs) @ take (n - (length xs - h)) xs) ! i"
  proof (cases "h + i < length xs")
    case True
    with i assms show ?thesis by (auto simp: ring_take_def nth_append)
  next
    case False
    then have "(h + i) mod length xs = h + i - length xs"
      using i assms by (simp add: mod_if)
    with False i assms show ?thesis by (auto simp: ring_take_def nth_append add.commute)
  qed
qed

lemma ring_take_append:
  "ring_take xs h (m + n) = ring_take xs h m @ ring_take xs ((h + m) mod length xs) n"
proof (rule nth_equalityI)
  fix i assume "i < length (ring_take xs h (m + n))"
  then have i: "i < m + n" by simp
  show "ring_take xs h (m + n) ! i =
      (ring_take xs h m @ ring_take xs ((h + m) mod length xs) n) ! i"
  proof (cases "i < m")
    case True
    then show ?thesis by (simp add: ring_take_def nth_append)
  next
    case False
    then have "((h + m) mod length xs + (i - m)) mod length xs = (h + i) mod length xs"
      using mod_add_left_eq [of "h + m" "length xs" "i - m"] by simp
    moreover from False i have "i - m < n" by simp
    ultimately show ?thesis using False i by (simp add: ring_take_def nth_append)
  qed
qed simp

lemma ring_take_mod [simp]: "ring_take xs (h mod length xs) n = ring_take xs h n"
  by (simp add: ring_take_def mod_add_left_eq)

lemma ring_take_take: "m \<le> n \<Longrightarrow> take m (ring_take xs h n) = ring_take xs h m"
  by (simp add: ring_take_def take_map)

lemma ring_take_drop: "m \<le> n \<Longrightarrow> drop m (ring_take xs h n) = ring_take xs (h + m) (n - m)"
  using ring_take_append [of xs h m "n - m"] by simp

lemma wrap_write:
  assumes L: "length xs = L" and wp: "wp < L" and p: "length p \<le> L"
    and tc: "tc = min (length p) (L - wp)"
  obtains m1 m2 where "mem_write xs wp (take tc p) = Some m1"
    and "mem_write m1 0 (drop tc p) = Some m2" and "length m2 = L"
    and "\<And>j. j < L \<Longrightarrow>
           m2 ! ((wp + j) mod L) = (if j < length p then p ! j else xs ! ((wp + j) mod L))"
proof -
  have "wp + length (take tc p) \<le> length xs" using L wp tc by auto
  then obtain m1 where m1: "mem_write xs wp (take tc p) = Some m1"
    using mem_write_defined by blast
  have len1: "length m1 = L" using mem_write_length [OF m1] L by simp
  have "0 + length (drop tc p) \<le> length m1" using len1 p by simp
  then obtain m2 where m2: "mem_write m1 0 (drop tc p) = Some m2"
    using mem_write_defined by blast
  have len2: "length m2 = L" using mem_write_length [OF m2] len1 by simp
  have "m2 ! ((wp + j) mod L) = (if j < length p then p ! j else xs ! ((wp + j) mod L))"
    if j: "j < L" for j
  proof (cases "wp + j < L")
    case True
    then have "m2 ! (wp + j) = m1 ! (wp + j)"
      using mem_write_nth [OF m2, of "wp + j"] len1 p tc by auto
    also have "\<dots> = (if j < tc then p ! j else xs ! (wp + j))"
      using mem_write_nth [OF m1, of "wp + j"] L True tc by auto
    finally show ?thesis using True tc by auto
  next
    case False
    then have idx: "(wp + j) mod L = wp + j - L" using j wp by (simp add: mod_if)
    have lt: "wp + j - L < wp" using j wp False by linarith
    have "m2 ! (wp + j - L) =
        (if wp + j - L < length p - tc then drop tc p ! (wp + j - L) else m1 ! (wp + j - L))"
      using mem_write_nth [OF m2, of "wp + j - L"] len1 lt wp by auto
    moreover have "m1 ! (wp + j - L) = xs ! (wp + j - L)"
      using mem_write_nth [OF m1, of "wp + j - L"] L lt wp by auto
    ultimately show ?thesis using False j wp p tc idx by (auto simp: min_def)
  qed
  with m1 m2 len2 show thesis by (rule that)
qed

lemma ring_take_wrap_write:
  assumes L: "length xs = L" "length ys = L" and fits: "m + length p \<le> L" and "0 < L"
    and nth: "\<And>j. j < L \<Longrightarrow> ys ! (((h + m) mod L + j) mod L) =
                (if j < length p then p ! j else xs ! (((h + m) mod L + j) mod L))"
  shows "ring_take ys h (m + length p) = ring_take xs h m @ p"
proof -
  have "ys ! ((h + i) mod L) = xs ! ((h + i) mod L)" if "i < m" for i
  proof -
    have "((h + m) mod L + (L - m + i)) mod L = (h + i + L) mod L"
      using that fits mod_add_left_eq [of "h + m" L "L - m + i"] by (simp add: algebra_simps)
    moreover have "L - m + i < L" and "\<not> L - m + i < length p" using that fits by linarith+
    ultimately show ?thesis using nth [of "L - m + i"] by simp
  qed
  then have "ring_take ys h m = ring_take xs h m"
    using L by (simp add: ring_take_def)
  moreover have "ring_take ys ((h + m) mod L) (length p) = p"
    using nth fits L by (intro nth_equalityI) (auto simp: ring_take_def)
  ultimately show ?thesis using ring_take_append [of ys h m "length p"] L by simp
qed

section \<open>Behaviour of the operations\<close>

lemma append_fits_iff:
  "(\<forall>n\<in>set nb. wf_netbuf n) \<Longrightarrow> appended \<le> room \<Longrightarrow>
     append_fits room appended nb \<longleftrightarrow> appended + length (chain_bytes nb) \<le> room"
  by (induction room appended nb rule: append_fits.induct) (auto simp: chain_bytes_def Let_def)

lemma append_copy_step:
  assumes wf: "length (b_buf b) = b_capacity b" "wf_netbuf nbi"
    and fits: "b_count b + appended + unat (nb_len nbi) \<le> b_capacity b" and "0 < b_capacity b"
  obtains mem where "append_copy b appended (nbi # nb) =
        append_copy (b\<lparr>b_buf := mem\<rparr>) (appended + unat (nb_len nbi)) nb"
    and "length mem = b_capacity b"
    and "ring_take mem (b_head b) (b_count b + (appended + unat (nb_len nbi))) =
           ring_take (b_buf b) (b_head b) (b_count b + appended) @ nb_payload nbi"
proof -
  let ?L = "b_capacity b" and ?p = "nb_payload nbi"
  let ?wp = "(b_head b + b_count b + appended) mod ?L"
  let ?tc = "min (unat (nb_len nbi)) (?L - ?wp)"
  have len: "length ?p = unat (nb_len nbi)" using wf(2) by simp
  obtain m1 m2 where m: "mem_write (b_buf b) ?wp (take ?tc ?p) = Some m1"
      "mem_write m1 0 (drop ?tc ?p) = Some m2" "length m2 = ?L"
      "\<And>j. j < ?L \<Longrightarrow> m2 ! ((?wp + j) mod ?L) =
         (if j < length ?p then ?p ! j else b_buf b ! ((?wp + j) mod ?L))"
    using wrap_write [OF wf(1), of ?wp ?p ?tc] fits \<open>0 < ?L\<close> len by auto
  have r1: "mem_read (nb_buf nbi) (nb_data nbi) ?tc = Some (take ?tc ?p)"
    using mem_read_payload [OF wf(2), of 0 ?tc] by simp
  have r2: "mem_read (nb_buf nbi) (nb_data nbi + ?tc) (unat (nb_len nbi) - ?tc) =
      Some (drop ?tc ?p)"
    using mem_read_payload [OF wf(2), of ?tc "unat (nb_len nbi) - ?tc"] len by simp
  have m1_id: "m2 = m1" if "\<not> ?tc < unat (nb_len nbi)"
    using m(2) that len by (simp add: mem_write_def split: if_splits)
  have "append_copy b appended (nbi # nb) =
      append_copy (b\<lparr>b_buf := m2\<rparr>) (appended + unat (nb_len nbi)) nb"
    unfolding append_copy.simps Let_def r1 Option.bind.bind_lunit m(1) r2 m(2)
    using \<open>0 < ?L\<close> m1_id by (simp del: min_less_iff_conj min_less_iff_disj)
  moreover have "ring_take m2 (b_head b) (b_count b + appended + length ?p) =
      ring_take (b_buf b) (b_head b) (b_count b + appended) @ ?p"
    using ring_take_wrap_write [OF wf(1) m(3) _ \<open>0 < ?L\<close> m(4) [unfolded add.assoc]] fits len
    by (simp add: add.assoc)
  ultimately show thesis using m(3) that len by (simp add: add.assoc)
qed

lemma append_copy_contents:
  assumes "length (b_buf b) = b_capacity b" and "0 < b_capacity b" and "\<forall>n\<in>set nb. wf_netbuf n"
    and "b_count b + appended + length (chain_bytes nb) \<le> b_capacity b"
  shows "\<exists>mem. append_copy b appended nb =
             Some (b\<lparr>b_buf := mem\<rparr>, appended + length (chain_bytes nb))
           \<and> length mem = b_capacity b
           \<and> ring_take mem (b_head b) (b_count b + (appended + length (chain_bytes nb))) =
               ring_take (b_buf b) (b_head b) (b_count b + appended) @ chain_bytes nb"
  using assms
proof (induction nb arbitrary: b appended)
  case Nil
  then show ?case by (auto intro: exI [of _ "b_buf b"] simp: chain_bytes_def)
next
  case (Cons nbi nb)
  have len: "length (chain_bytes (nbi # nb)) = unat (nb_len nbi) + length (chain_bytes nb)"
    using Cons.prems(3) by (simp add: chain_bytes_def)
  obtain mem where step: "append_copy b appended (nbi # nb) =
        append_copy (b\<lparr>b_buf := mem\<rparr>) (appended + unat (nb_len nbi)) nb"
    and mem: "length mem = b_capacity b"
      "ring_take mem (b_head b) (b_count b + (appended + unat (nb_len nbi))) =
         ring_take (b_buf b) (b_head b) (b_count b + appended) @ nb_payload nbi"
    using append_copy_step [of b nbi appended nb] Cons.prems len by auto
  from Cons.IH [of "b\<lparr>b_buf := mem\<rparr>" "appended + unat (nb_len nbi)"] mem(1) Cons.prems len
  obtain mem' where "append_copy (b\<lparr>b_buf := mem\<rparr>) (appended + unat (nb_len nbi)) nb =
        Some (b\<lparr>b_buf := mem'\<rparr>, appended + unat (nb_len nbi) + length (chain_bytes nb))"
      "length mem' = b_capacity b"
      "ring_take mem' (b_head b) (b_count b + (appended + unat (nb_len nbi) + length (chain_bytes nb)))
         = ring_take mem (b_head b) (b_count b + (appended + unat (nb_len nbi))) @ chain_bytes nb"
    by auto
  with step mem(2) len show ?case by (auto simp: chain_bytes_def add.assoc)
qed

lemma uk_vsock_buffer_init_wf:
  assumes "uk_vsock_buffer_init a bufsize = (rc, b, a')" and "0 < bufsize"
  shows "case b of None \<Rightarrow> rc = - ENOMEM
         | Some b \<Rightarrow> rc = 0 \<and> wf_buffer b \<and> contents b = [] \<and> b_capacity b = bufsize
                     \<and> b_total_processed b = 0"
  using assms
  by (auto simp: uk_vsock_buffer_init_def wf_buffer_def contents_def split: option.splits prod.splits)

lemma contents_length [simp]: "length (contents b) = b_count b"
  by (simp add: contents_def)

lemma buffer_append_fits:
  assumes "wf_buffer b" and "\<forall>n\<in>set nb. wf_netbuf n"
    and "length (contents b) + length (chain_bytes nb) \<le> b_capacity b"
  shows "\<exists>b'. uk_vsock_buffer_append b nb = Some (0, b') \<and> wf_buffer b'
           \<and> contents b' = contents b @ chain_bytes nb \<and> b_capacity b' = b_capacity b
           \<and> b_total_processed b' = b_total_processed b"
proof -
  from assms have "\<exists>mem. append_copy b 0 nb = Some (b\<lparr>b_buf := mem\<rparr>, length (chain_bytes nb))
      \<and> length mem = b_capacity b
      \<and> ring_take mem (b_head b) (b_count b + length (chain_bytes nb)) =
          ring_take (b_buf b) (b_head b) (b_count b) @ chain_bytes nb"
    using append_copy_contents [of b nb 0] by (simp add: wf_buffer_def)
  with assms show ?thesis
    by (auto simp: uk_vsock_buffer_append_def append_fits_iff wf_buffer_def contents_def)
qed

lemma buffer_append_full:
  assumes "wf_buffer b" and "\<forall>n\<in>set nb. wf_netbuf n"
    and "length (contents b) + length (chain_bytes nb) > b_capacity b"
  shows "uk_vsock_buffer_append b nb = Some (- ENOSPC, b)"
  using assms by (auto simp: uk_vsock_buffer_append_def append_fits_iff wf_buffer_def)

lemma buffer_read_contents:
  assumes "wf_buffer b"
  shows "uk_vsock_buffer_read b sz = Some (take sz (contents b))"
proof -
  define n where "n = min sz (b_count b)"
  let ?h = "b_head b" and ?L = "b_capacity b"
  have wf: "length (b_buf b) = ?L" "?h < ?L" "n \<le> ?L"
    using assms by (auto simp: wf_buffer_def n_def)
  have tc: "min (?h + n) ?L - min ?h ?L = min n (?L - ?h)"
    using wf(2) by (auto simp: min_def)
  have "take sz (contents b) = ring_take (b_buf b) ?h n"
    by (cases "sz \<le> b_count b") (simp_all add: n_def contents_def ring_take_take)
  also have "\<dots> = take (min n (?L - ?h)) (drop ?h (b_buf b)) @ take (n - (?L - ?h)) (b_buf b)"
    using ring_take_split [of ?h "b_buf b" n] wf by simp
  also have "Some \<dots> = uk_vsock_buffer_read b sz"
  proof (cases "?h + n > ?L")
    case True
    with wf show ?thesis
      by (simp add: uk_vsock_buffer_read_def Let_def n_def [symmetric] tc mem_read_def)
  next
    case False
    with wf show ?thesis
      by (simp add: uk_vsock_buffer_read_def Let_def n_def [symmetric] tc mem_read_def)
  qed
  finally show ?thesis ..
qed

lemma buffer_consume_contents:
  assumes "wf_buffer b" and "sz \<le> length (contents b)"
  shows "\<exists>b'. uk_vsock_buffer_consume b sz = Some b' \<and> wf_buffer b'
           \<and> contents b' = drop sz (contents b) \<and> b_capacity b' = b_capacity b
           \<and> b_total_processed b' = b_total_processed b + of_nat sz"
  using assms ring_take_drop [of sz "b_count b" "b_buf b" "b_head b"]
    ring_take_mod [of "b_buf b" "b_head b + sz" "b_count b - sz"]
  by (auto simp: uk_vsock_buffer_consume_def wf_buffer_def contents_def)

section \<open>The byte queue interface\<close>

text \<open>
  What the receive path and the socket calls rely on: a bounded byte queue. A run of the queue is
  a list of arrivals (netbuf chains, taken whole or refused) and takes (a read followed by the
  consumption of what was read). In every run the bytes taken, followed by the bytes still
  queued, are the bytes queued at the start followed by the accepted arrivals, in order.
\<close>

datatype fifo_op = Arrive "uk_netbuf list" | Take nat

locale byte_fifo =
  fixes invar :: "'b \<Rightarrow> bool" and bytes :: "'b \<Rightarrow> u8 list" and cap :: "'b \<Rightarrow> nat"
    and processed :: "'b \<Rightarrow> u64"
    and enq :: "'b \<Rightarrow> uk_netbuf list \<Rightarrow> (int \<times> 'b) option"
    and peek :: "'b \<Rightarrow> nat \<Rightarrow> u8 list option"
    and advance :: "'b \<Rightarrow> nat \<Rightarrow> 'b option"
  assumes append_accept: "\<lbrakk>invar b; \<forall>n\<in>set nb. wf_netbuf n;
      length (bytes b) + length (chain_bytes nb) \<le> cap b\<rbrakk> \<Longrightarrow>
      \<exists>b'. enq b nb = Some (0, b') \<and> invar b' \<and> bytes b' = bytes b @ chain_bytes nb
        \<and> cap b' = cap b \<and> processed b' = processed b"
    and append_refuse: "\<lbrakk>invar b; \<forall>n\<in>set nb. wf_netbuf n;
      length (bytes b) + length (chain_bytes nb) > cap b\<rbrakk> \<Longrightarrow> enq b nb = Some (- ENOSPC, b)"
    and read_bytes: "invar b \<Longrightarrow> peek b n = Some (take n (bytes b))"
    and consume_bytes: "\<lbrakk>invar b; n \<le> length (bytes b)\<rbrakk> \<Longrightarrow>
      \<exists>b'. advance b n = Some b' \<and> invar b' \<and> bytes b' = drop n (bytes b) \<and> cap b' = cap b
        \<and> processed b' = processed b + of_nat n"
    and bytes_bound: "invar b \<Longrightarrow> length (bytes b) \<le> cap b"

text \<open>One step of a run returns the accepted bytes, the bytes taken and the queue.\<close>

definition fifo_step ::
    "('b \<Rightarrow> uk_netbuf list \<Rightarrow> (int \<times> 'b) option) \<Rightarrow> ('b \<Rightarrow> nat \<Rightarrow> u8 list option) \<Rightarrow>
     ('b \<Rightarrow> nat \<Rightarrow> 'b option) \<Rightarrow> 'b \<Rightarrow> fifo_op \<Rightarrow> (u8 list \<times> u8 list \<times> 'b) option" where
  "fifo_step enq peek advance b op = (case op of
     Arrive nb \<Rightarrow> do {
       (rc, b) \<leftarrow> enq b nb;
       Some (if rc = 0 then chain_bytes nb else [], [], b)
     }
   | Take n \<Rightarrow> do {
       out \<leftarrow> peek b n;
       b \<leftarrow> advance b (length out);
       Some ([], out, b)
     })"

fun fifo_run ::
    "('b \<Rightarrow> uk_netbuf list \<Rightarrow> (int \<times> 'b) option) \<Rightarrow> ('b \<Rightarrow> nat \<Rightarrow> u8 list option) \<Rightarrow>
     ('b \<Rightarrow> nat \<Rightarrow> 'b option) \<Rightarrow> 'b \<Rightarrow> fifo_op list \<Rightarrow> (u8 list \<times> u8 list \<times> 'b) option" where
  "fifo_run enq peek advance b [] = Some ([], [], b)"
| "fifo_run enq peek advance b (op # ops) = do {
     (acc, out, b) \<leftarrow> fifo_step enq peek advance b op;
     (accs, outs, b) \<leftarrow> fifo_run enq peek advance b ops;
     Some (acc @ accs, out @ outs, b)
   }"

fun fifo_op_ok :: "fifo_op \<Rightarrow> bool" where
  "fifo_op_ok (Arrive nb) = list_all wf_netbuf nb"
| "fifo_op_ok (Take n) = True"

context byte_fifo
begin

lemma step_stream:
  assumes "invar b" and "fifo_op_ok op"
  shows "\<exists>acc out b'. fifo_step enq peek advance b op = Some (acc, out, b')
           \<and> invar b' \<and> cap b' = cap b \<and> out @ bytes b' = bytes b @ acc
           \<and> processed b' = processed b + of_nat (length out)"
proof (cases op)
  case (Arrive nb)
  then have wf: "\<forall>n\<in>set nb. wf_netbuf n" using assms(2) by (simp add: list_all_iff)
  show ?thesis
  proof (cases "length (bytes b) + length (chain_bytes nb) \<le> cap b")
    case True
    from append_accept [OF assms(1) wf True] show ?thesis
      by (auto simp: fifo_step_def Arrive)
  next
    case False
    then show ?thesis using append_refuse [OF assms(1) wf] assms(1)
      by (auto simp: fifo_step_def Arrive)
  qed
next
  case (Take n)
  obtain b' where "advance b (length (take n (bytes b))) = Some b'" and "invar b'"
    and "bytes b' = drop n (bytes b)" and "cap b' = cap b"
    and "processed b' = processed b + of_nat (length (take n (bytes b)))"
    using consume_bytes [OF assms(1), of "length (take n (bytes b))"]
    by (cases "n \<le> length (bytes b)") auto
  then show ?thesis by (simp add: fifo_step_def Take read_bytes [OF assms(1)])
qed

lemma run_stream:
  assumes "invar b" and "list_all fifo_op_ok ops"
  shows "\<exists>accs outs b'. fifo_run enq peek advance b ops = Some (accs, outs, b')
           \<and> invar b' \<and> cap b' = cap b \<and> outs @ bytes b' = bytes b @ accs
           \<and> processed b' = processed b + of_nat (length outs)"
  using assms
proof (induction ops arbitrary: b)
  case (Cons op ops)
  then obtain acc out b1 where 1: "fifo_step enq peek advance b op = Some (acc, out, b1)"
      "invar b1" "cap b1 = cap b" "out @ bytes b1 = bytes b @ acc"
      "processed b1 = processed b + of_nat (length out)"
    using step_stream [OF Cons.prems(1), of op] by auto
  moreover obtain accs outs b' where 2: "fifo_run enq peek advance b1 ops = Some (accs, outs, b')"
      "invar b'" "cap b' = cap b1" "outs @ bytes b' = bytes b1 @ accs"
      "processed b' = processed b1 + of_nat (length outs)"
    using Cons.IH [OF 1(2)] Cons.prems(2) by auto
  moreover have "(out @ outs) @ bytes b' = bytes b @ (acc @ accs)"
    using 1(4) 2(4) by (metis append.assoc)
  ultimately show ?case by simp
qed simp

end

interpretation ring: byte_fifo wf_buffer contents b_capacity b_total_processed
  uk_vsock_buffer_append uk_vsock_buffer_read uk_vsock_buffer_consume
proof unfold_locales
  show "length (contents b) \<le> b_capacity b" if "wf_buffer b" for b
    using that by (simp add: wf_buffer_def)
qed (rule buffer_append_fits buffer_append_full buffer_read_contents buffer_consume_contents;
    assumption)+

section \<open>Properties\<close>

text \<open>
  C9: In every sequence of arriving packets and socket reads the receive buffer is a byte stream:
  nothing stops, the bytes that were read followed by the bytes still buffered are the bytes that
  were buffered at the start followed by the packets that were accepted, in order; the counter that
  is announced to the peer grows by the number of bytes read, and the invariant is kept.
\<close>

theorem buffer_stream:
  assumes "wf_buffer b" and "list_all fifo_op_ok ops"
  shows "\<exists>accs outs b'. fifo_run uk_vsock_buffer_append uk_vsock_buffer_read uk_vsock_buffer_consume b ops
             = Some (accs, outs, b')
           \<and> wf_buffer b' \<and> b_capacity b' = b_capacity b \<and> outs @ contents b' = contents b @ accs
           \<and> b_total_processed b' = b_total_processed b + of_nat (length outs)"
  using assms by (rule ring.run_stream)

definition example_buffer :: uk_vsock_buffer where
  "example_buffer = \<lparr>b_buf = [10, 20, 30, 40], b_head = 3, b_count = 1, b_capacity = 4, b_total_processed = 0\<rparr>"

lemma example_buffer_wf: "wf_buffer example_buffer"
  by (simp add: example_buffer_def wf_buffer_def)

theorem buffer_stream_witness:
  "\<exists>accs outs b'. fifo_run uk_vsock_buffer_append uk_vsock_buffer_read uk_vsock_buffer_consume example_buffer
      [Arrive [example_packet], Take 2] = Some (accs, outs, b')
    \<and> wf_buffer b' \<and> b_capacity b' = b_capacity example_buffer
    \<and> outs @ contents b' = contents example_buffer @ accs
    \<and> b_total_processed b' = b_total_processed example_buffer + of_nat (length outs)"
  by (rule buffer_stream) (simp_all add: example_buffer_wf example_packet_wf)

text \<open>
  C24: A chain of packets is refused exactly when it does not fit, and then the buffer is unchanged;
  otherwise it is appended whole.
\<close>

theorem buffer_append_all_or_nothing:
  assumes "wf_buffer b" and "\<forall>n\<in>set nb. wf_netbuf n"
  shows "if length (chain_bytes nb) > uk_vsock_free_space b
    then uk_vsock_buffer_append b nb = Some (- ENOSPC, b)
    else \<exists>b'. uk_vsock_buffer_append b nb = Some (0, b') \<and> wf_buffer b'
           \<and> contents b' = contents b @ chain_bytes nb
           \<and> uk_vsock_free_space b' = uk_vsock_free_space b - length (chain_bytes nb)"
proof (cases "length (chain_bytes nb) > uk_vsock_free_space b")
  case True
  then show ?thesis using buffer_append_full [OF assms] by (auto simp: uk_vsock_free_space_def)
next
  case False
  moreover have "b_count b \<le> b_capacity b" using assms(1) by (simp add: wf_buffer_def)
  ultimately have "length (contents b) + length (chain_bytes nb) \<le> b_capacity b"
    by (simp add: uk_vsock_free_space_def)
  from buffer_append_fits [OF assms this] obtain b' where b': "uk_vsock_buffer_append b nb = Some (0, b')" "wf_buffer b'"
      "contents b' = contents b @ chain_bytes nb" "b_capacity b' = b_capacity b"
    by blast
  have "b_count b' = b_count b + length (chain_bytes nb)"
    using arg_cong [OF b'(3), of length] by simp
  with False b' show ?thesis by (auto simp: uk_vsock_free_space_def)
qed

theorem buffer_append_all_or_nothing_witness:
  "uk_vsock_buffer_append example_buffer [example_packet, example_packet] = Some (- ENOSPC, example_buffer)"
  using buffer_append_all_or_nothing [of example_buffer "[example_packet, example_packet]"] example_buffer_wf example_packet_wf
  by (simp add: chain_bytes_def uk_vsock_free_space_def)
     (simp add: example_buffer_def example_packet_def)

end
