(* ===== verification/Sglist.thy ===== *)
theory Sglist
  imports Netbuf
begin

text \<open>
  Scatter/gather lists (\<open>lib/uksglist/sglist.c\<close>, \<open>include/uk/sglist.h\<close>) and the function that
  adds a netbuf chain to one (\<open>uk_netbuf_sglist_append\<close> of \<open>lib/uknetdev/netbuf.c\<close>). A list is an
  array of physical segments of which the first \<open>sg_nseg\<close> are in use. The address translation
  \<open>uk_paging_virt_to_phys\<close> belongs to the paging code and is the parameter \<open>v2p\<close>; what the code
  relies on, that a page is physically contiguous, is the hypothesis \<open>page_linear\<close>.

  The abstraction \<open>sg_bytes\<close> is the sequence of physical byte addresses that the segments cover.
  The lemmas show that an append adds exactly the addresses of the buffer, that a failing append
  restores the list, that it only fails when segments run out, and that \<open>uk_sglist_count\<close> counts the
  segments an append uses.
\<close>

section \<open>Data\<close>

record uk_sglist_seg =
  ss_paddr :: nat
  ss_len :: nat

record uk_sglist =
  sg_segs :: "uk_sglist_seg list"
  sg_nseg :: nat
  sg_maxseg :: nat
  sg_refs :: u32

record uk_sgsave =
  save_nseg :: nat
  save_len :: nat

definition PAGE_SIZE :: nat where
  "PAGE_SIZE = 4096"

definition page_off :: "nat \<Rightarrow> nat" where
  "page_off v = v mod PAGE_SIZE"

definition trunc_page :: "nat \<Rightarrow> nat" where
  "trunc_page v = v - page_off v"

section \<open>Operations\<close>

definition uk_sglist_init :: "nat \<Rightarrow> uk_sglist_seg list \<Rightarrow> uk_sglist" where
  "uk_sglist_init maxsegs segs =
     \<lparr>sg_segs = segs, sg_nseg = 0, sg_maxseg = maxsegs, sg_refs = 1\<rparr>"

definition uk_sglist_reset :: "uk_sglist \<Rightarrow> uk_sglist" where
  "uk_sglist_reset sg = sg\<lparr>sg_nseg := 0\<rparr>"

definition UK_SGLIST_SAVE :: "uk_sglist \<Rightarrow> uk_sgsave" where
  "UK_SGLIST_SAVE sg = \<lparr>save_nseg = sg_nseg sg,
     save_len = (if sg_nseg sg > 0 then ss_len (sg_segs sg ! (sg_nseg sg - 1)) else 0)\<rparr>"

definition UK_SGLIST_RESTORE :: "uk_sglist \<Rightarrow> uk_sgsave \<Rightarrow> uk_sglist" where
  "UK_SGLIST_RESTORE sg save = (
     let sg = sg\<lparr>sg_nseg := save_nseg save\<rparr> in
     if save_nseg save > 0
     then let i = save_nseg save - 1 in
       sg\<lparr>sg_segs := (sg_segs sg)[i := (sg_segs sg ! i)\<lparr>ss_len := save_len save\<rparr>]\<rparr>
     else sg)"

text \<open>\<open>ss\<close> is the index of the current segment; the result has the new one.\<close>

definition sglist_append_range ::
    "uk_sglist \<Rightarrow> nat \<Rightarrow> nat \<Rightarrow> nat \<Rightarrow> (int \<times> nat \<times> uk_sglist) option" where
  "sglist_append_range sg ss paddr len = do {
     uk_assert (ss < length (sg_segs sg));
     let s = sg_segs sg ! ss;
     if ss_paddr s + ss_len s = paddr
     then Some (0, ss, sg\<lparr>sg_segs := (sg_segs sg)[ss := s\<lparr>ss_len := ss_len s + len\<rparr>]\<rparr>)
     else if sg_nseg sg = sg_maxseg sg then Some (- EFBIG, ss, sg)
     else do {
       uk_assert (ss + 1 < length (sg_segs sg));
       Some (0, ss + 1,
             sg\<lparr>sg_segs := (sg_segs sg)[ss + 1 := \<lparr>ss_paddr = paddr, ss_len = len\<rparr>],
                sg_nseg := sg_nseg sg + 1\<rparr>)
     }
   }"

text \<open>The loop over the pages after the first one.\<close>

function sglist_append_pages ::
    "(nat \<Rightarrow> nat) \<Rightarrow> uk_sglist \<Rightarrow> nat \<Rightarrow> nat \<Rightarrow> nat \<Rightarrow> (int \<times> uk_sglist) option" where
  "sglist_append_pages v2p sg ss vaddr len = (
     if len > 0 then do {
       let seglen = min len PAGE_SIZE;
       (error, ss, sg) \<leftarrow> sglist_append_range sg ss (v2p vaddr) seglen;
       if error \<noteq> 0 then Some (error, sg)
       else sglist_append_pages v2p sg ss (vaddr + seglen) (len - seglen)
     }
     else Some (0, sg))"
  by pat_completeness auto

termination sglist_append_pages
  by (relation "measure (\<lambda>(_, _, _, _, len). len)") (auto simp: PAGE_SIZE_def)

declare sglist_append_pages.simps [simp del]

definition sglist_append_buf ::
    "(nat \<Rightarrow> nat) \<Rightarrow> uk_sglist \<Rightarrow> nat \<Rightarrow> nat \<Rightarrow> (int \<times> uk_sglist) option" where
  "sglist_append_buf v2p sg vaddr len = (
     if len = 0 then Some (0, sg)
     else do {
       let offset = page_off vaddr;
       let paddr = v2p vaddr;
       let seglen = min len (PAGE_SIZE - offset);
       (error, ss, sg) \<leftarrow>
         (if sg_nseg sg = 0
          then do {
            uk_assert (0 < length (sg_segs sg));
            Some (0, 0, sg\<lparr>sg_segs := (sg_segs sg)[0 := \<lparr>ss_paddr = paddr, ss_len = seglen\<rparr>],
                           sg_nseg := 1\<rparr>)
          }
          else sglist_append_range sg (sg_nseg sg - 1) paddr seglen);
       if error \<noteq> 0 then Some (error, sg)
       else sglist_append_pages v2p sg ss (vaddr + seglen) (len - seglen)
     })"

function sglist_count_pages :: "(nat \<Rightarrow> nat) \<Rightarrow> nat \<Rightarrow> nat \<Rightarrow> nat \<Rightarrow> nat \<Rightarrow> nat" where
  "sglist_count_pages v2p vaddr vendaddr lastaddr nsegs = (
     if vaddr < vendaddr
     then let paddr = v2p vaddr in
       sglist_count_pages v2p (vaddr + PAGE_SIZE) vendaddr paddr
         (if lastaddr + PAGE_SIZE \<noteq> paddr then nsegs + 1 else nsegs)
     else nsegs)"
  by pat_completeness auto

termination sglist_count_pages
  by (relation "measure (\<lambda>(_, vaddr, vendaddr, _, _). vendaddr - vaddr)")
    (auto simp: PAGE_SIZE_def)

declare sglist_count_pages.simps [simp del]

definition uk_sglist_count :: "(nat \<Rightarrow> nat) \<Rightarrow> nat \<Rightarrow> nat \<Rightarrow> nat" where
  "uk_sglist_count v2p buf len = (
     if len = 0 then 0
     else let vaddr = trunc_page buf in
       sglist_count_pages v2p (vaddr + PAGE_SIZE) (buf + len) (v2p vaddr) 1)"

definition uk_sglist_append ::
    "(nat \<Rightarrow> nat) \<Rightarrow> uk_sglist \<Rightarrow> nat \<Rightarrow> nat \<Rightarrow> (int \<times> uk_sglist) option" where
  "uk_sglist_append v2p sg buf len = (
     if sg_maxseg sg = 0 then Some (- EINVAL, sg)
     else do {
       let save = UK_SGLIST_SAVE sg;
       (error, sg) \<leftarrow> sglist_append_buf v2p sg buf len;
       Some (error, if error \<noteq> 0 then UK_SGLIST_RESTORE sg save else sg)
     })"

definition uk_sglist_length :: "uk_sglist \<Rightarrow> nat" where
  "uk_sglist_length sg = foldl (\<lambda>space s. space + ss_len s) 0 (take (sg_nseg sg) (sg_segs sg))"

text \<open>The segment array of an allocated list holds whatever the memory held before.\<close>

definition uk_sglist_alloc ::
    "(nat \<Rightarrow> uk_sglist_seg) \<Rightarrow> ukalloc \<Rightarrow> nat \<Rightarrow> uk_sglist option \<times> ukalloc" where
  "uk_sglist_alloc junk a nsegs = (
     let (mem, a) = uk_malloc a (16 + nsegs * 16) in
     case mem of
       None \<Rightarrow> (None, a)
     | Some _ \<Rightarrow> (Some (uk_sglist_init nsegs (map junk [0..<nsegs])), a))"

definition uk_sglist_build ::
    "(nat \<Rightarrow> nat) \<Rightarrow> (nat \<Rightarrow> uk_sglist_seg) \<Rightarrow> ukalloc \<Rightarrow> nat \<Rightarrow> nat \<Rightarrow>
     (uk_sglist option \<times> ukalloc) option" where
  "uk_sglist_build v2p junk a buf len = (
     if len = 0 then Some (None, a)
     else do {
       let nsegs = uk_sglist_count v2p buf len;
       uk_assert (nsegs > 0);
       let (sg, a) = uk_sglist_alloc junk a nsegs;
       case sg of
         None \<Rightarrow> Some (None, a)
       | Some sg \<Rightarrow> do {
           (rc, sg) \<leftarrow> uk_sglist_append v2p sg buf len;
           Some (if rc \<noteq> 0 then None else Some sg, a)
         }
     })"

fun netbuf_sglist_append_loop ::
    "(nat \<Rightarrow> nat) \<Rightarrow> uk_sgsave \<Rightarrow> uk_sglist \<Rightarrow> uk_netbuf list \<Rightarrow> (int \<times> uk_sglist) option" where
  "netbuf_sglist_append_loop v2p save sg [] = Some (0, sg)"
| "netbuf_sglist_append_loop v2p save sg (nb # nbs) = (
     if unat (nb_len nb) > 0
     then do {
       (rc, sg) \<leftarrow> uk_sglist_append v2p sg (nb_base nb + nb_data nb) (unat (nb_len nb));
       if rc \<noteq> 0 then Some (rc, UK_SGLIST_RESTORE sg save)
       else netbuf_sglist_append_loop v2p save sg nbs
     }
     else netbuf_sglist_append_loop v2p save sg nbs)"

definition uk_netbuf_sglist_append ::
    "(nat \<Rightarrow> nat) \<Rightarrow> uk_sglist \<Rightarrow> uk_netbuf list \<Rightarrow> (int \<times> uk_sglist) option" where
  "uk_netbuf_sglist_append v2p sg netbuf = (
     if sg_maxseg sg = 0 then Some (- EINVAL, sg)
     else netbuf_sglist_append_loop v2p (UK_SGLIST_SAVE sg) sg netbuf)"

section \<open>Invariant and abstraction\<close>

definition wf_sglist :: "uk_sglist \<Rightarrow> bool" where
  "wf_sglist sg \<longleftrightarrow> sg_nseg sg \<le> sg_maxseg sg \<and> sg_maxseg sg \<le> length (sg_segs sg)"

definition seg_bytes :: "uk_sglist_seg \<Rightarrow> nat list" where
  "seg_bytes s = [ss_paddr s..<ss_paddr s + ss_len s]"

definition sg_bytes :: "uk_sglist \<Rightarrow> nat list" where
  "sg_bytes sg = concat (map seg_bytes (take (sg_nseg sg) (sg_segs sg)))"

definition page_linear :: "(nat \<Rightarrow> nat) \<Rightarrow> bool" where
  "page_linear v2p \<longleftrightarrow> (\<forall>v. v2p v = v2p (trunc_page v) + page_off v)"

text \<open>The number of pages that a buffer touches.\<close>

definition pages_spanned :: "nat \<Rightarrow> nat \<Rightarrow> nat" where
  "pages_spanned vaddr len = (page_off vaddr + len + PAGE_SIZE - 1) div PAGE_SIZE"

text \<open>How an append may change a list: the earlier segments stay, the last one may grow.\<close>

definition extends :: "uk_sglist \<Rightarrow> uk_sglist \<Rightarrow> bool" where
  "extends sg sg' \<longleftrightarrow> sg_nseg sg \<le> sg_nseg sg' \<and> sg_maxseg sg' = sg_maxseg sg
     \<and> length (sg_segs sg') = length (sg_segs sg)
     \<and> take (sg_nseg sg - 1) (sg_segs sg') = take (sg_nseg sg - 1) (sg_segs sg)
     \<and> (0 < sg_nseg sg \<longrightarrow>
          ss_paddr (sg_segs sg' ! (sg_nseg sg - 1)) = ss_paddr (sg_segs sg ! (sg_nseg sg - 1)))"

section \<open>Lemmas\<close>

lemma PAGE_SIZE_pos [simp]: "0 < PAGE_SIZE"
  by (simp add: PAGE_SIZE_def)

lemma extends_refl [simp]: "extends sg sg"
  by (simp add: extends_def)

lemma extends_trans [trans]:
  assumes "extends a b" and "extends b c" and "wf_sglist a" and "wf_sglist b"
  shows "extends a c"
proof -
  have 1: "take (sg_nseg a - 1) (sg_segs c) = take (sg_nseg a - 1) (sg_segs a)"
  proof -
    have "take (sg_nseg a - 1) (take (sg_nseg b - 1) (sg_segs c)) =
        take (sg_nseg a - 1) (take (sg_nseg b - 1) (sg_segs b))"
      using assms(2) by (simp add: extends_def)
    then show ?thesis using assms(1) by (simp add: extends_def min_absorb1 diff_le_mono)
  qed
  have 2: "ss_paddr (sg_segs c ! (sg_nseg a - 1)) = ss_paddr (sg_segs a ! (sg_nseg a - 1))"
    if "0 < sg_nseg a"
  proof (cases "sg_nseg a = sg_nseg b")
    case True
    with that assms show ?thesis by (simp add: extends_def)
  next
    case False
    then have lt: "sg_nseg a - 1 < sg_nseg b - 1" using that assms(1) unfolding extends_def by linarith
    then have "take (sg_nseg b - 1) (sg_segs c) ! (sg_nseg a - 1) = sg_segs c ! (sg_nseg a - 1)"
      and "take (sg_nseg b - 1) (sg_segs b) ! (sg_nseg a - 1) = sg_segs b ! (sg_nseg a - 1)"
      by simp_all
    with assms that show ?thesis by (simp add: extends_def)
  qed
  show ?thesis using 1 2 assms by (simp add: extends_def)
qed

lemma extends_restore:
  assumes "extends sg sg'" and "wf_sglist sg"
  shows "sg_bytes (UK_SGLIST_RESTORE sg' (UK_SGLIST_SAVE sg)) = sg_bytes sg"
    and "sg_nseg (UK_SGLIST_RESTORE sg' (UK_SGLIST_SAVE sg)) = sg_nseg sg"
    and "wf_sglist (UK_SGLIST_RESTORE sg' (UK_SGLIST_SAVE sg))"
    and "extends sg (UK_SGLIST_RESTORE sg' (UK_SGLIST_SAVE sg))"
proof -
  let ?r = "UK_SGLIST_RESTORE sg' (UK_SGLIST_SAVE sg)"
  have used: "take (sg_nseg sg) (sg_segs ?r) = take (sg_nseg sg) (sg_segs sg) \<and> sg_nseg ?r = sg_nseg sg
      \<and> sg_maxseg ?r = sg_maxseg sg \<and> length (sg_segs ?r) = length (sg_segs sg)"
  proof (cases "sg_nseg sg")
    case 0
    with assms(1) show ?thesis
      by (simp add: UK_SGLIST_RESTORE_def UK_SGLIST_SAVE_def extends_def Let_def)
  next
    case (Suc k)
    have k: "k < length (sg_segs sg)" using assms(2) Suc by (simp add: wf_sglist_def)
    have seg: "(sg_segs sg' ! k)\<lparr>ss_len := ss_len (sg_segs sg ! k)\<rparr> = sg_segs sg ! k"
      using assms(1) Suc by (simp add: extends_def)
    then show ?thesis using assms(1) Suc k
      by (simp add: UK_SGLIST_RESTORE_def UK_SGLIST_SAVE_def extends_def Let_def
          take_Suc_update take_Suc_conv_app_nth [of k "sg_segs sg"])
  qed
  then show "sg_bytes ?r = sg_bytes sg" and "sg_nseg ?r = sg_nseg sg" and "wf_sglist ?r"
    using assms(2) by (simp_all add: sg_bytes_def wf_sglist_def)
  from used have eq: "take (sg_nseg sg) (sg_segs ?r) = take (sg_nseg sg) (sg_segs sg)" by simp
  have "take (sg_nseg sg - 1) (sg_segs ?r) = take (sg_nseg sg - 1) (sg_segs sg)"
    using arg_cong [OF eq, of "take (sg_nseg sg - 1)"] by (simp add: min_def split: if_splits)
  moreover have "sg_segs ?r ! (sg_nseg sg - 1) = sg_segs sg ! (sg_nseg sg - 1)" if "0 < sg_nseg sg"
    using arg_cong [OF eq, of "\<lambda>xs. xs ! (sg_nseg sg - 1)"] that by simp
  ultimately show "extends sg ?r" using used by (simp add: extends_def)
qed

lemma append_range_spec:
  assumes wf: "wf_sglist sg" and n: "sg_nseg sg = Suc ss"
  defines "s \<equiv> sg_segs sg ! ss"
  obtains (merge) sg' where "ss_paddr s + ss_len s = paddr"
      and "sglist_append_range sg ss paddr len = Some (0, ss, sg')" and "sg_nseg sg' = sg_nseg sg"
      and "wf_sglist sg'" and "extends sg sg'" and "sg_bytes sg' = sg_bytes sg @ [paddr..<paddr + len]"
      and "ss_paddr (sg_segs sg' ! ss) + ss_len (sg_segs sg' ! ss) = paddr + len"
    | (new) sg' where "ss_paddr s + ss_len s \<noteq> paddr" and "sg_nseg sg < sg_maxseg sg"
      and "sglist_append_range sg ss paddr len = Some (0, Suc ss, sg')"
      and "sg_nseg sg' = Suc (sg_nseg sg)"
      and "wf_sglist sg'" and "extends sg sg'" and "sg_bytes sg' = sg_bytes sg @ [paddr..<paddr + len]"
      and "ss_paddr (sg_segs sg' ! Suc ss) + ss_len (sg_segs sg' ! Suc ss) = paddr + len"
    | (full) "ss_paddr s + ss_len s \<noteq> paddr" and "sg_nseg sg = sg_maxseg sg"
      and "sglist_append_range sg ss paddr len = Some (- EFBIG, ss, sg)"
proof -
  have ss: "ss < length (sg_segs sg)" and max: "sg_maxseg sg \<le> length (sg_segs sg)"
    using wf n by (simp_all add: wf_sglist_def)
  consider "ss_paddr s + ss_len s = paddr" | "ss_paddr s + ss_len s \<noteq> paddr" "sg_nseg sg < sg_maxseg sg"
    | "ss_paddr s + ss_len s \<noteq> paddr" "sg_nseg sg = sg_maxseg sg"
    using wf by (fastforce simp: wf_sglist_def)
  then show thesis
  proof cases
    case 1
    let ?sg = "sg\<lparr>sg_segs := (sg_segs sg)[ss := s\<lparr>ss_len := ss_len s + len\<rparr>]\<rparr>"
    have "seg_bytes (s\<lparr>ss_len := ss_len s + len\<rparr>) = seg_bytes s @ [paddr..<paddr + len]"
      using 1 upt_add_eq_append [of "ss_paddr s" "ss_paddr s + ss_len s" len]
      by (auto simp: seg_bytes_def add.assoc)
    then have "sg_bytes ?sg = sg_bytes sg @ [paddr..<paddr + len]"
      using ss n by (simp add: sg_bytes_def take_Suc_update take_Suc_conv_app_nth s_def)
    with 1 ss n wf show thesis
      by (intro merge [of ?sg]) (simp_all add: sglist_append_range_def s_def wf_sglist_def extends_def Let_def)
  next
    case 2
    let ?sg = "sg\<lparr>sg_segs := (sg_segs sg)[Suc ss := \<lparr>ss_paddr = paddr, ss_len = len\<rparr>],
                  sg_nseg := Suc (sg_nseg sg)\<rparr>"
    have lt: "Suc ss < length (sg_segs sg)" using 2 n max by simp
    then have "sg_bytes ?sg = sg_bytes sg @ [paddr..<paddr + len]"
      using n by (simp add: sg_bytes_def take_Suc_update [OF lt] seg_bytes_def)
    with 2 ss n wf lt show thesis
      by (intro new [of ?sg]) (simp_all add: sglist_append_range_def s_def wf_sglist_def extends_def Let_def)
  next
    case 3
    with ss n show thesis by (intro full) (simp_all add: sglist_append_range_def s_def Let_def)
  qed
qed

lemma v2p_range:
  assumes "page_linear v2p" and "page_off v + n \<le> PAGE_SIZE"
  shows "map v2p [v..<v + n] = [v2p v..<v2p v + n]"
proof (rule nth_equalityI)
  fix i assume "i < length (map v2p [v..<v + n])"
  then have i: "i < n" by simp
  have off: "page_off (v + i) = page_off v + i"
  proof -
    have "page_off v + i < PAGE_SIZE" using i assms(2) by simp
    moreover have "page_off (v + i) = (page_off v + i) mod PAGE_SIZE"
      by (simp add: page_off_def mod_add_left_eq)
    ultimately show ?thesis by simp
  qed
  then have "trunc_page (v + i) = trunc_page v" by (simp add: trunc_page_def)
  then have "v2p (v + i) = v2p v + i"
    using assms(1) off unfolding page_linear_def by (metis add.assoc)
  with i show "map v2p [v..<v + n] ! i = [v2p v..<v2p v + n] ! i" by simp
qed simp

lemma count_pages_mono: "nsegs \<le> sglist_count_pages v2p vaddr vendaddr lastaddr nsegs"
proof (induction v2p vaddr vendaddr lastaddr nsegs rule: sglist_count_pages.induct)
  case (1 v2p vaddr vendaddr lastaddr nsegs)
  then show ?case
    by (subst sglist_count_pages.simps) (auto simp: Let_def split: if_splits)
qed

lemma count_pages_shift:
  "sglist_count_pages v2p vaddr vendaddr lastaddr (nsegs + k) =
     sglist_count_pages v2p vaddr vendaddr lastaddr nsegs + k"
proof (induction v2p vaddr vendaddr lastaddr nsegs rule: sglist_count_pages.induct)
  case (1 v2p vaddr vendaddr lastaddr nsegs)
  then show ?case
    by (subst (1 2) sglist_count_pages.simps) (auto simp: Let_def)
qed

lemma count_pages_bound:
  "sglist_count_pages v2p vaddr vendaddr lastaddr nsegs
     \<le> nsegs + (vendaddr - vaddr + PAGE_SIZE - 1) div PAGE_SIZE"
proof (induction v2p vaddr vendaddr lastaddr nsegs rule: sglist_count_pages.induct)
  case (1 v2p vaddr vendaddr lastaddr nsegs)
  show ?case
  proof (cases "vaddr < vendaddr")
    case True
    have "(vendaddr - vaddr + PAGE_SIZE - 1) div PAGE_SIZE =
        Suc ((vendaddr - (vaddr + PAGE_SIZE) + PAGE_SIZE - 1) div PAGE_SIZE)"
    proof (cases "vaddr + PAGE_SIZE \<le> vendaddr")
      case True
      then have "vendaddr - vaddr + PAGE_SIZE - 1 =
          (vendaddr - (vaddr + PAGE_SIZE) + PAGE_SIZE - 1) + PAGE_SIZE" by simp
      then show ?thesis using div_add_self2 [of PAGE_SIZE] PAGE_SIZE_pos by (metis Suc_eq_plus1 less_not_refl)
    next
      case False
      with True have "vendaddr - vaddr + PAGE_SIZE - 1 = (vendaddr - vaddr - 1) + PAGE_SIZE"
        and "vendaddr - vaddr - 1 < PAGE_SIZE" by auto
      then have "(vendaddr - vaddr + PAGE_SIZE - 1) div PAGE_SIZE = 1"
        using div_add_self2 [of PAGE_SIZE "vendaddr - vaddr - 1"] by simp
      with False show ?thesis by simp
    qed
    with 1 [OF True refl] True show ?thesis
      by (subst sglist_count_pages.simps) (auto simp: Let_def split: if_splits)
  next
    case False
    then show ?thesis by (subst sglist_count_pages.simps) simp
  qed
qed

lemma count_pages_done [simp]: "sglist_count_pages v2p v v l n = n"
  by (subst sglist_count_pages.simps) simp

text \<open>
  The outcome of an append that needs \<open>n\<close> segments in total: it covers exactly the buffer when they
  fit, and reports that the list is too big otherwise.
\<close>

definition append_outcome ::
    "(nat \<Rightarrow> nat) \<Rightarrow> uk_sglist \<Rightarrow> nat \<Rightarrow> nat \<Rightarrow> nat \<Rightarrow> (int \<times> uk_sglist) option \<Rightarrow> bool" where
  "append_outcome v2p sg vaddr len n r \<longleftrightarrow> (case r of None \<Rightarrow> False
     | Some (rc, sg') \<Rightarrow> wf_sglist sg' \<and> extends sg sg'
         \<and> (if n \<le> sg_maxseg sg
            then rc = 0 \<and> sg_nseg sg' = n \<and> sg_bytes sg' = sg_bytes sg @ map v2p [vaddr..<vaddr + len]
            else rc = - EFBIG))"

lemma append_outcome_step:
  assumes "append_outcome v2p sg1 (vaddr + k) (len - k) n r" and "k \<le> len"
    and "extends sg sg1" and "wf_sglist sg" and "wf_sglist sg1"
    and "sg_bytes sg1 = sg_bytes sg @ map v2p [vaddr..<vaddr + k]"
  shows "append_outcome v2p sg vaddr len n r"
proof -
  have "map v2p [vaddr..<vaddr + len] =
      map v2p [vaddr..<vaddr + k] @ map v2p [vaddr + k..<vaddr + len]"
    using upt_add_eq_append [of vaddr "vaddr + k" "len - k"] assms(2) by (simp flip: map_append)
  moreover have "sg_maxseg sg1 = sg_maxseg sg" using assms(3) by (simp add: extends_def)
  ultimately show ?thesis
    using assms extends_trans [OF assms(3) _ assms(4,5)]
    by (auto simp: append_outcome_def split: option.splits if_splits)
qed

text \<open>The page loop: it succeeds exactly when the segments it needs fit.\<close>

lemma append_pages_spec:
  assumes lin: "page_linear v2p"
  shows "\<lbrakk>wf_sglist sg; sg_nseg sg = Suc ss;
      0 < len \<Longrightarrow> page_off vaddr = 0;
      0 < len \<Longrightarrow> ss_paddr (sg_segs sg ! ss) + ss_len (sg_segs sg ! ss) = lastaddr + PAGE_SIZE;
      n = sglist_count_pages v2p vaddr (vaddr + len) lastaddr (sg_nseg sg)\<rbrakk> \<Longrightarrow>
    append_outcome v2p sg vaddr len n (sglist_append_pages v2p sg ss vaddr len)"
proof (induction len arbitrary: sg ss vaddr lastaddr rule: less_induct)
  case (less len)
  show ?case
  proof (cases "len > 0")
    case False
    with less.prems(1,2,5) show ?thesis
      by (subst sglist_append_pages.simps) (simp add: wf_sglist_def append_outcome_def)
  next
    case True
    define seglen where "seglen = min len PAGE_SIZE"
    have seglen: "seglen \<le> len" "len - seglen < len"
      using True by (simp_all add: seglen_def)
    have bytes: "[v2p vaddr..<v2p vaddr + seglen] = map v2p [vaddr..<vaddr + seglen]"
      using v2p_range [OF lin, of vaddr seglen] less.prems(3) True by (simp add: seglen_def)
    have full: "seglen = PAGE_SIZE" if "0 < len - seglen"
      using that by (simp add: seglen_def min_def split: if_splits)
    then have off': "page_off (vaddr + seglen) = 0" if "0 < len - seglen"
      using less.prems(3) True that by (simp add: page_off_def)
    have cnt: "n = sglist_count_pages v2p (vaddr + seglen) (vaddr + len) (v2p vaddr)
          (if lastaddr + PAGE_SIZE \<noteq> v2p vaddr then sg_nseg sg + 1 else sg_nseg sg)"
      using True less.prems(5) by (cases "len \<le> PAGE_SIZE")
        (simp_all add: seglen_def sglist_count_pages.simps [of v2p vaddr]
          sglist_count_pages.simps [of v2p "vaddr + PAGE_SIZE"] Let_def)
    have unf: "sglist_append_pages v2p sg ss vaddr len = do {
        (error, ss, sg) \<leftarrow> sglist_append_range sg ss (v2p vaddr) seglen;
        if error \<noteq> 0 then Some (error, sg)
        else sglist_append_pages v2p sg ss (vaddr + seglen) (len - seglen) }"
      unfolding seglen_def using True by (subst sglist_append_pages.simps) (simp add: Let_def)
    have step: ?thesis
      if r: "sglist_append_range sg ss (v2p vaddr) seglen = Some (0, ss1, sg1)"
        and 1: "wf_sglist sg1" "sg_nseg sg1 = Suc ss1" "extends sg sg1"
          "sg_bytes sg1 = sg_bytes sg @ [v2p vaddr..<v2p vaddr + seglen]"
          "ss_paddr (sg_segs sg1 ! ss1) + ss_len (sg_segs sg1 ! ss1) = v2p vaddr + seglen"
        and n: "sg_nseg sg1 = (if lastaddr + PAGE_SIZE \<noteq> v2p vaddr then sg_nseg sg + 1 else sg_nseg sg)"
      for ss1 sg1
    proof -
      have "append_outcome v2p sg1 (vaddr + seglen) (len - seglen) n
          (sglist_append_pages v2p sg1 ss1 (vaddr + seglen) (len - seglen))"
        using less.IH [OF seglen(2) 1(1,2) off', of "v2p vaddr"] 1(5) full cnt n seglen by simp
      from append_outcome_step [OF this seglen(1) 1(3) less.prems(1) 1(1)] 1(4) bytes r unf
      show ?thesis by simp
    qed
    show ?thesis
      using less.prems(1,2)
    proof (cases rule: append_range_spec [where paddr = "v2p vaddr" and len = seglen])
      case (merge sg1)
      with less.prems(2,4) True show ?thesis by (intro step [of ss sg1]) auto
    next
      case (new sg1)
      with less.prems(2,4) True show ?thesis by (intro step [of "Suc ss" sg1]) auto
    next
      case full
      then have "n > sg_maxseg sg"
        using cnt less.prems(4) True count_pages_mono [of "Suc (sg_nseg sg)"] by (auto simp: Suc_le_eq)
      with full less.prems(1) unf show ?thesis by (simp add: append_outcome_def)
    qed
  qed
qed

text \<open>
  Appending to a list: the segments it needs are at most those that \<open>uk_sglist_count\<close> gives, and
  exactly those for an empty list.
\<close>

lemma append_buf_spec:
  assumes lin: "page_linear v2p" and wf: "wf_sglist sg" and max: "0 < sg_maxseg sg"
  obtains m where "append_outcome v2p sg vaddr len m (sglist_append_buf v2p sg vaddr len)"
    and "m \<le> sg_nseg sg + uk_sglist_count v2p vaddr len"
    and "sg_nseg sg = 0 \<Longrightarrow> m = uk_sglist_count v2p vaddr len"
proof (cases "len = 0")
  case True
  with wf show thesis
    by (intro that [of "sg_nseg sg"])
      (auto simp: sglist_append_buf_def uk_sglist_count_def wf_sglist_def append_outcome_def)
next
  case False
  define seglen where "seglen = min len (PAGE_SIZE - page_off vaddr)"
  let ?last = "v2p (trunc_page vaddr)"
  have off: "page_off vaddr < PAGE_SIZE" by (simp add: page_off_def)
  have seglen: "seglen \<le> len" "page_off vaddr + seglen \<le> PAGE_SIZE"
    using off by (auto simp: seglen_def min_def)
  have full: "seglen = PAGE_SIZE - page_off vaddr" if "0 < len - seglen"
    using that by (simp add: seglen_def min_def split: if_splits)
  have trunc: "trunc_page vaddr + page_off vaddr = vaddr"
    by (simp add: trunc_page_def page_off_def)
  have next_page: "vaddr + seglen = trunc_page vaddr + PAGE_SIZE" if "0 < len - seglen"
    using full [OF that] trunc off by linarith
  have off': "page_off (vaddr + seglen) = 0" if "0 < len - seglen"
    unfolding next_page [OF that] by (simp add: page_off_def trunc_page_def minus_mod_eq_mult_div)
  have end_page: "v2p vaddr + seglen = ?last + PAGE_SIZE" if "0 < len - seglen"
    using full [OF that] lin off unfolding page_linear_def
    by (metis add.assoc le_add_diff_inverse less_imp_le)
  have count: "uk_sglist_count v2p vaddr len =
      sglist_count_pages v2p (vaddr + seglen) (vaddr + len) ?last 1"
  proof (cases "0 < len - seglen")
    case True
    with next_page False show ?thesis by (simp add: uk_sglist_count_def Let_def)
  next
    case nomore: False
    then have "\<not> trunc_page vaddr + PAGE_SIZE < vaddr + len" using trunc seglen by linarith
    with nomore seglen False show ?thesis
      by (simp add: uk_sglist_count_def Let_def sglist_count_pages.simps)
  qed
  have bytes: "[v2p vaddr..<v2p vaddr + seglen] = map v2p [vaddr..<vaddr + seglen]"
    using v2p_range [OF lin seglen(2)] by simp
  have rest: "append_outcome v2p sg vaddr len (sg_nseg sg1 + uk_sglist_count v2p vaddr len - 1)
      (sglist_append_pages v2p sg1 ss1 (vaddr + seglen) (len - seglen))"
    if 1: "wf_sglist sg1" "sg_nseg sg1 = Suc ss1" "extends sg sg1"
      "sg_bytes sg1 = sg_bytes sg @ [v2p vaddr..<v2p vaddr + seglen]"
      "ss_paddr (sg_segs sg1 ! ss1) + ss_len (sg_segs sg1 ! ss1) = v2p vaddr + seglen" for ss1 sg1
  proof -
    have "append_outcome v2p sg1 (vaddr + seglen) (len - seglen)
        (sglist_count_pages v2p (vaddr + seglen) (vaddr + len) ?last (sg_nseg sg1))
        (sglist_append_pages v2p sg1 ss1 (vaddr + seglen) (len - seglen))"
      using 1(5) end_page seglen(1) by (intro append_pages_spec [OF lin 1(1,2) off']) simp_all
    moreover have "sglist_count_pages v2p (vaddr + seglen) (vaddr + len) ?last (sg_nseg sg1) =
        sg_nseg sg1 + uk_sglist_count v2p vaddr len - 1"
      using count_pages_shift [of v2p "vaddr + seglen" "vaddr + len" ?last 1 ss1] 1(2) count by simp
    ultimately show ?thesis
      using append_outcome_step [OF _ seglen(1) 1(3) wf 1(1)] 1(4) bytes by simp
  qed
  have pos: "0 < uk_sglist_count v2p vaddr len"
    using count count_pages_mono [of 1] by (simp add: Suc_le_eq)
  have unf: "sglist_append_buf v2p sg vaddr len = do {
      (error, ss, sg) \<leftarrow>
        (if sg_nseg sg = 0
         then do {
           uk_assert (0 < length (sg_segs sg));
           Some (0, 0, sg\<lparr>sg_segs := (sg_segs sg)[0 := \<lparr>ss_paddr = v2p vaddr, ss_len = seglen\<rparr>],
                          sg_nseg := 1\<rparr>)
         }
         else sglist_append_range sg (sg_nseg sg - 1) (v2p vaddr) seglen);
      if error \<noteq> 0 then Some (error, sg)
      else sglist_append_pages v2p sg ss (vaddr + seglen) (len - seglen) }"
    unfolding seglen_def using False by (simp add: sglist_append_buf_def Let_def)
  show thesis
  proof (cases "sg_nseg sg")
    case 0
    let ?sg = "sg\<lparr>sg_segs := (sg_segs sg)[0 := \<lparr>ss_paddr = v2p vaddr, ss_len = seglen\<rparr>], sg_nseg := 1\<rparr>"
    have len0: "0 < length (sg_segs sg)" using wf max by (auto simp: wf_sglist_def)
    then have "wf_sglist ?sg" and "extends sg ?sg"
      and "sg_bytes ?sg = sg_bytes sg @ [v2p vaddr..<v2p vaddr + seglen]"
      using 0 wf max take_Suc_update [of 0 "sg_segs sg"]
      by (simp_all add: wf_sglist_def extends_def sg_bytes_def seg_bytes_def)
    from rest [OF this(1) _ this(2,3)] 0 len0 unf show thesis
      by (intro that [of "uk_sglist_count v2p vaddr len"]) simp_all
  next
    case (Suc ss)
    show thesis using wf Suc
    proof (cases rule: append_range_spec [where paddr = "v2p vaddr" and len = seglen])
      case (merge sg1)
      with rest [of sg1 ss] Suc unf pos show thesis
        by (intro that [of "sg_nseg sg1 + uk_sglist_count v2p vaddr len - 1"]) simp_all
    next
      case (new sg1)
      with rest [of sg1 "Suc ss"] Suc unf pos show thesis
        by (intro that [of "sg_nseg sg1 + uk_sglist_count v2p vaddr len - 1"]) simp_all
    next
      case full
      with Suc unf pos wf show thesis
        by (intro that [of "sg_nseg sg + uk_sglist_count v2p vaddr len"])
          (simp_all add: append_outcome_def)
    qed
  qed
qed

text \<open>The exported append: success adds the buffer, failure leaves the list as it was.\<close>

lemma uk_sglist_append_spec:
  assumes "page_linear v2p" and "wf_sglist sg" and "0 < sg_maxseg sg"
  obtains m rc sg' where "uk_sglist_append v2p sg vaddr len = Some (rc, sg')"
    and "wf_sglist sg'" and "extends sg sg'"
    and "m \<le> sg_nseg sg + uk_sglist_count v2p vaddr len"
    and "sg_nseg sg = 0 \<Longrightarrow> m = uk_sglist_count v2p vaddr len"
    and "if m \<le> sg_maxseg sg
         then rc = 0 \<and> sg_nseg sg' = m \<and> sg_bytes sg' = sg_bytes sg @ map v2p [vaddr..<vaddr + len]
         else rc = - EFBIG \<and> sg_nseg sg' = sg_nseg sg \<and> sg_bytes sg' = sg_bytes sg"
proof -
  obtain m where m: "append_outcome v2p sg vaddr len m (sglist_append_buf v2p sg vaddr len)"
    "m \<le> sg_nseg sg + uk_sglist_count v2p vaddr len"
    "sg_nseg sg = 0 \<Longrightarrow> m = uk_sglist_count v2p vaddr len"
    using append_buf_spec [OF assms, of vaddr len] by blast
  then obtain rc sg' where r: "sglist_append_buf v2p sg vaddr len = Some (rc, sg')"
    and o: "append_outcome v2p sg vaddr len m (Some (rc, sg'))"
    by (auto simp: append_outcome_def split: option.splits)
  show thesis
  proof (cases "m \<le> sg_maxseg sg")
    case True
    with r o m assms show thesis
      by (intro that [of rc sg' m]) (auto simp: uk_sglist_append_def append_outcome_def)
  next
    case False
    with o have ext: "extends sg sg'" and rc: "rc = - EFBIG" by (simp_all add: append_outcome_def)
    note restore = extends_restore [OF ext assms(2)]
    show thesis
      using False r rc m assms restore
      by (intro that [of rc "UK_SGLIST_RESTORE sg' (UK_SGLIST_SAVE sg)" m])
        (auto simp: uk_sglist_append_def Let_def)
  qed
qed

lemma sglist_count_pages_spanned: "uk_sglist_count v2p vaddr len \<le> pages_spanned vaddr len"
proof (cases "len = 0")
  case False
  define t where "t = trunc_page vaddr + PAGE_SIZE"
  have off: "page_off vaddr < PAGE_SIZE" by (simp add: page_off_def)
  have sum: "trunc_page vaddr + page_off vaddr = vaddr" by (simp add: trunc_page_def page_off_def)
  have "uk_sglist_count v2p vaddr len \<le> 1 + (vaddr + len - t + PAGE_SIZE - 1) div PAGE_SIZE"
    using count_pages_bound [of v2p t "vaddr + len" "v2p (trunc_page vaddr)" 1] False
    by (simp add: uk_sglist_count_def t_def Let_def)
  also have "\<dots> \<le> pages_spanned vaddr len"
  proof (cases "PAGE_SIZE \<le> page_off vaddr + len")
    case True
    then have "page_off vaddr + len + PAGE_SIZE - 1 = (vaddr + len - t + PAGE_SIZE - 1) + PAGE_SIZE"
      using sum by (simp add: t_def)
    then show ?thesis using div_add_self2 [of PAGE_SIZE] by (simp add: pages_spanned_def)
  next
    case small: False
    then have "vaddr + len - t = 0" using sum by (simp add: t_def)
    moreover have "(0 + PAGE_SIZE) div PAGE_SIZE \<le> (page_off vaddr + len + PAGE_SIZE - 1) div PAGE_SIZE"
      using False by (intro div_le_mono) simp
    ultimately show ?thesis by (simp add: pages_spanned_def)
  qed
  finally show ?thesis .
qed (simp add: uk_sglist_count_def)

lemma pages_spanned_netbuf: "len \<le> 65535 \<Longrightarrow> pages_spanned vaddr len \<le> 17"
proof -
  assume "len \<le> 65535"
  have "page_off vaddr < 4096" by (simp add: page_off_def PAGE_SIZE_def)
  then have "page_off vaddr + len + PAGE_SIZE - 1 < 18 * PAGE_SIZE"
    using \<open>len \<le> 65535\<close> by (simp add: PAGE_SIZE_def)
  then show ?thesis unfolding pages_spanned_def by (simp add: less_mult_imp_div_less less_Suc_eq_le [symmetric])
qed

section \<open>Netbuf chains\<close>

text \<open>The physical addresses of the payloads of a chain, and the segments they may need.\<close>

definition nb_phys :: "(nat \<Rightarrow> nat) \<Rightarrow> uk_netbuf \<Rightarrow> nat list" where
  "nb_phys v2p nb = map v2p [nb_base nb + nb_data nb..<nb_base nb + nb_data nb + unat (nb_len nb)]"

definition chain_pages :: "uk_netbuf list \<Rightarrow> nat" where
  "chain_pages nbs = sum_list (map (\<lambda>nb. pages_spanned (nb_base nb + nb_data nb) (unat (nb_len nb))) nbs)"

lemma netbuf_loop_spec:
  assumes "page_linear v2p" and "wf_sglist sg0" and "0 < sg_maxseg sg0"
    and "wf_sglist sg" and "extends sg0 sg"
    and "sg_bytes sg = sg_bytes sg0 @ pre"
  shows "\<exists>rc sg'. netbuf_sglist_append_loop v2p (UK_SGLIST_SAVE sg0) sg nbs = Some (rc, sg')
           \<and> wf_sglist sg' \<and> extends sg0 sg' \<and> rc \<in> {0, - EFBIG}
           \<and> (rc = 0 \<longrightarrow> sg_bytes sg' = sg_bytes sg0 @ pre @ concat (map (nb_phys v2p) nbs))
           \<and> (rc \<noteq> 0 \<longrightarrow> sg_nseg sg' = sg_nseg sg0 \<and> sg_bytes sg' = sg_bytes sg0)
           \<and> (sg_nseg sg + chain_pages nbs \<le> sg_maxseg sg0 \<longrightarrow> rc = 0)
           \<and> (rc = 0 \<longrightarrow> sg_nseg sg' \<le> sg_nseg sg + chain_pages nbs)"
  using assms(4-6)
proof (induction nbs arbitrary: sg pre)
  case Nil
  then show ?case by (simp add: chain_pages_def)
next
  case (Cons nb nbs)
  let ?v = "nb_base nb + nb_data nb" and ?l = "unat (nb_len nb)"
  show ?case
  proof (cases "?l > 0")
    case False
    then have "nb_phys v2p nb = []" by (simp add: nb_phys_def)
    with False Cons.IH [OF Cons.prems] show ?thesis
      by (auto simp: chain_pages_def)
  next
    case True
    have max: "sg_maxseg sg = sg_maxseg sg0" using Cons.prems(2) by (simp add: extends_def)
    with assms(3) have max': "0 < sg_maxseg sg" by simp
    obtain m rc sg1 where r: "uk_sglist_append v2p sg ?v ?l = Some (rc, sg1)"
      and wf1: "wf_sglist sg1" and ext1: "extends sg sg1"
      and m: "m \<le> sg_nseg sg + uk_sglist_count v2p ?v ?l"
      and o: "if m \<le> sg_maxseg sg
         then rc = 0 \<and> sg_nseg sg1 = m \<and> sg_bytes sg1 = sg_bytes sg @ map v2p [?v..<?v + ?l]
         else rc = - EFBIG \<and> sg_nseg sg1 = sg_nseg sg \<and> sg_bytes sg1 = sg_bytes sg"
      by (rule uk_sglist_append_spec [OF assms(1) Cons.prems(1) max', of ?v ?l])
    have ext: "extends sg0 sg1" using extends_trans [OF Cons.prems(2) ext1 assms(2) Cons.prems(1)] .
    have pages: "uk_sglist_count v2p ?v ?l \<le> pages_spanned ?v ?l"
      by (rule sglist_count_pages_spanned)
    show ?thesis
    proof (cases "m \<le> sg_maxseg sg")
      case fits: True
      with o Cons.prems(3) have "rc = 0" "sg_nseg sg1 = m"
        "sg_bytes sg1 = sg_bytes sg0 @ (pre @ nb_phys v2p nb)" by (simp_all add: nb_phys_def)
      with Cons.IH [OF wf1 ext this(3)] True r m pages max show ?thesis
        by (auto simp: chain_pages_def)
    next
      case False
      with o r True extends_restore [OF ext assms(2)] m pages max show ?thesis
        by (auto simp: chain_pages_def)
    qed
  qed
qed

lemma netbuf_sglist_append_spec:
  assumes "page_linear v2p" and "wf_sglist sg" and "0 < sg_maxseg sg"
  obtains rc sg' where "uk_netbuf_sglist_append v2p sg nbs = Some (rc, sg')"
    and "wf_sglist sg'" and "sg_maxseg sg' = sg_maxseg sg" and "rc \<in> {0, - EFBIG}"
    and "rc = 0 \<Longrightarrow> sg_bytes sg' = sg_bytes sg @ concat (map (nb_phys v2p) nbs)"
    and "rc \<noteq> 0 \<Longrightarrow> sg_nseg sg' = sg_nseg sg \<and> sg_bytes sg' = sg_bytes sg"
    and "sg_nseg sg + chain_pages nbs \<le> sg_maxseg sg \<Longrightarrow> rc = 0"
    and "rc = 0 \<Longrightarrow> sg_nseg sg' \<le> sg_nseg sg + chain_pages nbs"
    and "length (sg_segs sg') = length (sg_segs sg)"
proof -
  obtain rc sg' where "netbuf_sglist_append_loop v2p (UK_SGLIST_SAVE sg) sg nbs = Some (rc, sg')"
      "wf_sglist sg'" "extends sg sg'" "rc \<in> {0, - EFBIG}"
      "rc = 0 \<longrightarrow> sg_bytes sg' = sg_bytes sg @ concat (map (nb_phys v2p) nbs)"
      "rc \<noteq> 0 \<longrightarrow> sg_nseg sg' = sg_nseg sg \<and> sg_bytes sg' = sg_bytes sg"
      "sg_nseg sg + chain_pages nbs \<le> sg_maxseg sg \<longrightarrow> rc = 0"
      "rc = 0 \<longrightarrow> sg_nseg sg' \<le> sg_nseg sg + chain_pages nbs"
    using netbuf_loop_spec [OF assms assms(2) extends_refl, of "[]" nbs] by auto
  with assms(3) show thesis
    by (intro that [of rc sg']) (auto simp: uk_netbuf_sglist_append_def extends_def)
qed

section \<open>Properties\<close>

text \<open>
  C23: Appending a buffer to a scatter/gather list adds exactly the physical addresses of its bytes,
  in order, or reports that the segments do not suffice and leaves the list as it was. It uses at
  most as many new segments as \<open>uk_sglist_count\<close> says, and exactly as many from an empty list.
\<close>

theorem sglist_append_exact:
  assumes "page_linear v2p" and "wf_sglist sg" and "0 < sg_maxseg sg"
  shows "\<exists>rc sg'. uk_sglist_append v2p sg vaddr len = Some (rc, sg') \<and> wf_sglist sg'
    \<and> (if rc = 0
       then sg_bytes sg' = sg_bytes sg @ map v2p [vaddr..<vaddr + len]
         \<and> sg_nseg sg' \<le> sg_nseg sg + uk_sglist_count v2p vaddr len
         \<and> (sg_nseg sg = 0 \<longrightarrow> sg_nseg sg' = uk_sglist_count v2p vaddr len)
       else rc = - EFBIG \<and> sg_nseg sg' = sg_nseg sg \<and> sg_bytes sg' = sg_bytes sg
         \<and> sg_maxseg sg < sg_nseg sg + uk_sglist_count v2p vaddr len)"
  by (rule uk_sglist_append_spec [OF assms, of vaddr len]) (auto split: if_splits)

theorem sglist_append_exact_witness:
  "\<exists>rc sg'. uk_sglist_append (\<lambda>v. v) (uk_sglist_init 1 [\<lparr>ss_paddr = 0, ss_len = 0\<rparr>]) 5000 7000 = Some (rc, sg')
    \<and> wf_sglist sg'
    \<and> (if rc = 0
       then sg_bytes sg' = sg_bytes (uk_sglist_init 1 [\<lparr>ss_paddr = 0, ss_len = 0\<rparr>]) @ map (\<lambda>v. v) [5000..<5000 + 7000]
         \<and> sg_nseg sg' \<le> sg_nseg (uk_sglist_init 1 [\<lparr>ss_paddr = 0, ss_len = 0\<rparr>]) + uk_sglist_count (\<lambda>v. v) 5000 7000
         \<and> (sg_nseg (uk_sglist_init 1 [\<lparr>ss_paddr = 0, ss_len = 0\<rparr>]) = 0 \<longrightarrow> sg_nseg sg' = uk_sglist_count (\<lambda>v. v) 5000 7000)
       else rc = - EFBIG \<and> sg_nseg sg' = sg_nseg (uk_sglist_init 1 [\<lparr>ss_paddr = 0, ss_len = 0\<rparr>])
         \<and> sg_bytes sg' = sg_bytes (uk_sglist_init 1 [\<lparr>ss_paddr = 0, ss_len = 0\<rparr>])
         \<and> sg_maxseg (uk_sglist_init 1 [\<lparr>ss_paddr = 0, ss_len = 0\<rparr>])
             < sg_nseg (uk_sglist_init 1 [\<lparr>ss_paddr = 0, ss_len = 0\<rparr>]) + uk_sglist_count (\<lambda>v. v) 5000 7000)"
  by (rule sglist_append_exact) (simp_all add: page_linear_def trunc_page_def page_off_def uk_sglist_init_def wf_sglist_def)

text \<open>
  C34: A chain of netbufs is added to a scatter/gather list whole and in order, without stopping, or
  the list keeps its segments; and it never fails while there is a segment for every page that the
  chain touches.
\<close>

theorem netbuf_chain_gathered:
  assumes "page_linear v2p" and "wf_sglist sg" and "0 < sg_maxseg sg"
  shows "\<exists>rc sg'. uk_netbuf_sglist_append v2p sg nbs = Some (rc, sg') \<and> wf_sglist sg'
    \<and> sg_bytes sg' = (if rc = 0 then sg_bytes sg @ concat (map (nb_phys v2p) nbs) else sg_bytes sg)
    \<and> (rc = 0 \<or> rc = - EFBIG) \<and> (sg_nseg sg + chain_pages nbs \<le> sg_maxseg sg \<longrightarrow> rc = 0)"
  by (rule netbuf_sglist_append_spec [OF assms, of nbs]) auto

theorem netbuf_chain_gathered_witness:
  "\<exists>rc sg'. uk_netbuf_sglist_append (\<lambda>v. v) (uk_sglist_init 1 [\<lparr>ss_paddr = 0, ss_len = 0\<rparr>]) [example_packet] = Some (rc, sg')
    \<and> wf_sglist sg'
    \<and> sg_bytes sg' = (if rc = 0 then sg_bytes (uk_sglist_init 1 [\<lparr>ss_paddr = 0, ss_len = 0\<rparr>])
         @ concat (map (nb_phys (\<lambda>v. v)) [example_packet]) else sg_bytes (uk_sglist_init 1 [\<lparr>ss_paddr = 0, ss_len = 0\<rparr>]))
    \<and> (rc = 0 \<or> rc = - EFBIG)
    \<and> (sg_nseg (uk_sglist_init 1 [\<lparr>ss_paddr = 0, ss_len = 0\<rparr>]) + chain_pages [example_packet]
         \<le> sg_maxseg (uk_sglist_init 1 [\<lparr>ss_paddr = 0, ss_len = 0\<rparr>]) \<longrightarrow> rc = 0)"
  by (rule netbuf_chain_gathered) (simp_all add: page_linear_def trunc_page_def page_off_def uk_sglist_init_def wf_sglist_def)

end
