(* ===== verification/Virtqueue.thy ===== *)
theory Virtqueue
  imports Sglist
begin

text \<open>
  The split virtqueue (\<open>drivers/virtio/ring/virtio_ring.c\<close>, \<open>include/virtio/virtio_ring.h\<close>): the ring
  of descriptors that the driver and the device share. The model keeps the descriptor table, the
  available and the used ring as lists, every index as the 16-bit word it is in memory, and the
  cookies the driver attaches to buffers as values of a type parameter. The fields of the used ring
  (\<open>vu_idx\<close>, \<open>vu_ring\<close>, \<open>vu_flags\<close>, \<open>vu_avail_event\<close>) are written by the device.

  The invariant \<open>vq_inv\<close> ties the linked free list and the descriptor chains in flight to lists of
  indices. The lemmas show that every operation keeps it, that a buffer that the device returns
  gives back the cookie it was queued with and exactly its descriptors, and that the notification
  suppression loses no event.
\<close>

unbundle bit_operations_syntax

section \<open>Data\<close>

record vring_desc =
  vd_addr :: nat
  vd_len :: u32
  vd_flags :: u16
  vd_next :: u16

record vring_used_elem =
  ue_id :: u32
  ue_len :: u32

record 'c virtqueue_desc_info =
  di_cookie :: "'c option"
  di_desc_count :: u16

record 'c virtqueue_vring =
  vr_num :: nat
  vr_desc :: "vring_desc list"
  va_flags :: u16
  va_idx :: u16
  va_ring :: "u16 list"
  va_used_event :: u16
  vu_flags :: u16
  vu_idx :: u16
  vu_ring :: "vring_used_elem list"
  vu_avail_event :: u16
  vq_desc_avail :: u16
  vq_head_free_desc :: u16
  vq_last_used_desc_idx :: u16
  vq_uses_event_idx :: bool
  vq_last_notified_idx :: u16
  vq_info :: "'c virtqueue_desc_info list"

definition VRING_DESC_F_NEXT :: u16 where "VRING_DESC_F_NEXT = 1"
definition VRING_DESC_F_WRITE :: u16 where "VRING_DESC_F_WRITE = 2"
definition VRING_USED_F_NO_NOTIFY :: u16 where "VRING_USED_F_NO_NOTIFY = 1"
definition VRING_AVAIL_F_NO_INTERRUPT :: u16 where "VRING_AVAIL_F_NO_INTERRUPT = 1"
definition VIRTQUEUE_MAX_SIZE :: nat where "VIRTQUEUE_MAX_SIZE = 32768"
definition VIRTIO_F_EVENT_IDX :: nat where "VIRTIO_F_EVENT_IDX = 29"
definition VIRTIO_F_VERSION_1 :: nat where "VIRTIO_F_VERSION_1 = 32"
definition VIRTIO_TRANSPORT_F_START :: nat where "VIRTIO_TRANSPORT_F_START = 28"

section \<open>Interrupt and notification suppression\<close>

definition vring_need_event :: "u16 \<Rightarrow> u16 \<Rightarrow> u16 \<Rightarrow> bool" where
  "vring_need_event event_idx new_idx old_idx \<longleftrightarrow>
     new_idx - event_idx - 1 < new_idx - old_idx"

definition virtqueue_hasdata :: "'c virtqueue_vring \<Rightarrow> bool" where
  "virtqueue_hasdata vq \<longleftrightarrow> vq_last_used_desc_idx vq \<noteq> vu_idx vq"

definition virtqueue_intr_disable :: "'c virtqueue_vring \<Rightarrow> 'c virtqueue_vring" where
  "virtqueue_intr_disable vq = (
     if vq_uses_event_idx vq
     then vq\<lparr>va_used_event := vq_last_used_desc_idx vq - of_nat (vr_num vq) - 1\<rparr>
     else vq\<lparr>va_flags := va_flags vq OR VRING_AVAIL_F_NO_INTERRUPT\<rparr>)"

text \<open>
  The device may add used entries at any time; \<open>host\<close> is what it does between the moment the
  interrupt is enabled and the second look at the ring.
\<close>

definition virtqueue_intr_enable ::
    "('c virtqueue_vring \<Rightarrow> 'c virtqueue_vring) \<Rightarrow> 'c virtqueue_vring \<Rightarrow> int \<times> 'c virtqueue_vring" where
  "virtqueue_intr_enable host vq = (
     if \<not> virtqueue_hasdata vq
     then let vq = (if vq_uses_event_idx vq
                    then vq\<lparr>va_used_event := vq_last_used_desc_idx vq + 0\<rparr>
                    else vq\<lparr>va_flags := va_flags vq AND NOT VRING_AVAIL_F_NO_INTERRUPT\<rparr>);
              vq = host vq in
       if virtqueue_hasdata vq then (1, virtqueue_intr_disable vq) else (0, vq)
     else (1, vq))"

definition virtqueue_notify_enabled :: "'c virtqueue_vring \<Rightarrow> bool" where
  "virtqueue_notify_enabled vq \<longleftrightarrow> (
     if vq_uses_event_idx vq
     then vring_need_event (vu_avail_event vq) (va_idx vq) (vq_last_notified_idx vq)
     else vu_flags vq AND VRING_USED_F_NO_NOTIFY = 0)"

text \<open>The first component says whether the device is notified.\<close>

definition virtqueue_host_notify :: "'c virtqueue_vring \<Rightarrow> bool \<times> 'c virtqueue_vring" where
  "virtqueue_host_notify vq = (
     if virtqueue_notify_enabled vq
     then (True, vq\<lparr>vq_last_notified_idx := va_idx vq\<rparr>)
     else (False, vq))"

definition virtqueue_feature_negotiate :: "u64 \<Rightarrow> u64" where
  "virtqueue_feature_negotiate feature_set = (
     let feature = push_bit VIRTIO_TRANSPORT_F_START 1 - 1;
         feature = feature OR push_bit VIRTIO_F_VERSION_1 1;
         feature = feature OR push_bit VIRTIO_F_EVENT_IDX 1 in
     feature AND feature_set)"

text \<open>The interrupt handler runs the callback of the queue only when there is data.\<close>

definition virtqueue_ring_interrupt :: "(unit \<Rightarrow> int) option \<Rightarrow> 'c virtqueue_vring \<Rightarrow> int" where
  "virtqueue_ring_interrupt vq_callback vq = (
     if \<not> virtqueue_hasdata vq then 1
     else case vq_callback of Some f \<Rightarrow> f () | None \<Rightarrow> 1)"

section \<open>Queueing buffers\<close>

definition virtqueue_ring_update_avail :: "'c virtqueue_vring \<Rightarrow> u16 \<Rightarrow> 'c virtqueue_vring option" where
  "virtqueue_ring_update_avail vrq idx = do {
     let avail_idx = unat (va_idx vrq) AND (vr_num vrq - 1);
     uk_assert (avail_idx < length (va_ring vrq));
     Some (vrq\<lparr>va_ring := (va_ring vrq)[avail_idx := idx], va_idx := va_idx vrq + 1\<rparr>)
   }"

text \<open>
  The loop of \<open>virtqueue_buffer_enqueue_segments\<close>; \<open>todo\<close> counts the iterations that are left, so
  that the loop index is \<open>total_desc - todo\<close>.
\<close>

fun enqueue_segments_loop ::
    "vring_desc list \<Rightarrow> u16 \<Rightarrow> uk_sglist_seg list \<Rightarrow> nat \<Rightarrow> nat \<Rightarrow> nat \<Rightarrow> (vring_desc list \<times> u16) option" where
  "enqueue_segments_loop desc idx segs read_bufs total_desc 0 = Some (desc, idx)"
| "enqueue_segments_loop desc idx segs read_bufs total_desc (Suc todo) = do {
     let i = total_desc - Suc todo;
     uk_assert (i < length segs);
     uk_assert (unat idx < length desc);
     let d = desc ! unat idx;
     let flags = 0;
     let flags = (if i \<ge> read_bufs then flags OR VRING_DESC_F_WRITE else flags);
     let flags = (if i < total_desc - 1 then flags OR VRING_DESC_F_NEXT else flags);
     let d = d\<lparr>vd_addr := ss_paddr (segs ! i), vd_len := of_nat (ss_len (segs ! i)), vd_flags := flags\<rparr>;
     enqueue_segments_loop (desc[unat idx := d]) (vd_next d) segs read_bufs total_desc todo
   }"

definition virtqueue_buffer_enqueue_segments ::
    "'c virtqueue_vring \<Rightarrow> u16 \<Rightarrow> uk_sglist \<Rightarrow> nat \<Rightarrow> nat \<Rightarrow> (u16 \<times> 'c virtqueue_vring) option" where
  "virtqueue_buffer_enqueue_segments vrq head sg read_bufs write_bufs = do {
     let total_desc = read_bufs + write_bufs;
     (desc, idx) \<leftarrow> enqueue_segments_loop (vr_desc vrq) head (sg_segs sg) read_bufs total_desc total_desc;
     Some (idx, vrq\<lparr>vr_desc := desc\<rparr>)
   }"

definition virtqueue_buffer_enqueue ::
    "'c virtqueue_vring \<Rightarrow> 'c \<Rightarrow> uk_sglist \<Rightarrow> nat \<Rightarrow> nat \<Rightarrow> (int \<times> 'c virtqueue_vring) option" where
  "virtqueue_buffer_enqueue vrq cookie sg read_bufs write_bufs = (
     let total_desc = read_bufs + write_bufs in
     if total_desc < 1 \<or> total_desc > vr_num vrq then Some (- EINVAL, vrq)
     else if unat (vq_desc_avail vrq) < total_desc then Some (- ENOSPC, vrq)
     else do {
       let head_idx = vq_head_free_desc vrq;
       uk_assert (unat head_idx < length (vq_info vrq));
       let vrq = vrq\<lparr>vq_info := (vq_info vrq)[unat head_idx :=
                       \<lparr>di_cookie = Some cookie, di_desc_count = of_nat total_desc\<rparr>]\<rparr>;
       (idx, vrq) \<leftarrow> virtqueue_buffer_enqueue_segments vrq head_idx sg read_bufs write_bufs;
       let vrq = vrq\<lparr>vq_head_free_desc := idx,
                     vq_desc_avail := vq_desc_avail vrq - of_nat total_desc\<rparr>;
       vrq \<leftarrow> virtqueue_ring_update_avail vrq head_idx;
       Some (int (unat (vq_desc_avail vrq)), vrq)
     })"

section \<open>Taking buffers back\<close>

text \<open>
  The walk along a chain in \<open>virtqueue_detach_desc\<close>: the index of its last descriptor and the
  descriptor count that is left. A chain that is a cycle is not left.
\<close>

partial_function (option) detach_walk ::
    "vring_desc list \<Rightarrow> nat \<Rightarrow> u16 \<Rightarrow> (nat \<times> u16) option" where
  "detach_walk desc i cnt = do {
     uk_assert (i < length desc);
     if vd_flags (desc ! i) AND VRING_DESC_F_NEXT \<noteq> 0
     then detach_walk desc (unat (vd_next (desc ! i))) (cnt - 1)
     else Some (i, cnt)
   }"

definition virtqueue_detach_desc :: "'c virtqueue_vring \<Rightarrow> u16 \<Rightarrow> 'c virtqueue_vring option" where
  "virtqueue_detach_desc vrq head_idx = do {
     let h = unat head_idx;
     uk_assert (h < length (vq_info vrq));
     let info = vq_info vrq ! h;
     let desc_avail = vq_desc_avail vrq + di_desc_count info;
     (last_idx, cnt) \<leftarrow> detach_walk (vr_desc vrq) h (di_desc_count info - 1);
     uk_assert (cnt = 0);
     Some (vrq\<lparr>vq_desc_avail := desc_avail,
               vq_info := (vq_info vrq)[h := info\<lparr>di_desc_count := cnt\<rparr>],
               vr_desc := (vr_desc vrq)[last_idx :=
                 (vr_desc vrq ! last_idx)\<lparr>vd_next := vq_head_free_desc vrq\<rparr>],
               vq_head_free_desc := head_idx\<rparr>)
   }"

text \<open>The result has the cookie and the length that the device reports.\<close>

definition virtqueue_buffer_dequeue ::
    "'c virtqueue_vring \<Rightarrow> (int \<times> 'c option \<times> u32 \<times> 'c virtqueue_vring) option" where
  "virtqueue_buffer_dequeue vrq = (
     if \<not> virtqueue_hasdata vrq then Some (- ENOMSG, None, 0, vrq)
     else do {
       let used_idx = unat (vq_last_used_desc_idx vrq) AND (vr_num vrq - 1);
       let vrq = vrq\<lparr>vq_last_used_desc_idx := vq_last_used_desc_idx vrq + 1\<rparr>;
       uk_assert (used_idx < length (vu_ring vrq));
       let elem = vu_ring vrq ! used_idx;
       let head_idx = (ucast (ue_id elem) :: u16);
       uk_assert (unat head_idx < length (vq_info vrq));
       let cookie = di_cookie (vq_info vrq ! unat head_idx);
       vrq \<leftarrow> virtqueue_detach_desc vrq head_idx;
       let vrq = vrq\<lparr>vq_info := (vq_info vrq)[unat head_idx :=
                       (vq_info vrq ! unat head_idx)\<lparr>di_cookie := None\<rparr>]\<rparr>;
       Some (int (vr_num vrq) - int (unat (vq_desc_avail vrq)), cookie, ue_len elem, vrq)
     })"

definition virtqueue_is_full :: "'c virtqueue_vring \<Rightarrow> bool" where
  "virtqueue_is_full vq \<longleftrightarrow> vq_desc_avail vq = 0"

section \<open>Creation\<close>

definition vring_size :: "nat \<Rightarrow> nat \<Rightarrow> nat" where
  "vring_size num align = align_up (num * 16 + 4 + num * 2 + 2) align + 4 + num * 8 + 2"

definition virtqueue_vring_init :: "'c virtqueue_vring \<Rightarrow> nat \<Rightarrow> 'c virtqueue_vring" where
  "virtqueue_vring_init vrq nr_desc =
     vrq\<lparr>vr_num := nr_desc, vq_desc_avail := of_nat nr_desc, vq_head_free_desc := 0,
         vq_last_used_desc_idx := 0,
         vr_desc := map (\<lambda>i. (vr_desc vrq ! i)\<lparr>vd_next :=
           (if i < nr_desc - 1 then of_nat (i + 1) else of_nat VIRTQUEUE_MAX_SIZE)\<rparr>) [0..<nr_desc]\<rparr>"

text \<open>
  The ring memory is cleared; the metadata array \<open>vq_info\<close> is not, and holds \<open>junk\<close>. The result
  is an error number or the queue.
\<close>

definition virtqueue_create ::
    "(nat \<Rightarrow> 'c virtqueue_desc_info) \<Rightarrow> ukalloc \<Rightarrow> nat \<Rightarrow> nat \<Rightarrow> u64 \<Rightarrow>
     (int + 'c virtqueue_vring) \<times> ukalloc" where
  "virtqueue_create junk a nr_descs align features = (
     let (vrq, a) = uk_malloc a (112 + nr_descs * 16) in
     case vrq of
       None \<Rightarrow> (Inl (- ENOMEM), a)
     | Some _ \<Rightarrow>
         let (vring_mem, a) = uk_memalign a PAGE_SIZE (vring_size nr_descs align) in
         case vring_mem of
           None \<Rightarrow> (Inl (- ENOMEM), a)
         | Some _ \<Rightarrow>
             (Inr ((virtqueue_vring_init
                \<lparr>vr_num = 0, vr_desc = replicate nr_descs \<lparr>vd_addr = 0, vd_len = 0, vd_flags = 0, vd_next = 0\<rparr>,
                 va_flags = 0, va_idx = 0, va_ring = replicate nr_descs 0, va_used_event = 0,
                 vu_flags = 0, vu_idx = 0,
                 vu_ring = replicate nr_descs \<lparr>ue_id = 0, ue_len = 0\<rparr>, vu_avail_event = 0,
                 vq_desc_avail = 0, vq_head_free_desc = 0, vq_last_used_desc_idx = 0,
                 vq_uses_event_idx = bit features VIRTIO_F_EVENT_IDX,
                 vq_last_notified_idx = 0, vq_info = map junk [0..<nr_descs]\<rparr> nr_descs)), a))"

section \<open>Invariant\<close>

text \<open>
  A linked list of free descriptors from a head index, a chain of descriptors linked by their
  \<open>NEXT\<close> flags, and the used entries that the driver has not read yet.
\<close>

fun free_linked :: "vring_desc list \<Rightarrow> u16 \<Rightarrow> nat list \<Rightarrow> bool" where
  "free_linked d h [] = True"
| "free_linked d h (i # is) = (unat h = i \<and> i < length d \<and> free_linked d (vd_next (d ! i)) is)"

fun chain_linked :: "vring_desc list \<Rightarrow> nat list \<Rightarrow> bool" where
  "chain_linked d [] = False"
| "chain_linked d [i] = (i < length d \<and> vd_flags (d ! i) AND VRING_DESC_F_NEXT = 0)"
| "chain_linked d (i # j # is) = (i < length d \<and> vd_flags (d ! i) AND VRING_DESC_F_NEXT \<noteq> 0
     \<and> unat (vd_next (d ! i)) = j \<and> chain_linked d (j # is))"

definition pending :: "'c virtqueue_vring \<Rightarrow> nat list" where
  "pending vq = map (\<lambda>j. unat (ucast (ue_id (vu_ring vq !
       ((unat (vq_last_used_desc_idx vq) + j) mod vr_num vq))) :: u16))
     [0..<unat (vu_idx vq - vq_last_used_desc_idx vq)]"

definition vq_shape :: "'c virtqueue_vring \<Rightarrow> bool" where
  "vq_shape vq \<longleftrightarrow> (\<exists>k\<le>15. vr_num vq = 2 ^ k) \<and> length (vr_desc vq) = vr_num vq
     \<and> length (va_ring vq) = vr_num vq \<and> length (vu_ring vq) = vr_num vq
     \<and> length (vq_info vq) = vr_num vq"

definition vq_inv :: "nat list \<Rightarrow> ('c \<times> nat list) list \<Rightarrow> 'c virtqueue_vring \<Rightarrow> bool" where
  "vq_inv free inflight vq \<longleftrightarrow> vq_shape vq
     \<and> distinct (free @ concat (map snd inflight))
     \<and> length free + length (concat (map snd inflight)) = vr_num vq
     \<and> unat (vq_desc_avail vq) = length free
     \<and> free_linked (vr_desc vq) (vq_head_free_desc vq) free
     \<and> (\<forall>(c, is)\<in>set inflight. chain_linked (vr_desc vq) is
          \<and> vq_info vq ! hd is = \<lparr>di_cookie = Some c, di_desc_count = of_nat (length is)\<rparr>)
     \<and> distinct (pending vq) \<and> set (pending vq) \<subseteq> (hd \<circ> snd) ` set inflight"

section \<open>Linked descriptors\<close>

lemma and_pow2_minus_1: "\<exists>k\<le>15. n = 2 ^ k \<Longrightarrow> x AND (n - 1) = x mod (n::nat)"
proof -
  assume "\<exists>k\<le>15. n = 2 ^ k"
  then obtain k where n: "n = 2 ^ k" by blast
  have "x AND (n - 1) = x AND mask k" by (simp add: n mask_eq_exp_minus_1)
  also have "\<dots> = take_bit k x" by (simp only: take_bit_eq_mask)
  finally show ?thesis by (simp add: n take_bit_eq_mod)
qed

lemma free_linked_cong:
  "length d' = length d \<Longrightarrow> (\<And>i. i \<in> set is \<Longrightarrow> vd_next (d' ! i) = vd_next (d ! i)) \<Longrightarrow>
     free_linked d' h is = free_linked d h is"
  by (induction "is" arbitrary: h) auto

lemma chain_linked_cong:
  "length d' = length d \<Longrightarrow> (\<And>i. i \<in> set is \<Longrightarrow> d' ! i = d ! i) \<Longrightarrow>
     chain_linked d' is = chain_linked d is"
  by (induction d "is" rule: chain_linked.induct) auto

lemma free_linked_bound: "free_linked d h is \<Longrightarrow> i \<in> set is \<Longrightarrow> i < length d"
  by (induction "is" arbitrary: h) auto

lemma chain_linked_bound: "chain_linked d is \<Longrightarrow> i \<in> set is \<Longrightarrow> i < length d"
  by (induction d "is" rule: chain_linked.induct) auto

lemma detach_walk_chain:
  "chain_linked d (i # is) \<Longrightarrow> detach_walk d i cnt = Some (last (i # is), cnt - of_nat (length is))"
proof (induction "is" arbitrary: i cnt)
  case Nil
  then show ?case by (subst detach_walk.simps) simp
next
  case (Cons j "is")
  then have "detach_walk d i cnt = detach_walk d j (cnt - 1)"
    by (subst detach_walk.simps) simp
  also have "\<dots> = Some (last (j # is), cnt - 1 - of_nat (length is))"
    using Cons by (intro Cons.IH) simp
  finally show ?case by (simp add: algebra_simps)
qed

text \<open>Putting a chain back in front of the free list.\<close>

lemma free_linked_prepend:
  assumes "chain_linked d is" and "distinct is" and "set is \<inter> set free = {}" and "free_linked d h free"
    and "unat w = hd is"
  shows "free_linked (d[last is := (d ! last is)\<lparr>vd_next := h\<rparr>]) w (is @ free)"
  using assms
proof (induction d "is" arbitrary: w rule: chain_linked.induct)
  case (2 d i)
  then have "free_linked (d[i := (d ! i)\<lparr>vd_next := h\<rparr>]) h free"
    by (subst free_linked_cong [of _ d]) (auto simp: nth_list_update)
  with 2 show ?case by simp
next
  case (3 d i j "is")
  then have "i \<noteq> last (j # is)" by (metis distinct.simps(2) last_in_set list.distinct(1))
  with 3 show ?case by (auto simp del: last.simps simp: last_ConsR)
qed simp

section \<open>Queueing\<close>

definition seg_desc :: "uk_sglist_seg list \<Rightarrow> nat \<Rightarrow> nat \<Rightarrow> nat \<Rightarrow> vring_desc \<Rightarrow> vring_desc" where
  "seg_desc segs read_bufs tot i d =
     d\<lparr>vd_addr := ss_paddr (segs ! i), vd_len := of_nat (ss_len (segs ! i)),
       vd_flags := (if i \<ge> read_bufs then VRING_DESC_F_WRITE else 0) OR
                   (if i < tot - 1 then VRING_DESC_F_NEXT else 0)\<rparr>"

lemma seg_desc_next [simp]: "vd_next (seg_desc segs r t i d) = vd_next d"
  by (simp add: seg_desc_def)

lemma seg_desc_flag_next:
  "vd_flags (seg_desc segs r t i d) AND VRING_DESC_F_NEXT = 0 \<longleftrightarrow> \<not> i < t - 1"
  by (simp add: seg_desc_def VRING_DESC_F_NEXT_def VRING_DESC_F_WRITE_def)

lemma enqueue_segments_loop_spec:
  assumes "free_linked d idx fs" and "distinct fs" and "todo \<le> length fs" and "todo \<le> tot"
    and "tot \<le> length segs"
  shows "\<exists>d' idx'. enqueue_segments_loop d idx segs r tot todo = Some (d', idx')
           \<and> length d' = length d \<and> free_linked d idx' (drop todo fs)
           \<and> (\<forall>i. i \<notin> set (take todo fs) \<longrightarrow> d' ! i = d ! i)
           \<and> (\<forall>j<todo. d' ! (fs ! j) = seg_desc segs r tot (tot - todo + j) (d ! (fs ! j)))"
  using assms
proof (induction todo arbitrary: d idx fs)
  case 0
  then show ?case by simp
next
  case (Suc todo)
  then obtain f fs' where fs: "fs = f # fs'" by (cases fs) auto
  define d1 where "d1 = d[f := seg_desc segs r tot (tot - Suc todo) (d ! f)]"
  have f: "unat idx = f" "f < length d" using Suc.prems(1) fs by auto
  have unf: "enqueue_segments_loop d idx segs r tot (Suc todo) =
      enqueue_segments_loop d1 (vd_next (d ! f)) segs r tot todo"
  proof -
    have "tot - Suc todo < length segs" using Suc.prems(4,5) by linarith
    then show ?thesis using f by (simp add: d1_def seg_desc_def Let_def)
  qed
  have "free_linked d1 (vd_next (d ! f)) fs'"
    using Suc.prems(1,2) fs f by (subst free_linked_cong [of _ d]) (auto simp: d1_def nth_list_update)
  from Suc.IH [OF this] Suc.prems fs obtain d' idx' where
    ih: "enqueue_segments_loop d1 (vd_next (d ! f)) segs r tot todo = Some (d', idx')"
      "length d' = length d1" "free_linked d1 idx' (drop todo fs')"
      "\<And>i. i \<notin> set (take todo fs') \<Longrightarrow> d' ! i = d1 ! i"
      "\<And>j. j < todo \<Longrightarrow> d' ! (fs' ! j) = seg_desc segs r tot (tot - todo + j) (d1 ! (fs' ! j))"
    by auto
  have f_notin: "f \<notin> set fs'" using Suc.prems(2) fs by simp
  have "free_linked d idx' (drop todo fs')"
    using ih(3) by (subst free_linked_cong [of _ d1]) (auto simp: d1_def nth_list_update f)
  moreover have "d' ! i = d ! i" if "i \<notin> set (take (Suc todo) fs)" for i
    using that ih(4) [of i] fs by (auto simp: d1_def)
  moreover have "d' ! (fs ! j) = seg_desc segs r tot (tot - Suc todo + j) (d ! (fs ! j))"
    if "j < Suc todo" for j
  proof (cases j)
    case 0
    have "f \<notin> set (take todo fs')" using f_notin by (meson in_set_takeD)
    with 0 fs f ih(4) [of f] show ?thesis by (simp add: d1_def)
  next
    case (Suc j')
    then have j': "j' < todo" "j' < length fs'" using that Suc.prems(3) fs by auto
    then have "fs' ! j' \<noteq> f" using f_notin nth_mem by metis
    with Suc fs ih(5) [OF j'(1)] Suc.prems(4) show ?thesis
      by (simp add: d1_def Suc_diff_Suc)
  qed
  ultimately show ?case using unf ih(1,2) fs by (simp add: d1_def)
qed

lemma chain_linked_iff:
  "chain_linked d is \<longleftrightarrow> is \<noteq> [] \<and> (\<forall>j<length is. is ! j < length d
     \<and> (vd_flags (d ! (is ! j)) AND VRING_DESC_F_NEXT = 0 \<longleftrightarrow> \<not> j < length is - 1)
     \<and> (j < length is - 1 \<longrightarrow> unat (vd_next (d ! (is ! j))) = is ! Suc j))"
proof (induction d "is" rule: chain_linked.induct)
  case (3 d i j "is")
  then show ?case by (simp add: All_less_Suc2)
qed auto

lemma free_linked_nth:
  "free_linked d h is \<Longrightarrow> j < length is \<Longrightarrow>
     is ! j < length d \<and> (Suc j < length is \<longrightarrow> unat (vd_next (d ! (is ! j))) = is ! Suc j)"
proof (induction "is" arbitrary: h j)
  case (Cons i "is")
  then show ?case by (cases j; cases "is") auto
qed simp

lemma enqueued_chain_linked:
  assumes "free_linked d h fs" and "n \<le> length fs" and "0 < n" and "length d' = length d"
    and "\<And>j. j < n \<Longrightarrow> d' ! (fs ! j) = seg_desc segs r n j (d ! (fs ! j))"
  shows "chain_linked d' (take n fs)"
  unfolding chain_linked_iff
  using assms free_linked_nth [OF assms(1)] by (auto simp: seg_desc_flag_next)

lemma vq_num_bounds: "vq_shape vq \<Longrightarrow> 0 < vr_num vq \<and> vr_num vq \<le> 32768"
proof -
  assume "vq_shape vq"
  then obtain k where "k \<le> 15" "vr_num vq = 2 ^ k" by (auto simp: vq_shape_def)
  moreover from \<open>k \<le> 15\<close> have "(2::nat) ^ k \<le> 2 ^ 15" by (intro power_increasing) simp_all
  ultimately show ?thesis by simp
qed

lemma vq_invD:
  assumes "vq_inv free inflight vq"
  shows "vq_shape vq" and "distinct (free @ concat (map snd inflight))"
    and "length free + length (concat (map snd inflight)) = vr_num vq"
    and "unat (vq_desc_avail vq) = length free"
    and "free_linked (vr_desc vq) (vq_head_free_desc vq) free"
    and "(c, is) \<in> set inflight \<Longrightarrow> chain_linked (vr_desc vq) is"
    and "(c, is) \<in> set inflight \<Longrightarrow>
           vq_info vq ! hd is = \<lparr>di_cookie = Some c, di_desc_count = of_nat (length is)\<rparr>"
    and "distinct (pending vq)" and "set (pending vq) \<subseteq> (hd \<circ> snd) ` set inflight"
  using assms by (auto simp: vq_inv_def)

text \<open>
  Queueing a buffer takes the first descriptors of the free list, fills them from the segments,
  and publishes the first one in the available ring. The state after it, written out:
\<close>

definition enqueued ::
    "'c virtqueue_vring \<Rightarrow> 'c \<Rightarrow> nat \<Rightarrow> vring_desc list \<Rightarrow> u16 \<Rightarrow> 'c virtqueue_vring" where
  "enqueued vq cookie n d' idx' = (let h = vq_head_free_desc vq in
     vq\<lparr>vq_info := (vq_info vq)[unat h := \<lparr>di_cookie = Some cookie, di_desc_count = of_nat n\<rparr>],
        vr_desc := d', vq_head_free_desc := idx', vq_desc_avail := vq_desc_avail vq - of_nat n,
        va_ring := (va_ring vq)[unat (va_idx vq) mod vr_num vq := h], va_idx := va_idx vq + 1\<rparr>)"

lemma enqueue_run:
  assumes inv: "vq_inv free inflight vq"
    and n: "n = r + w" "1 \<le> n" "n \<le> length free" "n \<le> length (sg_segs sg)"
  obtains d' idx' where
    "virtqueue_buffer_enqueue vq cookie sg r w = Some (int (length free - n), enqueued vq cookie n d' idx')"
    and "length d' = length (vr_desc vq)" and "free_linked (vr_desc vq) idx' (drop n free)"
    and "\<And>i. i \<notin> set (take n free) \<Longrightarrow> d' ! i = vr_desc vq ! i"
    and "\<And>j. j < n \<Longrightarrow> d' ! (free ! j) = seg_desc (sg_segs sg) r n j (vr_desc vq ! (free ! j))"
proof -
  note inv = vq_invD [OF inv]
  let ?h = "vq_head_free_desc vq"
  have nle: "n \<le> vr_num vq" "n < 65536" using n inv(3) vq_num_bounds [OF inv(1)] by linarith+
  have h: "unat ?h < length (vr_desc vq)" using inv(5) n by (cases free) auto
  have avail: "unat (vq_desc_avail vq - of_nat n) = length free - n"
    using inv(4) n(2,3) nle by (simp add: unat_sub_if' unat_of_nat_small)
  have idx: "unat (va_idx vq) AND (vr_num vq - 1) = unat (va_idx vq) mod vr_num vq"
    using inv(1) by (intro and_pow2_minus_1) (simp add: vq_shape_def)
  obtain d' idx' where loop: "enqueue_segments_loop (vr_desc vq) ?h (sg_segs sg) r n n = Some (d', idx')"
      "length d' = length (vr_desc vq)" "free_linked (vr_desc vq) idx' (drop n free)"
      "\<And>i. i \<notin> set (take n free) \<Longrightarrow> d' ! i = vr_desc vq ! i"
      "\<And>j. j < n \<Longrightarrow> d' ! (free ! j) = seg_desc (sg_segs sg) r n j (vr_desc vq ! (free ! j))"
    using enqueue_segments_loop_spec [OF inv(5) _ n(3) order_refl n(4), of r] inv(2) by auto
  have "virtqueue_buffer_enqueue vq cookie sg r w = Some (int (length free - n), enqueued vq cookie n d' idx')"
    using loop(1) n(2,3) nle h inv(1,4) avail idx vq_num_bounds [OF inv(1)]
    unfolding virtqueue_buffer_enqueue_def virtqueue_buffer_enqueue_segments_def
      virtqueue_ring_update_avail_def n(1) [symmetric] Let_def
    by (simp add: vq_shape_def enqueued_def Let_def del: of_nat_unat)
  with loop that show thesis by blast
qed

lemma enqueued_simps [simp]:
  "vr_num (enqueued vq cookie n d' idx') = vr_num vq"
  "vr_desc (enqueued vq cookie n d' idx') = d'"
  "vq_head_free_desc (enqueued vq cookie n d' idx') = idx'"
  "vq_desc_avail (enqueued vq cookie n d' idx') = vq_desc_avail vq - of_nat n"
  "va_idx (enqueued vq cookie n d' idx') = va_idx vq + 1"
  "pending (enqueued vq cookie n d' idx') = pending vq"
  by (simp_all add: pending_def enqueued_def Let_def)

lemma enqueue_inv:
  assumes inv: "vq_inv free inflight vq" and n: "1 \<le> n" "n \<le> length free"
    and d': "length d' = length (vr_desc vq)" "free_linked (vr_desc vq) idx' (drop n free)"
      "\<And>i. i \<notin> set (take n free) \<Longrightarrow> d' ! i = vr_desc vq ! i"
      "\<And>j. j < n \<Longrightarrow> d' ! (free ! j) = seg_desc segs r n j (vr_desc vq ! (free ! j))"
  shows "vq_inv (drop n free) (inflight @ [(cookie, take n free)]) (enqueued vq cookie n d' idx')"
proof -
  let ?vq = "enqueued vq cookie n d' idx'" and ?chains = "concat (map snd inflight)"
  note i = vq_invD [OF inv]
  obtain f fs where free: "free = f # fs" using n by (cases free) auto
  have f: "unat (vq_head_free_desc vq) = f" "f < vr_num vq"
    using i(1,5) free by (auto simp: vq_shape_def)
  have split: "set free = set (take n free) \<union> set (drop n free)"
    by (metis append_take_drop_id set_append)
  have "set (take n free) \<inter> set (drop n free) = {}"
    using i(2) by (metis append_take_drop_id distinct_append)
  then have disj: "distinct (drop n free @ ?chains @ take n free)"
    using i(2) split by (auto simp: distinct_take distinct_drop)
  have "free_linked d' idx' (drop n free)"
    using d'(2) by (subst free_linked_cong [OF d'(1)]) (use disj d'(3) in auto)
  moreover have "chain_linked d' (take n free)"
    using enqueued_chain_linked [OF i(5) n(2) _ d'(1,4)] n(1) by simp
  moreover have "chain_linked d' is \<and> vq_info ?vq ! hd is =
      \<lparr>di_cookie = Some c, di_desc_count = of_nat (length is)\<rparr>" if "(c, is) \<in> set inflight" for c "is"
  proof -
    have ne: "is \<noteq> []" using i(6) [OF that] by auto
    have sub: "set is \<subseteq> set ?chains" using that by force
    then have "chain_linked d' is"
      using i(6) [OF that] by (subst chain_linked_cong [OF d'(1)]) (use disj d'(3) in auto)
    moreover have "hd is \<noteq> f" using ne sub i(2) free by (metis disjoint_iff distinct_append hd_in_set list.set_intros(1) subset_eq)
    ultimately show ?thesis using i(7) [OF that] f by (simp add: enqueued_def Let_def)
  qed
  moreover have "vq_info ?vq ! hd (take n free) = \<lparr>di_cookie = Some cookie, di_desc_count = of_nat n\<rparr>"
    using f free n i(1) by (simp add: enqueued_def Let_def hd_take vq_shape_def)
  moreover have "unat (vq_desc_avail vq - of_nat n) = length (drop n free)"
    using i(3,4) n vq_num_bounds [OF i(1)] by (simp add: unat_sub_if' unat_of_nat_small)
  moreover have "vq_shape ?vq" using i(1) d'(1) by (simp add: enqueued_def Let_def vq_shape_def)
  moreover have "distinct (drop n free @ concat (map snd (inflight @ [(cookie, take n free)])))"
    using disj by simp
  moreover have "length (drop n free) + length (concat (map snd (inflight @ [(cookie, take n free)])))
      = vr_num ?vq"
    using i(3) n by (simp add: enqueued_def Let_def)
  moreover have "set (pending ?vq) \<subseteq> (hd \<circ> snd) ` set (inflight @ [(cookie, take n free)])"
    using i(9) by auto
  ultimately show ?thesis
    unfolding vq_inv_def using i(8) n by auto
qed

section \<open>Taking back\<close>

lemma num_dvd: "vq_shape vq \<Longrightarrow> vr_num vq dvd 2 ^ 16"
proof -
  assume "vq_shape vq"
  then obtain k where "k \<le> 15" "vr_num vq = 2 ^ k" by (auto simp: vq_shape_def)
  then show ?thesis using le_imp_power_dvd [of k 16 "2 :: nat"] by simp
qed

lemma unat_add_mod_num:
  assumes "vq_shape vq"
  shows "(unat ((x :: u16) + of_nat k) + j) mod vr_num vq = (unat x + k + j) mod vr_num vq"
proof -
  have "unat (x + of_nat k) = (unat x + k) mod 2 ^ 16"
    by (simp add: unat_word_ariths unat_of_nat mod_add_right_eq)
  then have "(unat (x + of_nat k) + j) mod vr_num vq = ((unat x + k) mod 2 ^ 16 mod vr_num vq + j) mod vr_num vq"
    by (simp add: mod_add_left_eq)
  then show ?thesis
    unfolding mod_mod_cancel [OF num_dvd [OF assms]] by (simp add: mod_add_left_eq)
qed

definition used_head :: "'c virtqueue_vring \<Rightarrow> nat \<Rightarrow> nat" where
  "used_head vq i = unat (ucast (ue_id (vu_ring vq ! i)) :: u16)"

lemma pending_Cons:
  assumes "vq_shape vq" and "virtqueue_hasdata vq"
  shows "pending vq = used_head vq (unat (vq_last_used_desc_idx vq) mod vr_num vq)
           # pending (vq\<lparr>vq_last_used_desc_idx := vq_last_used_desc_idx vq + 1\<rparr>)"
proof -
  let ?l = "vq_last_used_desc_idx vq"
  have "vu_idx vq - ?l \<noteq> 0" using assms(2) by (auto simp: virtqueue_hasdata_def)
  from unat_minus_one [OF this] this have
    len: "unat (vu_idx vq - ?l) = Suc (unat (vu_idx vq - (?l + 1)))"
    by (simp add: algebra_simps unat_gt_0 Suc_pred)
  have idx: "(unat (?l + 1) + j) mod vr_num vq = (unat ?l + Suc j) mod vr_num vq" for j
    using unat_add_mod_num [OF assms(1), of ?l 1 j] by simp
  show ?thesis
    unfolding pending_def len upt_conv_Cons [OF zero_less_Suc] map_Suc_upt [symmetric]
    by (simp add: idx used_head_def del: upt_Suc)
qed

definition dequeued :: "'c virtqueue_vring \<Rightarrow> u16 \<Rightarrow> nat list \<Rightarrow> 'c virtqueue_vring" where
  "dequeued vq h is =
     vq\<lparr>vq_last_used_desc_idx := vq_last_used_desc_idx vq + 1,
        vq_desc_avail := vq_desc_avail vq + of_nat (length is),
        vq_info := (vq_info vq)[unat h := \<lparr>di_cookie = None, di_desc_count = 0\<rparr>],
        vr_desc := (vr_desc vq)[last is := (vr_desc vq ! last is)\<lparr>vd_next := vq_head_free_desc vq\<rparr>],
        vq_head_free_desc := h\<rparr>"

lemma dequeue_run:
  assumes inv: "vq_inv free inflight vq" and data: "virtqueue_hasdata vq"
  obtains c "is" pre post h len where "inflight = pre @ (c, is) # post"
    and "unat h = hd is" and "hd (pending vq) = hd is"
    and "virtqueue_buffer_dequeue vq =
           Some (int (vr_num vq) - int (length free + length is), Some c, len, dequeued vq h is)"
proof -
  note i = vq_invD [OF inv]
  define u where "u = unat (vq_last_used_desc_idx vq) mod vr_num vq"
  define h where "h = (ucast (ue_id (vu_ring vq ! u)) :: u16)"
  have pend: "pending vq = unat h # pending (vq\<lparr>vq_last_used_desc_idx := vq_last_used_desc_idx vq + 1\<rparr>)"
    using pending_Cons [OF i(1) data] by (simp add: h_def u_def used_head_def)
  then obtain c "is" where ci: "(c, is) \<in> set inflight" "unat h = hd is" using i(9) by auto
  then obtain pre post where split: "inflight = pre @ (c, is) # post" by (meson split_list)
  obtain x xs where "is": "is = x # xs" using i(6) [OF ci(1)] by (cases "is") auto
  have idx: "unat (vq_last_used_desc_idx vq) AND (vr_num vq - 1) = u"
    unfolding u_def using i(1) by (intro and_pow2_minus_1) (simp add: vq_shape_def)
  have u: "u < length (vu_ring vq)" using vq_num_bounds [OF i(1)] i(1) by (simp add: u_def vq_shape_def)
  have hl: "unat h < length (vq_info vq)"
    using chain_linked_bound [OF i(6) [OF ci(1)], of x] ci(2) "is" i(1) by (simp add: vq_shape_def)
  have info: "vq_info vq ! unat h = \<lparr>di_cookie = Some c, di_desc_count = of_nat (length is)\<rparr>"
    using i(7) [OF ci(1)] ci(2) by simp
  have walk: "detach_walk (vr_desc vq) (unat h) (of_nat (length is) - 1) = Some (last is, 0)"
    using detach_walk_chain [of "vr_desc vq" x xs] i(6) [OF ci(1)] ci(2) "is" by simp
  have "length free + length is \<le> vr_num vq" using i(3) split by simp
  then have avail: "unat (vq_desc_avail vq + of_nat (length is)) = length free + length is"
    using i(4) vq_num_bounds [OF i(1)] by (simp add: unat_word_ariths unat_of_nat)
  have "virtqueue_buffer_dequeue vq =
      Some (int (vr_num vq) - int (length free + length is), Some c, ue_len (vu_ring vq ! u), dequeued vq h is)"
    unfolding virtqueue_buffer_dequeue_def virtqueue_detach_desc_def
    using data idx u hl info walk avail h_def
    by (simp add: Let_def dequeued_def del: of_nat_unat of_nat_add)
  with split ci(2) pend show thesis by (intro that) auto
qed

lemma dequeue_inv:
  assumes inv: "vq_inv free (pre @ (c, is) # post) vq" and data: "virtqueue_hasdata vq"
    and h: "unat h = hd is" "hd (pending vq) = hd is"
  shows "vq_inv (is @ free) (pre @ post) (dequeued vq h is)"
proof -
  let ?vq = "dequeued vq h is" and ?rest = "concat (map snd (pre @ post))"
  note i = vq_invD [OF inv]
  have link: "chain_linked (vr_desc vq) is" using i(6) [of c "is"] by simp
  then have ne: "is \<noteq> []" by auto
  have dist: "distinct (is @ free)" "set (is @ free) \<inter> set ?rest = {}" "distinct ?rest"
    using i(2) by auto
  have last: "last is \<in> set is" "hd is \<in> set is" using ne by simp_all
  have "free_linked (vr_desc ?vq) h (is @ free)"
    unfolding dequeued_def using free_linked_prepend [OF link _ _ i(5) h(1)] dist by auto
  moreover have "chain_linked (vr_desc ?vq) js \<and> vq_info ?vq ! hd js =
      \<lparr>di_cookie = Some c', di_desc_count = of_nat (length js)\<rparr>" if js: "(c', js) \<in> set (pre @ post)" for c' js
  proof -
    have sub: "set js \<subseteq> set ?rest" using js by force
    have lj: "chain_linked (vr_desc vq) js" using i(6) [of c' js] js by auto
    then have "hd js \<in> set js" by (cases js) auto
    moreover have "set js \<inter> set is = {}" using sub dist(2) unfolding set_append by blast
    ultimately have "hd js \<noteq> hd is" "last is \<notin> set js" using last by (metis disjoint_iff)+
    moreover from this have "chain_linked (vr_desc ?vq) js"
      using lj by (subst chain_linked_cong [of _ "vr_desc vq"]) (auto simp: dequeued_def intro!: nth_list_update_neq)
    ultimately show ?thesis using i(7) [of c' js] js h(1) by (auto simp: dequeued_def)
  qed
  moreover have pend: "pending vq = hd is # pending ?vq"
    using pending_Cons [OF i(1) data] h(2) by (simp add: pending_def dequeued_def)
  then have "set (pending ?vq) \<subseteq> (hd \<circ> snd) ` set (pre @ post)" using i(8,9) by auto
  moreover have "distinct (pending ?vq)" using pend i(8) by simp
  moreover have "unat (vq_desc_avail ?vq) = length (is @ free)"
  proof -
    have "length free + length is \<le> vr_num vq" using i(3) by simp
    then show ?thesis using i(4) vq_num_bounds [OF i(1)]
      by (simp add: dequeued_def unat_word_ariths unat_of_nat)
  qed
  moreover have "vq_shape ?vq" using i(1) by (simp add: vq_shape_def dequeued_def)
  moreover have "vr_num ?vq = vr_num vq" "vq_head_free_desc ?vq = h" by (simp_all add: dequeued_def)
  moreover have "distinct ((is @ free) @ ?rest)" using dist by auto
  moreover have "length (is @ free) + length ?rest = vr_num vq" using i(3) by simp
  ultimately show ?thesis unfolding vq_inv_def by auto
qed

section \<open>The device\<close>

text \<open>
  What the device may do, by the virtio specification: return a buffer that it was given and has
  not returned yet, by writing its head index to the used ring and advancing the used index.
\<close>

definition device_complete :: "nat \<Rightarrow> u32 \<Rightarrow> 'c virtqueue_vring \<Rightarrow> 'c virtqueue_vring" where
  "device_complete h len vq =
     vq\<lparr>vu_ring := (vu_ring vq)[unat (vu_idx vq) mod vr_num vq := \<lparr>ue_id = of_nat h, ue_len = len\<rparr>],
        vu_idx := vu_idx vq + 1\<rparr>"

lemma unat_Suc_small: "unat (x :: u16) < 65535 \<Longrightarrow> unat (x + 1) = Suc (unat x)"
  by (simp add: unat_word_ariths)

lemma pending_complete:
  assumes shape: "vq_shape vq" and h: "h < vr_num vq" and room: "length (pending vq) < vr_num vq"
  shows "pending (device_complete h len vq) = pending vq @ [h]"
proof -
  let ?l = "vq_last_used_desc_idx vq" and ?n = "unat (vu_idx vq - vq_last_used_desc_idx vq)"
  let ?N = "vr_num vq"
  have n: "?n < ?N" using room by (simp add: pending_def)
  have N: "0 < ?N" "?N \<le> 32768" using vq_num_bounds [OF shape] by auto
  have len: "unat (vu_idx vq + 1 - ?l) = Suc ?n"
    using unat_Suc_small [of "vu_idx vq - ?l"] n N by (simp add: algebra_simps)
  have pos: "unat (vu_idx vq) mod ?N = (unat ?l + ?n) mod ?N"
    using unat_add_mod_num [OF shape, of ?l ?n 0] by simp
  have other: "(unat ?l + j) mod ?N \<noteq> (unat ?l + ?n) mod ?N" if "j < ?n" for j
  proof
    assume "(unat ?l + j) mod ?N = (unat ?l + ?n) mod ?N"
    then have "?N dvd (unat ?l + ?n) - (unat ?l + j)"
      using that by (subst mod_eq_dvd_iff_nat [symmetric]) auto
    then have "?N dvd ?n - j" by simp
    with that n show False by (auto dest: dvd_imp_le)
  qed
  have "unat (ucast (of_nat h :: u32) :: u16) = h"
    using h N by (simp add: unsigned_ucast_eq unsigned_of_nat take_bit_nat_eq_self)
  then have "used_head (device_complete h len vq) ((unat ?l + ?n) mod ?N) = h"
    using pos shape N by (simp add: used_head_def device_complete_def vq_shape_def)
  moreover have "used_head (device_complete h len vq) ((unat ?l + j) mod ?N) =
      used_head vq ((unat ?l + j) mod ?N)" if "j < ?n" for j
    using other [OF that] pos by (simp add: used_head_def device_complete_def)
  ultimately show ?thesis
    using len unfolding pending_def used_head_def [symmetric] by (simp add: device_complete_def)
qed

lemma complete_inv:
  assumes inv: "vq_inv free inflight vq" and h: "h \<in> (hd \<circ> snd) ` set inflight" "h \<notin> set (pending vq)"
  shows "vq_inv free inflight (device_complete h len vq)"
proof -
  note i = vq_invD [OF inv]
  have heads: "(hd \<circ> snd) ` set inflight \<subseteq> set (concat (map snd inflight))"
  proof
    fix x assume "x \<in> (hd \<circ> snd) ` set inflight"
    then obtain c "is" where "(c, is) \<in> set inflight" "x = hd is" by auto
    moreover from this have "is \<noteq> []" using i(6) by (metis chain_linked.simps(1))
    ultimately show "x \<in> set (concat (map snd inflight))" by force
  qed
  have "set (pending vq) \<subset> set (concat (map snd inflight))" using i(9) h heads by blast
  then have "card (set (pending vq)) < card (set (concat (map snd inflight)))"
    by (intro psubset_card_mono) simp_all
  then have room: "length (pending vq) < vr_num vq"
    using i(2,3,8) by (simp add: distinct_card [symmetric])
  obtain c "is" where ci: "(c, is) \<in> set inflight" "h = hd is" using h(1) by auto
  then have "h \<in> set is" using i(6) [OF ci(1)] by (cases "is") auto
  then have lt: "h < vr_num vq" using chain_linked_bound [OF i(6) [OF ci(1)]] i(1)
    by (simp add: vq_shape_def)
  show ?thesis
    using inv h pending_complete [OF i(1) lt room, of len]
    unfolding vq_inv_def by (auto simp: device_complete_def vq_shape_def)
qed

section \<open>A fresh queue\<close>

lemma free_linked_init:
  assumes "length d = n" and "n \<le> 32768" and "\<And>i. i < n - 1 \<Longrightarrow> vd_next (d ! i) = of_nat (i + 1)"
  shows "i < n \<Longrightarrow> free_linked d (of_nat i) [i..<n]"
proof (induction "n - i" arbitrary: i)
  case (Suc m)
  have i: "unat (of_nat i :: u16) = i" using Suc.prems assms(2) by (intro unat_of_nat_small) simp
  show ?case
  proof (cases "Suc i < n")
    case True
    then have "free_linked d (of_nat (Suc i)) [Suc i..<n]" using Suc by (intro Suc.hyps(1)) auto
    with True i assms show ?thesis by (simp add: upt_conv_Cons)
  next
    case False
    then have "[i..<n] = [i]" using Suc.prems by (simp add: upt_conv_Cons)
    with i Suc.prems assms(1) show ?thesis by simp
  qed
qed simp

lemma vring_create_inv:
  assumes "virtqueue_create junk a (2 ^ k) align f = (Inr vq, a')" and "k \<le> 15"
  shows "vq_inv [0..<2 ^ k] [] vq"
proof -
  have vq: "vr_num vq = 2 ^ k" "length (vr_desc vq) = 2 ^ k" "length (va_ring vq) = 2 ^ k"
    "length (vu_ring vq) = 2 ^ k" "length (vq_info vq) = 2 ^ k" "vq_desc_avail vq = of_nat (2 ^ k)"
    "vq_head_free_desc vq = of_nat 0" "vu_idx vq = 0" "vq_last_used_desc_idx vq = 0"
    "\<And>i. i < 2 ^ k - 1 \<Longrightarrow> vd_next (vr_desc vq ! i) = of_nat (i + 1)"
    using assms(1)
    by (auto simp: virtqueue_create_def virtqueue_vring_init_def Let_def split: prod.splits option.splits)
  have shape: "vq_shape vq" using vq assms(2) by (auto simp: vq_shape_def)
  have n: "(2::nat) ^ k \<le> 32768" using vq_num_bounds [OF shape] vq(1) by simp
  have "free_linked (vr_desc vq) (vq_head_free_desc vq) [0..<2 ^ k]"
    unfolding vq(7) using vq n by (intro free_linked_init) auto
  moreover have "unat (vq_desc_avail vq) = 2 ^ k"
    unfolding vq(6) using n by (intro unat_of_nat_small) simp
  ultimately show ?thesis
    using shape vq(1,8,9) by (simp add: vq_inv_def pending_def)
qed

section \<open>Reachable queues\<close>

text \<open>
  The queue as driver and device use it together, with the buffers outstanding at the device, each
  with the index of its first descriptor and the cookie it was queued with.
\<close>

inductive vq_reach :: "'c virtqueue_vring \<Rightarrow> (nat \<times> 'c) list \<Rightarrow> bool" where
  create: "\<lbrakk>virtqueue_create junk a (2 ^ k) align f = (Inr vq, a'); k \<le> 15\<rbrakk> \<Longrightarrow> vq_reach vq []"
| enqueue: "\<lbrakk>vq_reach vq out; virtqueue_buffer_enqueue vq c sg r w = Some (rc, vq'); 0 \<le> rc;
     r + w \<le> length (sg_segs sg)\<rbrakk> \<Longrightarrow> vq_reach vq' (out @ [(unat (vq_head_free_desc vq), c)])"
| complete: "\<lbrakk>vq_reach vq out; (h, c) \<in> set out; h \<notin> set (pending vq)\<rbrakk> \<Longrightarrow>
     vq_reach (device_complete h len vq) out"
| dequeue: "\<lbrakk>vq_reach vq out; virtqueue_buffer_dequeue vq = Some (rc, Some c, len, vq')\<rbrakk> \<Longrightarrow>
     vq_reach vq' (filter (\<lambda>(h, c). h \<noteq> hd (pending vq)) out)"

lemma enqueue_total:
  assumes inv: "vq_inv free inflight vq" and segs: "r + w \<le> length (sg_segs sg)"
  obtains (inval) "r + w < 1 \<or> r + w > vr_num vq"
      and "virtqueue_buffer_enqueue vq c sg r w = Some (- EINVAL, vq)"
    | (nospc) "1 \<le> r + w" and "r + w > length free"
      and "virtqueue_buffer_enqueue vq c sg r w = Some (- ENOSPC, vq)"
    | (ok) vq' where "1 \<le> r + w" and "r + w \<le> length free"
      and "virtqueue_buffer_enqueue vq c sg r w = Some (int (length free - (r + w)), vq')"
      and "vq_inv (drop (r + w) free) (inflight @ [(c, take (r + w) free)]) vq'"
      and "pending vq' = pending vq"
proof -
  note i = vq_invD [OF inv]
  consider "r + w < 1 \<or> r + w > vr_num vq" | "1 \<le> r + w" "r + w \<le> vr_num vq" "r + w > length free"
    | "1 \<le> r + w" "r + w \<le> length free" by linarith
  then show thesis
  proof cases
    case 1
    then show thesis by (intro inval) (simp_all add: virtqueue_buffer_enqueue_def)
  next
    case 2
    then show thesis using i(4) by (intro nospc) (auto simp: virtqueue_buffer_enqueue_def Let_def)
  next
    case 3
    obtain d' idx' where run: "virtqueue_buffer_enqueue vq c sg r w =
          Some (int (length free - (r + w)), enqueued vq c (r + w) d' idx')"
        "length d' = length (vr_desc vq)" "free_linked (vr_desc vq) idx' (drop (r + w) free)"
        "\<And>i. i \<notin> set (take (r + w) free) \<Longrightarrow> d' ! i = vr_desc vq ! i"
        "\<And>j. j < r + w \<Longrightarrow>
           d' ! (free ! j) = seg_desc (sg_segs sg) r (r + w) j (vr_desc vq ! (free ! j))"
      using enqueue_run [OF inv refl 3 segs] by blast
    show thesis by (rule ok [OF 3 run(1) enqueue_inv [OF inv 3 run(2-5)]]) simp_all
  qed
qed

lemma reach_inv:
  "vq_reach vq out \<Longrightarrow>
     \<exists>free inflight. vq_inv free inflight vq \<and> out = map (\<lambda>(c, is). (hd is, c)) inflight"
proof (induction rule: vq_reach.induct)
  case (create junk a k align f vq a')
  from vring_create_inv [OF create] show ?case by force
next
  case (enqueue vq out c sg r w rc vq')
  then obtain free inflight where inv: "vq_inv free inflight vq"
    and out: "out = map (\<lambda>(c, is). (hd is, c)) inflight" by blast
  from inv enqueue.hyps(4) show ?case
  proof (cases rule: enqueue_total [where c = c])
    case (ok vq'')
    then have "hd (take (r + w) free) = unat (vq_head_free_desc vq)"
      using vq_invD(5) [OF inv] by (cases free; cases "r + w") auto
    moreover have "vq'' = vq'" using ok enqueue.hyps(2) by simp
    ultimately show ?thesis
      using ok out by (intro exI conjI) auto
  qed (use enqueue.hyps in auto)
next
  case (complete vq out h c len)
  then obtain free inflight where "vq_inv free inflight vq"
    and "out = map (\<lambda>(c, is). (hd is, c)) inflight" by blast
  moreover from this complete.hyps have "h \<in> (hd \<circ> snd) ` set inflight" by force
  ultimately show ?case using complete_inv complete.hyps by blast
next
  case (dequeue vq out rc c len vq')
  then obtain free inflight where inv: "vq_inv free inflight vq"
    and out: "out = map (\<lambda>(c, is). (hd is, c)) inflight" by blast
  have data: "virtqueue_hasdata vq"
    using dequeue.hyps by (auto simp: virtqueue_buffer_dequeue_def split: if_splits)
  obtain c' "is" pre post h len' where split: "inflight = pre @ (c', is) # post" and h: "unat h = hd is"
    "hd (pending vq) = hd is" and run: "virtqueue_buffer_dequeue vq =
       Some (int (vr_num vq) - int (length free + length is), Some c', len', dequeued vq h is)"
    by (rule dequeue_run [OF inv data])
  have "hd js \<noteq> hd is" if "(x, js) \<in> set (pre @ post)" for x js
  proof -
    have "js \<noteq> []" "is \<noteq> []" using vq_invD(6) [OF inv, of x js] vq_invD(6) [OF inv, of c' "is"] that split
      by auto
    then have "hd js \<in> set js" "hd is \<in> set is" by simp_all
    moreover have "set js \<subseteq> set (concat (map snd (pre @ post)))" using that by force
    moreover have "set is \<inter> set (concat (map snd (pre @ post))) = {}"
      using vq_invD(2) [OF inv] split by auto
    ultimately show ?thesis by (metis disjoint_iff subsetD)
  qed
  then have "filter (\<lambda>(h, c). h \<noteq> hd is) (map (\<lambda>(c, is). (hd is, c)) (pre @ post)) =
      map (\<lambda>(c, is). (hd is, c)) (pre @ post)"
    by (subst filter_id_conv) (auto, blast+)
  then have "filter (\<lambda>(h, c). h \<noteq> hd (pending vq)) out = map (\<lambda>(c, is). (hd is, c)) (pre @ post)"
    using out split h(2) by simp
  moreover have "vq' = dequeued vq h is" using run dequeue.hyps by simp
  ultimately show ?case using dequeue_inv [OF inv [unfolded split] data h] by blast
qed

section \<open>What the device sees\<close>

text \<open>The addresses that a chain of descriptors covers.\<close>

definition desc_bytes :: "vring_desc list \<Rightarrow> nat list \<Rightarrow> nat list" where
  "desc_bytes d is = concat (map (\<lambda>i. [vd_addr (d ! i)..<vd_addr (d ! i) + unat (vd_len (d ! i))]) is)"

lemma sg_bytes_seg:
  assumes "s \<in> set (take (sg_nseg sg) (sg_segs sg))"
  shows "ss_len s \<le> length (sg_bytes sg)"
  using assms unfolding sg_bytes_def
  by (auto simp: length_concat seg_bytes_def comp_def dest!: split_list)

lemma enqueue_view:
  assumes inv: "vq_inv free inflight vq" and run: "virtqueue_buffer_enqueue vq c sg r w = Some (rc, vq')"
    and ok: "0 \<le> rc" "r + w \<le> length (sg_segs sg)" and sg: "sg_nseg sg = r + w" "length (sg_bytes sg) < 2 ^ 32"
  shows "desc_bytes (vr_desc vq') (take (r + w) free) = sg_bytes sg" and "va_idx vq' = va_idx vq + 1"
    and "va_ring vq' ! (unat (va_idx vq) mod vr_num vq) = vq_head_free_desc vq"
proof -
  have avail: "unat (vq_desc_avail vq) = length free" by (rule vq_invD(4) [OF inv])
  have n: "1 \<le> r + w" "r + w \<le> length free"
    using run ok(1) avail by (auto simp: virtqueue_buffer_enqueue_def Let_def split: if_splits)
  obtain d' idx' where e: "virtqueue_buffer_enqueue vq c sg r w =
      Some (int (length free - (r + w)), enqueued vq c (r + w) d' idx')"
    "length d' = length (vr_desc vq)" "free_linked (vr_desc vq) idx' (drop (r + w) free)"
    "\<And>i. i \<notin> set (take (r + w) free) \<Longrightarrow> d' ! i = vr_desc vq ! i"
    "\<And>j. j < r + w \<Longrightarrow> d' ! (free ! j) = seg_desc (sg_segs sg) r (r + w) j (vr_desc vq ! (free ! j))"
    by (rule enqueue_run [OF inv refl n ok(2)]) (rule that)
  have vq': "vq' = enqueued vq c (r + w) d' idx'" using run e(1) by simp
  have "[vd_addr (d' ! (free ! j))..<vd_addr (d' ! (free ! j)) + unat (vd_len (d' ! (free ! j)))] =
      seg_bytes (sg_segs sg ! j)" if "j < r + w" for j
  proof -
    have "sg_segs sg ! j \<in> set (take (sg_nseg sg) (sg_segs sg))"
      using that ok(2) sg(1) by (auto simp: in_set_conv_nth intro!: exI [of _ j])
    from sg_bytes_seg [OF this] sg(2) have "ss_len (sg_segs sg ! j) < 2 ^ 32" by simp
    then have "unat (of_nat (ss_len (sg_segs sg ! j)) :: u32) = ss_len (sg_segs sg ! j)"
      by (intro unat_of_nat_small) simp
    with e(5) [OF that] show ?thesis by (simp add: seg_desc_def seg_bytes_def)
  qed
  then have "map (\<lambda>i. [vd_addr (d' ! i)..<vd_addr (d' ! i) + unat (vd_len (d' ! i))]) (take (r + w) free) =
      map seg_bytes (take (r + w) (sg_segs sg))"
    using n(2) ok(2) by (intro nth_equalityI) simp_all
  then show "desc_bytes (vr_desc vq') (take (r + w) free) = sg_bytes sg"
    unfolding desc_bytes_def sg_bytes_def vq' sg(1) by simp
  show "va_idx vq' = va_idx vq + 1" by (simp add: vq')
  have "unat (va_idx vq) mod vr_num vq < length (va_ring vq)"
    using vq_invD(1) [OF inv] vq_num_bounds [of vq] by (simp add: vq_shape_def)
  then show "va_ring vq' ! (unat (va_idx vq) mod vr_num vq) = vq_head_free_desc vq"
    by (simp add: vq' enqueued_def Let_def)
qed

lemma enqueue_success:
  assumes inv: "vq_inv free inflight vq" and n: "1 \<le> r + w" "r + w \<le> length free"
    and segs: "r + w \<le> length (sg_segs sg)"
  obtains vq' where "virtqueue_buffer_enqueue vq c sg r w = Some (int (unat (vq_desc_avail vq')), vq')"
    and "unat (vq_desc_avail vq') + (r + w) = unat (vq_desc_avail vq)" and "va_idx vq' = va_idx vq + 1"
    and "va_ring vq' ! (unat (va_idx vq) mod vr_num vq) = vq_head_free_desc vq"
    and "vq_inv (drop (r + w) free) (inflight @ [(c, take (r + w) free)]) vq'" and "pending vq' = pending vq"
    and "hd (take (r + w) free) = unat (vq_head_free_desc vq)" and "chain_linked (vr_desc vq') (take (r + w) free)"
    and "sg_nseg sg = r + w \<Longrightarrow> length (sg_bytes sg) < 2 ^ 32 \<Longrightarrow>
           desc_bytes (vr_desc vq') (take (r + w) free) = sg_bytes sg"
proof -
  from inv segs show thesis
  proof (cases rule: enqueue_total [where c = c])
    case (ok vq')
    have rc: "0 \<le> int (length free - (r + w))" by simp
    have left: "unat (vq_desc_avail vq') = length free - (r + w)" using vq_invD(4) [OF ok(4)] by simp
    have run: "virtqueue_buffer_enqueue vq c sg r w = Some (int (unat (vq_desc_avail vq')), vq')"
      unfolding left by (rule ok(3))
    obtain d' idx' where e: "virtqueue_buffer_enqueue vq c sg r w =
        Some (int (length free - (r + w)), enqueued vq c (r + w) d' idx')"
      by (rule enqueue_run [OF inv refl n segs]) (rule that)
    have vq': "vq' = enqueued vq c (r + w) d' idx'" using ok(3) e by simp
    show thesis
    proof (rule that [OF run _ _ _ ok(4,5)])
      show "unat (vq_desc_avail vq') + (r + w) = unat (vq_desc_avail vq)"
        using left n vq_invD(4) [OF inv] by simp
      show "va_idx vq' = va_idx vq + 1" by (simp add: vq')
      show "va_ring vq' ! (unat (va_idx vq) mod vr_num vq) = vq_head_free_desc vq"
        using vq_invD(1) [OF inv] vq_num_bounds [of vq] by (simp add: vq' enqueued_def Let_def vq_shape_def)
      show "hd (take (r + w) free) = unat (vq_head_free_desc vq)"
        using n vq_invD(5) [OF inv] by (cases free; cases "r + w") auto
      show "chain_linked (vr_desc vq') (take (r + w) free)"
        using vq_invD(6) [OF ok(4), of c "take (r + w) free"] by simp
      show "desc_bytes (vr_desc vq') (take (r + w) free) = sg_bytes sg"
        if "sg_nseg sg = r + w" "length (sg_bytes sg) < 2 ^ 32"
        by (rule enqueue_view(1) [OF inv ok(3) rc segs that])
    qed
  qed (use n vq_invD(3) [OF inv] in auto)
qed

section \<open>Suppression of interrupts and notifications\<close>

text \<open>The test of the code against its meaning: the event index was passed since the last time.\<close>

lemma vring_need_event_interval:
  "vring_need_event event_idx new_idx old_idx \<longleftrightarrow> unat (event_idx - old_idx) < unat (new_idx - old_idx)"
proof -
  define a b where "a = new_idx - old_idx" and "b = event_idx - old_idx"
  have "new_idx - event_idx - 1 = a - b - 1" by (simp add: a_def b_def)
  moreover have "a - b - 1 < a \<longleftrightarrow> unat b < unat a"
  proof (cases "unat b < unat a")
    case True
    then have "unat (a - b) = unat a - unat b" by (simp add: unat_sub_if')
    moreover have "a - b \<noteq> 0" using True by auto
    ultimately have "unat (a - b - 1) < unat a" using True by (simp add: unat_minus_one)
    with True show ?thesis by (simp add: word_less_nat_alt)
  next
    case False
    have "unat (a - b - 1) = 65536 + unat a - unat b - 1 \<or> unat b = unat a \<and> unat (a - b - 1) = 65535"
    proof (cases "unat b = unat a")
      case False
      with \<open>\<not> unat b < unat a\<close> have "unat (a - b) = unat a + 65536 - unat b" "a - b \<noteq> 0"
        by (auto simp: unat_sub_if')
      then show ?thesis by (simp add: unat_minus_one)
    next
      case True
      then have "a = b" by (rule word_unat_eq_iff [THEN iffD2, OF sym])
      then show ?thesis by (simp add: unsigned_minus_1_eq_mask mask_eq_exp_minus_1)
    qed
    moreover have "unat a < 65536" "unat b < 65536"
      using unat_less_exp [of a] unat_less_exp [of b] by simp_all
    ultimately have "unat a \<le> unat (a - b - 1)" by linarith
    with False show ?thesis by (simp add: word_less_nat_alt)
  qed
  ultimately show ?thesis by (simp add: vring_need_event_def a_def b_def)
qed

text \<open>The device writes only its part of the ring.\<close>

definition device_writes :: "('c virtqueue_vring \<Rightarrow> 'c virtqueue_vring) \<Rightarrow> bool" where
  "device_writes host \<longleftrightarrow> (\<forall>vq. \<exists>f i r e.
     host vq = vq\<lparr>vu_flags := f, vu_idx := i, vu_ring := r, vu_avail_event := e\<rparr>)"

lemma device_writes_frame:
  assumes "device_writes host"
  shows "va_used_event (host vq) = va_used_event vq" and "va_flags (host vq) = va_flags vq"
    and "vq_last_used_desc_idx (host vq) = vq_last_used_desc_idx vq"
    and "vq_uses_event_idx (host vq) = vq_uses_event_idx vq"
proof -
  obtain f i r e where "host vq = vq\<lparr>vu_flags := f, vu_idx := i, vu_ring := r, vu_avail_event := e\<rparr>"
    using assms unfolding device_writes_def by metis
  then show "va_used_event (host vq) = va_used_event vq" and "va_flags (host vq) = va_flags vq"
    and "vq_last_used_desc_idx (host vq) = vq_last_used_desc_idx vq"
    and "vq_uses_event_idx (host vq) = vq_uses_event_idx vq" by simp_all
qed

section \<open>Properties\<close>

lemma device_writes_id: "device_writes (\<lambda>vq. vq)"
  unfolding device_writes_def
proof
  fix vq :: "'a virtqueue_vring"
  have "vq = vq\<lparr>vu_flags := vu_flags vq, vu_idx := vu_idx vq, vu_ring := vu_ring vq,
      vu_avail_event := vu_avail_event vq\<rparr>" by simp
  then show "\<exists>f i r e. vq = vq\<lparr>vu_flags := f, vu_idx := i, vu_ring := r, vu_avail_event := e\<rparr>" by blast
qed

text \<open>
  A queue of four descriptors for concrete runs: fresh, with one buffer queued, and with that buffer
  completed by the device.
\<close>

definition example_vq0 :: "nat virtqueue_vring" where
  "example_vq0 = virtqueue_vring_init
     \<lparr>vr_num = 0, vr_desc = replicate 4 \<lparr>vd_addr = 0, vd_len = 0, vd_flags = 0, vd_next = 0\<rparr>,
      va_flags = 0, va_idx = 0, va_ring = replicate 4 0, va_used_event = 0, vu_flags = 0, vu_idx = 0,
      vu_ring = replicate 4 \<lparr>ue_id = 0, ue_len = 0\<rparr>, vu_avail_event = 0, vq_desc_avail = 0,
      vq_head_free_desc = 0, vq_last_used_desc_idx = 0, vq_uses_event_idx = True,
      vq_last_notified_idx = 0, vq_info = replicate 4 \<lparr>di_cookie = None, di_desc_count = 0\<rparr>\<rparr> 4"

definition example_sg :: uk_sglist where
  "example_sg = \<lparr>sg_segs = [\<lparr>ss_paddr = 8192, ss_len = 100\<rparr>], sg_nseg = 1, sg_maxseg = 1, sg_refs = 1\<rparr>"

definition example_vq1 :: "nat virtqueue_vring" where
  "example_vq1 = snd (the (virtqueue_buffer_enqueue example_vq0 7 example_sg 0 1))"

definition example_vq2 :: "nat virtqueue_vring" where
  "example_vq2 = device_complete 0 64 example_vq1"

lemma example_vq0_reach: "vq_reach example_vq0 []"
proof (rule vq_reach.create)
  show "virtqueue_create (\<lambda>_. \<lparr>di_cookie = None, di_desc_count = 0\<rparr>) alloc_plenty (2 ^ 2) 4096 (push_bit 29 1)
      = (Inr example_vq0, alloc_plenty\<lparr>al_requests := 2\<rparr>)"
    by (simp add: virtqueue_create_def uk_malloc_def uk_memalign_def alloc_plenty_def example_vq0_def
        vring_size_def align_up_def VIRTIO_F_EVENT_IDX_def PAGE_SIZE_def numeral_2_eq_2 [symmetric]
        map_replicate_const bit_simps upt_rec)
qed simp

lemma example_vq1_enqueue: "virtqueue_buffer_enqueue example_vq0 7 example_sg 0 1 = Some (3, example_vq1)"
proof -
  have "\<exists>vq. virtqueue_buffer_enqueue example_vq0 7 example_sg 0 1 = Some (3, vq)"
    by (simp add: example_vq0_def example_sg_def virtqueue_vring_init_def virtqueue_buffer_enqueue_def
        virtqueue_buffer_enqueue_segments_def virtqueue_ring_update_avail_def upt_rec)
  then show ?thesis by (auto simp: example_vq1_def)
qed

lemma example_vq1_reach: "vq_reach example_vq1 [(0, 7)]"
  using vq_reach.enqueue [OF example_vq0_reach example_vq1_enqueue]
  by (simp add: example_sg_def example_vq0_def virtqueue_vring_init_def)

lemma example_vq1_pending: "pending example_vq1 = []"
  by (simp add: pending_def example_vq1_def example_vq0_def example_sg_def virtqueue_vring_init_def
      virtqueue_buffer_enqueue_def virtqueue_buffer_enqueue_segments_def virtqueue_ring_update_avail_def upt_rec)

lemma example_vq2_reach: "vq_reach example_vq2 [(0, 7)]"
  unfolding example_vq2_def
  by (rule vq_reach.complete [OF example_vq1_reach, of _ 7]) (simp_all add: example_vq1_pending)

lemma example_vq2_data: "virtqueue_hasdata example_vq2"
  by (simp add: example_vq2_def device_complete_def virtqueue_hasdata_def example_vq1_def example_vq0_def
      example_sg_def virtqueue_vring_init_def virtqueue_buffer_enqueue_def
      virtqueue_buffer_enqueue_segments_def virtqueue_ring_update_avail_def upt_rec)

text \<open>
  C8: In every state that a virtqueue can reach by queueing buffers, completions of the device and
  taking buffers back, taking a buffer never stops. Without a used entry it says so and changes
  nothing. With one it returns the cookie of exactly the buffer that the device completed first,
  and the other outstanding buffers stay outstanding.
\<close>

theorem vq_cookie_roundtrip:
  assumes "vq_reach vq out"
  shows "if virtqueue_hasdata vq
    then \<exists>out1 c out2 rc len vq'. out = out1 @ (hd (pending vq), c) # out2
       \<and> hd (pending vq) \<notin> fst ` set (out1 @ out2)
       \<and> virtqueue_buffer_dequeue vq = Some (rc, Some c, len, vq') \<and> 0 \<le> rc \<and> vq_reach vq' (out1 @ out2)
    else virtqueue_buffer_dequeue vq = Some (- ENOMSG, None, 0, vq)"
proof (cases "virtqueue_hasdata vq")
  case True
  obtain free inflight where inv: "vq_inv free inflight vq" and out: "out = map (\<lambda>(c, is). (hd is, c)) inflight"
    using reach_inv [OF assms] by blast
  from inv True show ?thesis
  proof (rule dequeue_run)
    fix c "is" pre post h len
    assume d: "inflight = pre @ (c, is) # post" "unat h = hd is" "hd (pending vq) = hd is"
      "virtqueue_buffer_dequeue vq =
         Some (int (vr_num vq) - int (length free + length is), Some c, len, dequeued vq h is)"
    let ?o = "map (\<lambda>(c, is). (hd is, c))"
    have dist: "distinct (free @ concat (map snd inflight))" by (rule vq_invD(2) [OF inv])
    have chain: "ys \<noteq> []" if "(x, ys) \<in> set inflight" for x ys
      using vq_invD(6) [OF inv that] by auto
    have fresh: "hd is \<noteq> hd ys" if "(x, ys) \<in> set (pre @ post)" for x ys
    proof -
      have "hd ys \<in> set ys" "hd is \<in> set is" using chain [of x ys] chain [of c "is"] that d(1) by auto
      moreover have "set is \<inter> set ys = {}" using dist that unfolding d(1) by fastforce
      ultimately show ?thesis by auto
    qed
    have fst: "hd is \<notin> fst ` set (?o pre @ ?o post)" using fresh by force
    have keep: "filter (\<lambda>(h, c). h \<noteq> hd is) xs = xs" if "hd is \<notin> fst ` set xs" for xs :: "(nat \<times> 'a) list"
      using that by (force simp: filter_id_conv)
    have "length free + length is \<le> vr_num vq" using vq_invD(3) [OF inv] d(1) by simp
    moreover have "filter (\<lambda>(h, c). h \<noteq> hd (pending vq)) out = ?o pre @ ?o post"
      using keep [of "?o pre"] keep [of "?o post"] fst unfolding out d(1,3) by (simp add: image_Un)
    with vq_reach.dequeue [OF assms d(4)] have "vq_reach (dequeued vq h is) (?o pre @ ?o post)" by simp
    ultimately have "out = ?o pre @ (hd (pending vq), c) # ?o post
       \<and> hd (pending vq) \<notin> fst ` set (?o pre @ ?o post)
       \<and> virtqueue_buffer_dequeue vq =
           Some (int (vr_num vq) - int (length free + length is), Some c, len, dequeued vq h is)
       \<and> 0 \<le> int (vr_num vq) - int (length free + length is)
       \<and> vq_reach (dequeued vq h is) (?o pre @ ?o post)"
      using d fst out by simp
    with True show ?thesis by (simp only: if_True) blast
  qed
next
  case False
  then show ?thesis by (simp add: virtqueue_buffer_dequeue_def)
qed

theorem vq_cookie_roundtrip_witness:
  "\<exists>rc len vq'. virtqueue_buffer_dequeue example_vq2 = Some (rc, Some 7, len, vq') \<and> 0 \<le> rc \<and> vq_reach vq' []"
  using vq_cookie_roundtrip [OF example_vq2_reach] example_vq2_data
  by (auto simp: append_eq_Cons_conv Cons_eq_append_conv)

text \<open>
  C25: Queueing a buffer never stops: it is refused as invalid or for lack of descriptors and the
  queue is unchanged, or it takes exactly its number of descriptors, publishes the first of them in
  the available ring, and the chain that the device then follows covers exactly the addresses of the
  scatter/gather list.
\<close>

theorem vq_enqueue_outcome:
  assumes "vq_reach vq out" and "r + w \<le> length (sg_segs sg)"
  shows "if r + w < 1 \<or> vr_num vq < r + w then virtqueue_buffer_enqueue vq c sg r w = Some (- EINVAL, vq)
    else if unat (vq_desc_avail vq) < r + w then virtqueue_buffer_enqueue vq c sg r w = Some (- ENOSPC, vq)
    else \<exists>vq'. virtqueue_buffer_enqueue vq c sg r w = Some (int (unat (vq_desc_avail vq')), vq')
       \<and> vq_reach vq' (out @ [(unat (vq_head_free_desc vq), c)])
       \<and> unat (vq_desc_avail vq') + (r + w) = unat (vq_desc_avail vq) \<and> va_idx vq' = va_idx vq + 1
       \<and> va_ring vq' ! (unat (va_idx vq) mod vr_num vq) = vq_head_free_desc vq
       \<and> (\<exists>is. length is = r + w \<and> hd is = unat (vq_head_free_desc vq) \<and> chain_linked (vr_desc vq') is
            \<and> (sg_nseg sg = r + w \<and> length (sg_bytes sg) < 2 ^ 32 \<longrightarrow> desc_bytes (vr_desc vq') is = sg_bytes sg))"
proof -
  obtain free inflight where inv: "vq_inv free inflight vq" using reach_inv [OF assms(1)] by blast
  have avail: "unat (vq_desc_avail vq) = length free" by (rule vq_invD(4) [OF inv])
  have bound: "length free \<le> vr_num vq" using vq_invD(3) [OF inv] by simp
  show ?thesis
  proof (cases "1 \<le> r + w \<and> r + w \<le> length free")
    case True
    then have n: "1 \<le> r + w" "r + w \<le> length free" by simp_all
    obtain vq' where e: "virtqueue_buffer_enqueue vq c sg r w = Some (int (unat (vq_desc_avail vq')), vq')"
      "unat (vq_desc_avail vq') + (r + w) = unat (vq_desc_avail vq)" "va_idx vq' = va_idx vq + 1"
      "va_ring vq' ! (unat (va_idx vq) mod vr_num vq) = vq_head_free_desc vq"
      "hd (take (r + w) free) = unat (vq_head_free_desc vq)" "chain_linked (vr_desc vq') (take (r + w) free)"
      "sg_nseg sg = r + w \<Longrightarrow> length (sg_bytes sg) < 2 ^ 32 \<Longrightarrow>
           desc_bytes (vr_desc vq') (take (r + w) free) = sg_bytes sg"
      by (rule enqueue_success [OF inv n assms(2)]) (rule that)
    have "vq_reach vq' (out @ [(unat (vq_head_free_desc vq), c)])"
      by (rule vq_reach.enqueue [OF assms(1) e(1) _ assms(2)]) simp
    moreover have "length (take (r + w) free) = r + w" using n by simp
    with e(5-7) have "\<exists>is. length is = r + w \<and> hd is = unat (vq_head_free_desc vq) \<and> chain_linked (vr_desc vq') is
        \<and> (sg_nseg sg = r + w \<and> length (sg_bytes sg) < 2 ^ 32 \<longrightarrow> desc_bytes (vr_desc vq') is = sg_bytes sg)"
      by blast
    moreover have "\<not> (r + w < 1 \<or> vr_num vq < r + w)" "\<not> unat (vq_desc_avail vq) < r + w"
      using n bound avail by linarith+
    ultimately show ?thesis using e(1-4) by (simp only: if_False) blast
  next
    case False
    then show ?thesis using avail bound by (auto simp: virtqueue_buffer_enqueue_def Let_def)
  qed
qed

theorem vq_enqueue_outcome_witness:
  "virtqueue_buffer_enqueue example_vq1 8 example_sg 0 0 = Some (- EINVAL, example_vq1)"
  using vq_enqueue_outcome [OF example_vq1_reach, of 0 0 example_sg 8] by simp

text \<open>
  C22: No wake-up is lost when interrupts are enabled. The result 1 means that there is data to
  process now. The result 0 means that all used entries were seen, and that the device, which
  compares the entries it adds with the published state, interrupts for the next one.
\<close>

theorem vq_intr_enable_no_lost_wakeup:
  assumes "device_writes host" and "virtqueue_intr_enable host vq = (rc, vq')"
  shows "(rc = 1 \<and> virtqueue_hasdata vq') \<or>
    (rc = 0 \<and> \<not> virtqueue_hasdata vq' \<and> (if vq_uses_event_idx vq'
       then \<forall>k. 0 < k \<and> k < 65536 \<longrightarrow> vring_need_event (va_used_event vq') (vu_idx vq' + of_nat k) (vu_idx vq')
       else va_flags vq' AND VRING_AVAIL_F_NO_INTERRUPT = 0))"
proof (cases "virtqueue_hasdata vq")
  case True
  then show ?thesis using assms(2) by (auto simp: virtqueue_intr_enable_def)
next
  case False
  define vq1 where "vq1 = (if vq_uses_event_idx vq then vq\<lparr>va_used_event := vq_last_used_desc_idx vq + 0\<rparr>
                    else vq\<lparr>va_flags := va_flags vq AND NOT VRING_AVAIL_F_NO_INTERRUPT\<rparr>)"
  note frame = device_writes_frame [OF assms(1), of vq1]
  show ?thesis
  proof (cases "virtqueue_hasdata (host vq1)")
    case True
    then have "rc = 1" "vq' = virtqueue_intr_disable (host vq1)"
      using False assms(2) by (simp_all add: virtqueue_intr_enable_def vq1_def [symmetric])
    with True show ?thesis by (simp add: virtqueue_hasdata_def virtqueue_intr_disable_def)
  next
    case no: False
    then have r: "rc = 0" "vq' = host vq1"
      using False assms(2) by (simp_all add: virtqueue_intr_enable_def vq1_def [symmetric])
    have flags: "va_flags vq1 AND VRING_AVAIL_F_NO_INTERRUPT = 0" if "\<not> vq_uses_event_idx vq"
      using that by (simp add: vq1_def and.assoc)
    have uses: "vq_uses_event_idx vq1 = vq_uses_event_idx vq" by (simp add: vq1_def)
    have "unat (of_nat k :: u16) = k" if "k < 65536" for k
      using that by (intro unat_of_nat_small) simp
    then have "vring_need_event (va_used_event vq') (vu_idx vq' + of_nat k) (vu_idx vq')"
      if "vq_uses_event_idx vq" "0 < k" "k < 65536" for k
      using that no frame r by (simp add: vring_need_event_interval virtqueue_hasdata_def vq1_def)
    with no frame r uses flags show ?thesis by simp
  qed
qed

theorem vq_intr_enable_no_lost_wakeup_witness:
  "virtqueue_intr_enable (\<lambda>vq. vq) example_vq0 = (0, example_vq0) \<and> \<not> virtqueue_hasdata example_vq0
    \<and> vring_need_event (va_used_event example_vq0) (vu_idx example_vq0 + 1) (vu_idx example_vq0)"
proof -
  have run: "virtqueue_intr_enable (\<lambda>vq. vq) example_vq0 = (0, example_vq0)"
    by (simp add: virtqueue_intr_enable_def virtqueue_hasdata_def example_vq0_def virtqueue_vring_init_def)
  note dev = device_writes_id
  have "vq_uses_event_idx example_vq0" by (simp add: example_vq0_def virtqueue_vring_init_def)
  then show ?thesis using run vq_intr_enable_no_lost_wakeup [OF dev run] by (auto dest: spec [of _ 1])
qed

text \<open>
  C35: The wrap-around comparison of the event index decides whether the device asked to be
  notified of one of the buffers that were published since the last notification; after a
  notification the same buffers do not cause another one.
\<close>

theorem vq_notify_exact:
  assumes "vq_uses_event_idx vq"
  shows "(fst (virtqueue_host_notify vq) \<longleftrightarrow>
      (\<exists>k < unat (va_idx vq - vq_last_notified_idx vq). vu_avail_event vq = vq_last_notified_idx vq + of_nat k))
    \<and> \<not> (fst (virtqueue_host_notify vq) \<and> fst (virtqueue_host_notify (snd (virtqueue_host_notify vq))))"
proof -
  let ?e = "vu_avail_event vq - vq_last_notified_idx vq" and ?d = "va_idx vq - vq_last_notified_idx vq"
  have "unat ?e < unat ?d \<longleftrightarrow> (\<exists>k < unat ?d. vu_avail_event vq = vq_last_notified_idx vq + of_nat k)"
  proof
    assume "unat ?e < unat ?d"
    then show "\<exists>k < unat ?d. vu_avail_event vq = vq_last_notified_idx vq + of_nat k"
      by (intro exI [of _ "unat ?e"]) simp
  next
    assume "\<exists>k < unat ?d. vu_avail_event vq = vq_last_notified_idx vq + of_nat k"
    then obtain k where k: "k < unat ?d" "?e = of_nat k" by (auto simp: algebra_simps)
    then have "k < 2 ^ LENGTH(16)" using unat_less_exp [of ?d] by linarith
    then show "unat ?e < unat ?d" using k by (simp add: unat_of_nat_small)
  qed
  then show ?thesis
    using assms by (auto simp: virtqueue_host_notify_def virtqueue_notify_enabled_def vring_need_event_interval)
qed

theorem vq_notify_exact_witness:
  "(fst (virtqueue_host_notify example_vq1) \<longleftrightarrow>
      (\<exists>k < unat (va_idx example_vq1 - vq_last_notified_idx example_vq1).
         vu_avail_event example_vq1 = vq_last_notified_idx example_vq1 + of_nat k))
    \<and> \<not> (fst (virtqueue_host_notify example_vq1)
        \<and> fst (virtqueue_host_notify (snd (virtqueue_host_notify example_vq1))))"
  by (rule vq_notify_exact)
    (simp add: example_vq1_def example_vq0_def example_sg_def virtqueue_vring_init_def
      virtqueue_buffer_enqueue_def virtqueue_buffer_enqueue_segments_def virtqueue_ring_update_avail_def upt_rec)

end
