(* ===== verification/Rbtree.thy ===== *)
theory Rbtree
  imports Vk_Prelude
begin

text \<open>
  The rank-balanced tree of \<open>include/uk/tree.h\<close> (\<open>UK_RB_GENERATE\<close>), which holds the table of bound
  and connected sockets. In C a node keeps two bits that say which of its edges to its children is
  long, that is, spans two ranks, and a link to its parent. Here a node is a constructor with the
  two bits, and the links to the parents are the path of a zipper: a list of frames from the
  parent to the root. The loops that walk up the parent links are recursions on that path.
  As in C, where links and bits are indexed by a direction, the operations are written once for
  both directions, with \<open>elmdir\<close> the direction from the parent to the element.

  The lemmas show that insertion and removal keep the ranks balanced, that they change the
  in-order sequence as they should, that a search finds an element exactly when there is one, and
  that the height is logarithmic in the size.
\<close>

section \<open>Data\<close>

datatype dir = RB_L | RB_R

datatype 'a rbt = Null | Node (long_left: bool) (long_right: bool) (left: "'a rbt") (val: 'a) (right: "'a rbt")

fun opp :: "dir \<Rightarrow> dir" where
  "opp RB_L = RB_R"
| "opp RB_R = RB_L"

text \<open>A node given by its link and bit in a direction, and then the other ones.\<close>

fun mk :: "dir \<Rightarrow> bool \<Rightarrow> bool \<Rightarrow> 'a rbt \<Rightarrow> 'a \<Rightarrow> 'a rbt \<Rightarrow> 'a rbt" where
  "mk RB_L bd bs td x ts = Node bd bs td x ts"
| "mk RB_R bd bs td x ts = Node bs bd ts x td"

fun rb_bit :: "dir \<Rightarrow> 'a rbt \<Rightarrow> bool" where
  "rb_bit d Null = False"
| "rb_bit RB_L (Node bl br l x r) = bl"
| "rb_bit RB_R (Node bl br l x r) = br"

fun rb_link :: "dir \<Rightarrow> 'a rbt \<Rightarrow> 'a rbt" where
  "rb_link d Null = Null"
| "rb_link RB_L (Node bl br l x r) = l"
| "rb_link RB_R (Node bl br l x r) = r"

fun clear_bits :: "'a rbt \<Rightarrow> 'a rbt" where
  "clear_bits Null = Null"
| "clear_bits (Node bl br l x r) = Node False False l x r"

text \<open>
  A frame: the direction in which the path goes down from this node, its long bit in that
  direction and in the other one, the element, and the other subtree.
\<close>

datatype 'a frame = Frame dir bool bool 'a "'a rbt"

fun plug :: "'a frame list \<Rightarrow> 'a rbt \<Rightarrow> 'a rbt" where
  "plug [] t = t"
| "plug (Frame d bd bs x sib # up) t = plug up (mk d bd bs t x sib)"

fun inorder :: "'a rbt \<Rightarrow> 'a list" where
  "inorder Null = []"
| "inorder (Node bl br l x r) = inorder l @ x # inorder r"

section \<open>Insertion\<close>

text \<open>
  The loop of \<open>RB_DO_INSERT_COLOR\<close>. The rank of the tree at \<open>elm\<close> grew. In the double rotation
  \<open>child\<close> is the element of the previous round, which is the child of \<open>elm\<close> in direction \<open>sibdir\<close>.
\<close>

fun do_insert_color :: "'a frame list \<Rightarrow> 'a rbt \<Rightarrow> 'a rbt" where
  "do_insert_color [] elm = elm"
| "do_insert_color (Frame elmdir be bs x sib # gpar) elm = (
     if be then plug gpar (mk elmdir False bs elm x sib)
     else if \<not> bs then do_insert_color gpar (mk elmdir False True elm x sib)
     else let sibdir = opp elmdir in
       if rb_bit elmdir elm
       then let child = rb_link sibdir elm in
         plug gpar (mk elmdir False False
           (mk elmdir False (rb_bit elmdir child) (rb_link elmdir elm) (val elm) (rb_link elmdir child))
           (val child)
           (mk elmdir (rb_bit sibdir child) False (rb_link sibdir child) x sib))
       else
         plug gpar (mk elmdir False False (rb_link elmdir elm) (val elm)
           (mk elmdir False False (rb_link sibdir elm) x sib)))"

text \<open>
  \<open>RB_INSERT\<close>: \<open>cmpf y\<close> is the comparison of the new element with \<open>y\<close>. The result is the
  element in the way, if any, and the tree.
\<close>

fun rb_insert_walk :: "('a \<Rightarrow> int) \<Rightarrow> 'a \<Rightarrow> 'a frame list \<Rightarrow> 'a rbt \<Rightarrow> 'a option \<times> 'a rbt option" where
  "rb_insert_walk cmpf elm up Null = (None, Some (do_insert_color up (Node False False Null elm Null)))"
| "rb_insert_walk cmpf elm up (Node bl br l x r) = (
     if cmpf x < 0 then rb_insert_walk cmpf elm (Frame RB_L bl br x r # up) l
     else if cmpf x > 0 then rb_insert_walk cmpf elm (Frame RB_R br bl x l # up) r
     else (Some x, None))"

definition rb_insert :: "('a \<Rightarrow> int) \<Rightarrow> 'a \<Rightarrow> 'a rbt \<Rightarrow> 'a option \<times> 'a rbt" where
  "rb_insert cmpf elm t = (case rb_insert_walk cmpf elm [] t of
     (present, None) \<Rightarrow> (present, t) | (present, Some t') \<Rightarrow> (present, t'))"

section \<open>Search and traversal\<close>

fun rb_find :: "('a \<Rightarrow> int) \<Rightarrow> 'a rbt \<Rightarrow> 'a option" where
  "rb_find cmpf Null = None"
| "rb_find cmpf (Node bl br l x r) = (
     if cmpf x < 0 then rb_find cmpf l
     else if cmpf x > 0 then rb_find cmpf r
     else Some x)"

text \<open>
  The node that holds an element, reached by its parent links, and the walks of \<open>RB_MINMAX\<close>,
  \<open>RB_NEXT\<close> and \<open>RB_PREV\<close>: down to the end of a subtree, or up to the first node that the path
  leaves in the other direction.
\<close>

fun zip_to :: "'a \<Rightarrow> 'a frame list \<Rightarrow> 'a rbt \<Rightarrow> ('a frame list \<times> 'a rbt) option" where
  "zip_to y up Null = None"
| "zip_to y up (Node bl br l x r) = (
     if x = y then Some (up, Node bl br l x r)
     else case zip_to y (Frame RB_L bl br x r # up) l of
       Some z \<Rightarrow> Some z
     | None \<Rightarrow> zip_to y (Frame RB_R br bl x l # up) r)"

fun rb_min :: "'a rbt \<Rightarrow> 'a option" where
  "rb_min Null = None"
| "rb_min (Node bl br l x r) = (case rb_min l of None \<Rightarrow> Some x | Some y \<Rightarrow> Some y)"

fun rb_max :: "'a rbt \<Rightarrow> 'a option" where
  "rb_max Null = None"
| "rb_max (Node bl br l x r) = (case rb_max r of None \<Rightarrow> Some x | Some y \<Rightarrow> Some y)"

fun up_next :: "'a frame list \<Rightarrow> 'a option" where
  "up_next [] = None"
| "up_next (Frame d bd bs x sib # up) = (if d = RB_R then up_next up else Some x)"

fun up_prev :: "'a frame list \<Rightarrow> 'a option" where
  "up_prev [] = None"
| "up_prev (Frame d bd bs x sib # up) = (if d = RB_L then up_prev up else Some x)"

definition rb_next :: "'a \<Rightarrow> 'a rbt \<Rightarrow> 'a option option" where
  "rb_next elm t = do {
     (up, sub) \<leftarrow> zip_to elm [] t;
     Some (if right sub \<noteq> Null then rb_min (right sub) else up_next up)
   }"

definition rb_prev :: "'a \<Rightarrow> 'a rbt \<Rightarrow> 'a option option" where
  "rb_prev elm t = do {
     (up, sub) \<leftarrow> zip_to elm [] t;
     Some (if left sub \<noteq> Null then rb_max (left sub) else up_prev up)
   }"

section \<open>Removal\<close>

text \<open>The loop of \<open>RB_REMOVE_COLOR\<close>: the rank of the tree at \<open>elm\<close> shrank.\<close>

fun remove_color_loop :: "'a frame list \<Rightarrow> 'a rbt \<Rightarrow> 'a rbt" where
  "remove_color_loop [] elm = elm"
| "remove_color_loop (Frame elmdir be bs x sib # gpar) elm = (
     if \<not> be then plug gpar (mk elmdir True bs elm x sib)
     else if bs then remove_color_loop gpar (mk elmdir True False elm x sib)
     else let sibdir = opp elmdir; se = rb_bit elmdir sib; ss = rb_bit sibdir sib in
       if se \<and> ss then
         remove_color_loop gpar (mk elmdir True False elm x (clear_bits sib))
       else if ss then
         let elm' = rb_link elmdir sib; ee = rb_bit elmdir elm'; es = rb_bit sibdir elm' in
         plug gpar (mk elmdir True True
           (mk elmdir False ee elm x (rb_link elmdir elm'))
           (val elm')
           (mk elmdir es False (rb_link sibdir elm') (val sib) (rb_link sibdir sib)))
       else if se then
         plug gpar (mk elmdir True True
           (mk elmdir False False elm x (rb_link elmdir sib)) (val sib) (rb_link sibdir sib))
       else
         plug gpar (mk elmdir False True
           (mk elmdir True False elm x (rb_link elmdir sib)) (val sib) (rb_link sibdir sib)))"

definition remove_color :: "'a frame list \<Rightarrow> 'a rbt \<Rightarrow> 'a rbt" where
  "remove_color path elm = (case path of
     Frame elmdir be bs x sib # gpar \<Rightarrow>
       if elm = Null \<and> sib = Null
       then remove_color_loop gpar (mk elmdir False False elm x sib)
       else remove_color_loop path elm
   | [] \<Rightarrow> elm)"

text \<open>The walk to the successor: the first element of a subtree and what is at its place.\<close>

fun leftmost :: "'a frame list \<Rightarrow> bool \<Rightarrow> bool \<Rightarrow> 'a rbt \<Rightarrow> 'a \<Rightarrow> 'a rbt \<Rightarrow> 'a frame list \<times> 'a \<times> 'a rbt" where
  "leftmost up bl br Null x r = (up, x, r)"
| "leftmost up bl br (Node bl' br' l' x' r') x r = leftmost (Frame RB_L bl br x r # up) bl' br' l' x' r'"

text \<open>
  \<open>RB_REMOVE\<close> of the node at a position. When it has two children, the successor \<open>in\<close> takes its
  place and its bits, and the rebalancing starts where the successor was.
\<close>

fun rb_remove_at :: "'a frame list \<Rightarrow> 'a rbt \<Rightarrow> 'a rbt" where
  "rb_remove_at up Null = plug up Null"
| "rb_remove_at up (Node bl br Null x r) = remove_color up (clear_bits r)"
| "rb_remove_at up (Node bl br (Node a b c d e) x Null) = remove_color up (clear_bits (Node a b c d e))"
| "rb_remove_at up (Node bl br (Node a b c d e) x (Node bl' br' l' x' r')) = (
     let (path, succ, child) = leftmost [] bl' br' l' x' r' in
     remove_color (path @ Frame RB_R br bl succ (Node a b c d e) # up) (clear_bits child))"

definition rb_remove :: "'a \<Rightarrow> 'a rbt \<Rightarrow> 'a rbt option" where
  "rb_remove out t = do {
     (up, sub) \<leftarrow> zip_to out [] t;
     Some (rb_remove_at up sub)
   }"

text \<open>The checker \<open>RB_RANK\<close> of the source.\<close>

fun rb_rank :: "'a rbt \<Rightarrow> int" where
  "rb_rank Null = 0"
| "rb_rank (Node bl br l x r) = (
     let left_rank = (if bl then 2 else 1) + rb_rank l;
         right_rank = (if br then 2 else 1) + rb_rank r in
     if left_rank \<noteq> right_rank \<or> (left_rank = 2 \<and> l = Null \<and> r = Null) then - 1
     else left_rank)"

section \<open>Balance\<close>

text \<open>
  A tree of rank \<open>n\<close>: each edge spans one rank, or two when its bit is set, and a leaf has rank one.
  \<open>path_ok p k n\<close>: putting a tree of rank \<open>k\<close> at the end of the path gives a tree of rank \<open>n\<close>.
\<close>

definition span :: "bool \<Rightarrow> nat" where
  "span b = (if b then 2 else 1)"

fun bal :: "'a rbt \<Rightarrow> nat \<Rightarrow> bool" where
  "bal Null n = (n = 0)"
| "bal (Node bl br l x r) n = (span bl \<le> n \<and> span br \<le> n \<and> bal l (n - span bl) \<and> bal r (n - span br)
     \<and> (l = Null \<and> r = Null \<longrightarrow> n = 1))"

fun path_ok :: "'a frame list \<Rightarrow> nat \<Rightarrow> nat \<Rightarrow> bool" where
  "path_ok [] k n = (k = n)"
| "path_ok (Frame d bd bs x sib # up) k n = (let m = k + span bd in
     span bs \<le> m \<and> bal sib (m - span bs) \<and> (k = 0 \<and> sib = Null \<longrightarrow> m = 1) \<and> path_ok up m n)"

fun before :: "'a frame list \<Rightarrow> 'a list" where
  "before [] = []"
| "before (Frame RB_L bd bs x sib # up) = before up"
| "before (Frame RB_R bd bs x sib # up) = before up @ inorder sib @ [x]"

fun after :: "'a frame list \<Rightarrow> 'a list" where
  "after [] = []"
| "after (Frame RB_L bd bs x sib # up) = x # inorder sib @ after up"
| "after (Frame RB_R bd bs x sib # up) = after up"

section \<open>Nodes and paths\<close>

lemma span_simps [simp]: "span True = 2" "span False = Suc 0"
  by (simp_all add: span_def)

lemma bal_0 [simp]: "bal t 0 = (t = Null)"
  by (cases t) (auto simp: span_def)

lemma bal_mk [simp]:
  "bal (mk d bd bs td x ts) n = (span bd \<le> n \<and> span bs \<le> n \<and> bal td (n - span bd)
     \<and> bal ts (n - span bs) \<and> (td = Null \<and> ts = Null \<longrightarrow> n = 1))"
  by (cases d) auto

lemma mk_simps [simp]:
  "rb_bit d (mk d bd bs td x ts) = bd" "rb_bit (opp d) (mk d bd bs td x ts) = bs"
  "rb_link d (mk d bd bs td x ts) = td" "rb_link (opp d) (mk d bd bs td x ts) = ts"
  "val (mk d bd bs td x ts) = x" "mk d bd bs td x ts \<noteq> Null"
  "clear_bits (mk d bd bs td x ts) = mk d False False td x ts"
  by (cases d; simp)+

lemma mk_cases: "t \<noteq> Null \<Longrightarrow> \<exists>bd bs td x ts. t = mk d bd bs td x ts"
  by (cases t; cases d) (force intro: exI)+

lemma bal_Suc_mk: "bal t (Suc k) \<Longrightarrow> \<exists>bd bs td x ts. t = mk d bd bs td x ts"
  by (rule mk_cases) auto

lemma inorder_clear [simp]: "inorder (clear_bits t) = inorder t"
  by (cases t) auto

lemma inorder_plug: "inorder (plug p t) = before p @ inorder t @ after p"
proof (induction p t rule: plug.induct)
  case (2 d bd bs x sib up t)
  then show ?case by (cases d) auto
qed simp

lemma plug_bal: "path_ok p k n \<Longrightarrow> bal t k \<Longrightarrow> bal (plug p t) n"
proof (induction p arbitrary: k t)
  case (Cons f up)
  obtain d bd bs x sib where f: "f = Frame d bd bs x sib" by (cases f)
  with Cons.prems have "bal (mk d bd bs t x sib) (k + span bd)" and "path_ok up (k + span bd) n"
    by (auto simp: Let_def)
  with Cons.IH f show ?case by simp
qed simp

lemma bal_plugD: "bal (plug p t) n \<Longrightarrow> \<exists>k. bal t k \<and> path_ok p k n"
proof (induction p t rule: plug.induct)
  case (2 d bd bs x sib up t)
  then obtain m where m: "bal (mk d bd bs t x sib) m" "path_ok up m n" by auto
  then have "bal t (m - span bd)" "m - span bd + span bd = m" by auto
  moreover from m this have "path_ok (Frame d bd bs x sib # up) (m - span bd) n"
    by (auto simp: Let_def)
  ultimately show ?case by blast
qed simp

section \<open>Insertion keeps the balance\<close>

text \<open>What the rebalancing loop works on: a tree one rank too high, and its shape.\<close>

definition grown :: "'a rbt \<Rightarrow> nat \<Rightarrow> bool" where
  "grown t k \<longleftrightarrow> bal t (Suc k) \<and> (k = 0 \<or> long_left t \<noteq> long_right t)"

lemma grown_mk: "grown (mk d bd bs td x ts) k \<longleftrightarrow> bal (mk d bd bs td x ts) (Suc k) \<and> (k = 0 \<or> bd \<noteq> bs)"
  by (cases d) (auto simp: grown_def)

lemma do_insert_color_correct:
  assumes "path_ok p k n" and "grown elm k"
  shows "(bal (do_insert_color p elm) n \<or> bal (do_insert_color p elm) (Suc n))
     \<and> inorder (do_insert_color p elm) = before p @ inorder elm @ after p"
  using assms
proof (induction p arbitrary: k elm)
  case Nil
  then show ?case by (simp add: grown_def)
next
  case (Cons f up)
  obtain d be bs x sib where f: "f = Frame d be bs x sib" by (cases f)
  obtain b1 b2 t1 y t2 where elm: "elm = mk d b1 b2 t1 y t2"
    using bal_Suc_mk [of elm k d] Cons.prems(2) unfolding grown_def by blast
  note g = Cons.prems(2) [unfolded elm grown_mk]
  have p: "span bs \<le> k + span be" "bal sib (k + span be - span bs)" "path_ok up (k + span be) n"
    using Cons.prems(1) f by (auto simp: Let_def)
  consider (a) "be" | (b) "\<not> be" "\<not> bs" | (c) "\<not> be" "bs" "b1" | (e) "\<not> be" "bs" "\<not> b1" by blast
  then show ?case
  proof cases
    case a
    have "bal (plug up (mk d False bs elm x sib)) n"
      using a p g elm by (intro plug_bal [OF p(3)]) auto
    with a f show ?thesis by (cases d) (auto simp: inorder_plug)
  next
    case b
    have "grown (mk d False True elm x sib) (Suc k)"
      using b p g elm unfolding grown_mk by auto
    with Cons.IH [of "Suc k" "mk d False True elm x sib"] b p f show ?thesis by (cases d) auto
  next
    case c
    then have k: "1 \<le> k" using p(1) by simp
    then have t2: "bal t2 k" "bal t1 (k - 1)" using g c by auto
    then obtain c1 c2 u1 z u2 where ch: "t2 = mk d c1 c2 u1 z u2"
      using bal_Suc_mk [of t2 "k - 1" d] k by auto
    have "bal (plug up (mk d False False (mk d False c1 t1 y u1) z (mk d c2 False u2 x sib))) n"
      using c p t2 k ch by (intro plug_bal [OF p(3)]) auto
    with c f elm ch show ?thesis by (cases d) (auto simp: inorder_plug)
  next
    case e
    then have k: "1 \<le> k" using p(1) by simp
    then have t2: "bal t2 (k - 1)" "bal t1 k" using g e by auto
    have "bal (plug up (mk d False False t1 y (mk d False False t2 x sib))) n"
      using e p t2 k by (intro plug_bal [OF p(3)]) auto
    with e f elm show ?thesis by (cases d) (auto simp: inorder_plug)
  qed
qed

section \<open>Removal keeps the balance\<close>

definition head_sib_ok :: "'a frame list \<Rightarrow> 'a rbt \<Rightarrow> bool" where
  "head_sib_ok p elm = (case p of Frame d be bs x sib # _ \<Rightarrow> elm \<noteq> Null \<or> sib \<noteq> Null | [] \<Rightarrow> True)"

lemma remove_color_loop_correct:
  assumes "path_ok p (Suc k) n" and "bal elm k" and "head_sib_ok p elm"
  shows "(bal (remove_color_loop p elm) n \<or> bal (remove_color_loop p elm) (n - 1))
     \<and> inorder (remove_color_loop p elm) = before p @ inorder elm @ after p"
  using assms
proof (induction p arbitrary: k elm)
  case Nil
  then show ?case by auto
next
  case (Cons f up)
  obtain d be bs x sib where f: "f = Frame d be bs x sib" by (cases f)
  let ?m = "Suc k + span be"
  have p: "span bs \<le> ?m" "bal sib (?m - span bs)" "path_ok up ?m n" "elm \<noteq> Null \<or> sib \<noteq> Null"
    using Cons.prems f by (auto simp: Let_def head_sib_ok_def)
  have step: ?case if "remove_color_loop (f # up) elm = plug up t" and "bal t ?m"
    and "inorder (plug up t) = before (f # up) @ inorder elm @ after (f # up)" for t
    using that plug_bal [OF p(3)] by simp
  have again: ?case if "remove_color_loop (f # up) elm = remove_color_loop up t"
    and "bal t (k + span be)" and "t \<noteq> Null"
    and "before up @ inorder t @ after up = before (f # up) @ inorder elm @ after (f # up)" for t
    using that Cons.IH [of "k + span be" t] p(3)
    by (simp add: head_sib_ok_def split: list.splits frame.splits)
  show ?case
  proof (cases "be \<and> \<not> bs")
    case False
    then consider "\<not> be" | "be" "bs" by blast
    then show ?thesis
    proof cases
      case 1
      with f p Cons.prems(2) show ?thesis
        by (intro step [of "mk d True bs elm x sib"]; cases d) (auto simp: inorder_plug)
    next
      case 2
      with f p Cons.prems(2) show ?thesis
        by (intro again [of "mk d True False elm x sib"]; cases d) auto
    qed
  next
    case True
    then have "bal sib (Suc (Suc k))" using p by simp
    then obtain se ss sl y sr where sib: "sib = mk d se ss sl y sr" using bal_Suc_mk by blast
    have ch: "bal sl (Suc (Suc k) - span se)" "bal sr (Suc (Suc k) - span ss)"
      using \<open>bal sib (Suc (Suc k))\<close> sib by auto
    consider (a) "se" "ss" | (b) "ss" "\<not> se" | (c) "se" "\<not> ss" | (e) "\<not> se" "\<not> ss" by blast
    then show ?thesis
    proof cases
      case a
      with f sib True ch Cons.prems(2) show ?thesis
        by (intro again [of "mk d True False elm x (mk d False False sl y sr)"]; cases d) auto
    next
      case b
      then obtain ee es u1 z u2 where sl: "sl = mk d ee es u1 z u2"
        using ch(1) bal_Suc_mk [of sl k d] by auto
      with f sib True ch b Cons.prems(2) show ?thesis
        by (intro step [of "mk d True True (mk d False ee elm x u1) z (mk d es False u2 y sr)"]; cases d)
          (auto simp: inorder_plug)
    next
      case c
      with f sib True ch Cons.prems(2) show ?thesis
        by (intro step [of "mk d True True (mk d False False elm x sl) y sr"]; cases d)
          (auto simp: inorder_plug)
    next
      case e
      with f sib True ch Cons.prems(2) show ?thesis
        by (intro step [of "mk d False True (mk d True False elm x sl) y sr"]; cases d)
          (auto simp: inorder_plug)
    qed
  qed
qed

lemma remove_color_correct:
  assumes "path_ok p (Suc k) n" and "bal elm k"
  shows "(bal (remove_color p elm) n \<or> bal (remove_color p elm) (n - 1))
     \<and> inorder (remove_color p elm) = before p @ inorder elm @ after p"
proof (cases "p = [] \<or> head_sib_ok p elm")
  case True
  then show ?thesis
    using remove_color_loop_correct [OF assms] assms
    by (auto simp: remove_color_def head_sib_ok_def split: list.splits frame.splits)
next
  case False
  then obtain d be bs x up where p: "p = Frame d be bs x Null # up" "elm = Null"
    by (cases p) (auto simp: head_sib_ok_def split: frame.splits)
  then have k: "k = 0" "be = False" "bs = True"
    using assms by (auto simp: Let_def span_def split: if_splits)
  have "path_ok up (Suc (Suc 0)) n" using assms p k by (simp add: Let_def)
  moreover have "bal (mk d False False Null x Null) (Suc 0)" by simp
  moreover have "head_sib_ok up (mk d False False Null x Null)"
    by (simp add: head_sib_ok_def split: list.splits frame.splits)
  ultimately show ?thesis
    using remove_color_loop_correct [of up "Suc 0" n "mk d False False Null x Null"] p
    by (cases d) (auto simp: remove_color_def)
qed

lemma bal_1_clear: "bal r (Suc 0) \<Longrightarrow> clear_bits r = r"
  by (cases r) (auto simp: span_def split: if_splits)

lemma only_child:
  assumes "span b \<le> k" and "k - span b = 0" and "span b' \<le> k" and "bal r (k - span b')"
    and "r = Null \<longrightarrow> k = 1"
  shows "\<exists>k'. k = Suc k' \<and> bal (clear_bits r) k'"
proof (cases "r = Null")
  case True
  with assms show ?thesis by simp
next
  case False
  then have "k - span b' \<noteq> 0" using assms(4) by (metis bal_0)
  with assms have "k = 2" "b' = False" by (auto simp: span_def split: if_splits)
  with assms(4) bal_1_clear [of r] show ?thesis by simp
qed

lemma leftmost_spec:
  assumes "leftmost up bl br l x r = (p, s, c)" and "bal (Node bl br l x r) k" and "path_ok up k n"
    and "before up = []"
  shows "\<exists>k'. bal (clear_bits c) k' \<and> path_ok p (Suc k') n \<and> before p = []
           \<and> s # inorder c @ after p = inorder (Node bl br l x r) @ after up"
  using assms
proof (induction up bl br l x r arbitrary: k rule: leftmost.induct)
  case (1 up bl br x r)
  then have "\<exists>k'. k = Suc k' \<and> bal (clear_bits r) k'" by (intro only_child [of bl k br r]) auto
  with 1 show ?case by auto
next
  case (2 up bl br bl' br' l' x' r' x r)
  let ?up = "Frame RB_L bl br x r # up"
  have "path_ok ?up (k - span bl) n" using 2(3,4) by (auto simp: Let_def)
  with 2(1) [of "k - span bl"] 2(2,3,5) show ?case by simp
qed

lemma path_ok_append: "path_ok (p @ q) k n \<longleftrightarrow> (\<exists>m. path_ok p k m \<and> path_ok q m n)"
proof (induction p arbitrary: k)
  case (Cons f p)
  then show ?case by (cases f) (auto simp: Let_def)
qed simp

lemma before_append [simp]: "before (p @ q) = before q @ before p"
  by (induction p rule: before.induct) auto

lemma after_append [simp]: "after (p @ q) = after p @ after q"
  by (induction p rule: after.induct) auto

lemma rb_remove_at_correct:
  assumes "bal (Node bl br l x r) k" and "path_ok up k n"
  shows "(bal (rb_remove_at up (Node bl br l x r)) n \<or> bal (rb_remove_at up (Node bl br l x r)) (n - 1))
     \<and> inorder (rb_remove_at up (Node bl br l x r)) = before up @ inorder l @ inorder r @ after up"
proof (cases "l = Null \<or> r = Null")
  case True
  then consider "l = Null" | "l \<noteq> Null" "r = Null" by blast
  then show ?thesis
  proof cases
    case 1
    with assms obtain k' where "k = Suc k'" "bal (clear_bits r) k'"
      using only_child [of bl k br r] by auto
    with remove_color_correct [of up k' n "clear_bits r"] assms(2) 1 show ?thesis by simp
  next
    case 2
    with assms obtain k' where "k = Suc k'" "bal (clear_bits l) k'"
      using only_child [of br k bl l] by auto
    with remove_color_correct [of up k' n "clear_bits l"] assms(2) 2 show ?thesis by (cases l) auto
  qed
next
  case False
  then obtain a b c d e where l: "l = Node a b c d e" by (cases l) auto
  from False obtain bl' br' l' x' r' where r: "r = Node bl' br' l' x' r'" by (cases r) auto
  obtain p s ch where lm: "leftmost [] bl' br' l' x' r' = (p, s, ch)" by (metis prod_cases3)
  have "bal r (k - span br)" using assms(1) by simp
  with leftmost_spec [OF lm, of "k - span br" "k - span br"] r obtain k' where
    k': "bal (clear_bits ch) k'" "path_ok p (Suc k') (k - span br)" "before p = []"
      "s # inorder ch @ after p = inorder r" by auto
  have "path_ok (Frame RB_R br bl s l # up) (k - span br) n" using assms l by (auto simp: Let_def)
  with k'(2) have "path_ok (p @ Frame RB_R br bl s l # up) (Suc k') n"
    unfolding path_ok_append by blast
  from remove_color_correct [OF this k'(1)] k'(3,4) lm l r show ?thesis
    by (simp add: Let_def)
qed

section \<open>Locating a node\<close>

lemma zip_to_None: "zip_to y up t = None \<longleftrightarrow> y \<notin> set (inorder t)"
  by (induction y up t rule: zip_to.induct) (auto split: option.splits)

lemma zip_to_Some: "zip_to y up t = Some (p, sub) \<Longrightarrow> plug p sub = plug up t \<and> (\<exists>bl br l r. sub = Node bl br l y r)"
  by (induction y up t rule: zip_to.induct) (auto split: if_splits option.splits)

lemma rb_remove_correct:
  assumes "bal t n" and "y \<in> set (inorder t)"
  obtains t' m xs ys where "rb_remove y t = Some t'" and "bal t' m" and "m \<le> n" and "inorder t = xs @ y # ys"
    and "inorder t' = xs @ ys"
proof -
  obtain p sub where z: "zip_to y [] t = Some (p, sub)" using zip_to_None [of y "[]" t] assms(2) by auto
  then obtain bl br l r where sub: "sub = Node bl br l y r" "plug p sub = t"
    using zip_to_Some [OF z] by auto
  then obtain k where k: "bal sub k" "path_ok p k n" using bal_plugD [of p sub n] assms(1) by auto
  have t: "inorder t = (before p @ inorder l) @ y # (inorder r @ after p)"
    using inorder_plug [of p sub] sub by simp
  let ?t' = "rb_remove_at p sub"
  have r: "bal ?t' n \<or> bal ?t' (n - 1)" "inorder ?t' = (before p @ inorder l) @ (inorder r @ after p)"
    using rb_remove_at_correct [OF k(1) [unfolded sub(1)] k(2)] sub(1) by auto
  then obtain m where "bal ?t' m" "m \<le> n" by (metis diff_le_self order_refl)
  then show thesis using that [OF _ _ _ t r(2)] z by (simp add: rb_remove_def)
qed

section \<open>Search and insertion by comparison\<close>

text \<open>
  A comparison function suits a tree when along the in-order sequence its sign never rises: first
  the elements before the searched place, then the matching ones, then those behind.
\<close>

definition falling :: "('a \<Rightarrow> int) \<Rightarrow> 'a list \<Rightarrow> bool" where
  "falling f xs \<longleftrightarrow> sorted_wrt (\<lambda>a b. sgn (f b) \<le> sgn (f a)) xs"

lemma falling_Node:
  assumes "falling f (xs @ x # ys)"
  shows "falling f xs" and "falling f ys"
    and "f x \<ge> 0 \<Longrightarrow> a \<in> set xs \<Longrightarrow> f a \<ge> 0" and "f x > 0 \<Longrightarrow> a \<in> set xs \<Longrightarrow> f a > 0"
    and "f x \<le> 0 \<Longrightarrow> b \<in> set ys \<Longrightarrow> f b \<le> 0" and "f x < 0 \<Longrightarrow> b \<in> set ys \<Longrightarrow> f b < 0"
  using assms by (auto simp: falling_def sorted_wrt_append sgn_if split: if_splits)

lemma rb_find_correct:
  assumes "falling f (inorder t)"
  shows "case rb_find f t of Some x \<Rightarrow> x \<in> set (inorder t) \<and> f x = 0
         | None \<Rightarrow> \<forall>x\<in>set (inorder t). f x \<noteq> 0"
  using assms
proof (induction f t rule: rb_find.induct)
  case (2 f bl br l x r)
  note fall = falling_Node [OF 2(3) [unfolded inorder.simps]]
  consider (lt) "f x < 0" | (gt) "f x > 0" | (eq) "f x = 0" by linarith
  then show ?case
  proof cases
    case lt
    then have "\<forall>y\<in>set (inorder r). f y \<noteq> 0" using fall(6) by force
    with lt 2(1) fall(1) show ?thesis by (auto split: option.splits)
  next
    case gt
    then have "\<forall>y\<in>set (inorder l). f y \<noteq> 0" using fall(4) by force
    with gt 2(2) fall(2) show ?thesis by (auto split: option.splits)
  qed simp
qed simp

lemma rb_insert_walk_correct:
  assumes "path_ok up k n" and "bal t k" and "falling f (before up @ inorder t @ after up)"
    and "\<forall>x\<in>set (before up). f x > 0" and "\<forall>x\<in>set (after up). f x < 0"
  shows "(\<exists>x\<in>set (inorder t). f x = 0 \<and> rb_insert_walk f elm up t = (Some x, None))
     \<or> (\<exists>t' m xs ys. rb_insert_walk f elm up t = (None, Some t') \<and> bal t' m
          \<and> before up @ inorder t @ after up = xs @ ys \<and> inorder t' = xs @ elm # ys
          \<and> (\<forall>x\<in>set xs. f x > 0) \<and> (\<forall>y\<in>set ys. f y < 0))"
  using assms
proof (induction f elm up t arbitrary: k rule: rb_insert_walk.induct)
  case (1 f elm up)
  have "grown (Node False False Null elm Null) k" using 1(2) by (simp add: grown_def)
  from do_insert_color_correct [OF 1(1) this] 1 show ?case by auto
next
  case (2 f elm up bl br l x r)
  have fall: "falling f ((before up @ inorder l) @ x # (inorder r @ after up))" using 2(5) by simp
  consider (lt) "f x < 0" | (gt) "f x > 0" | (eq) "f x = 0" by linarith
  then show ?case
  proof cases
    case lt
    have "path_ok (Frame RB_L bl br x r # up) (k - span bl) n" "bal l (k - span bl)"
      using 2(3,4) by (auto simp: Let_def)
    with lt 2(1) [of "k - span bl"] falling_Node(6) [OF fall] fall 2(6,7) show ?thesis
      by (simp add: bex_Un) blast
  next
    case gt
    have "path_ok (Frame RB_R br bl x l # up) (k - span br) n" "bal r (k - span br)"
      using 2(3,4) by (auto simp: Let_def)
    with gt 2(2) [of "k - span br"] falling_Node(4) [OF fall] fall 2(6,7) show ?thesis
      by (simp add: bex_Un)
  next
    case eq
    then show ?thesis by simp
  qed
qed

lemma rb_insert_correct:
  assumes "bal t n" and "falling f (inorder t)"
  obtains (present) x where "x \<in> set (inorder t)" and "f x = 0" and "rb_insert f elm t = (Some x, t)"
    | (added) t' m xs ys where "rb_insert f elm t = (None, t')" and "bal t' m"
      and "inorder t = xs @ ys" and "inorder t' = xs @ elm # ys"
      and "\<forall>x\<in>set xs. f x > 0" and "\<forall>y\<in>set ys. f y < 0"
proof -
  from rb_insert_walk_correct [of "[]" n n t f elm] assms consider
    x where "x \<in> set (inorder t)" "f x = 0" "rb_insert_walk f elm [] t = (Some x, None)"
    | t' m xs ys where "rb_insert_walk f elm [] t = (None, Some t')" "bal t' m"
      "inorder t = xs @ ys" "inorder t' = xs @ elm # ys" "\<forall>x\<in>set xs. f x > 0" "\<forall>y\<in>set ys. f y < 0"
    by auto
  then show thesis
  proof cases
    case 1
    then show thesis by (intro present) (auto simp: rb_insert_def)
  next
    case 2
    then show thesis by (intro added) (auto simp: rb_insert_def)
  qed
qed

section \<open>Traversal\<close>

text \<open>The first, the next and the previous element are those of the in-order sequence.\<close>

lemma rb_min_inorder: "rb_min t = (case inorder t of [] \<Rightarrow> None | x # _ \<Rightarrow> Some x)"
  by (induction t) (auto split: list.splits option.splits)

lemma rb_max_inorder: "rb_max t = (if inorder t = [] then None else Some (last (inorder t)))"
  by (induction t) (auto split: option.splits if_splits)

lemma up_next_after: "up_next up = (case after up of [] \<Rightarrow> None | x # _ \<Rightarrow> Some x)"
proof (induction up rule: up_next.induct)
  case (2 d bd bs x sib up)
  then show ?case by (cases d) auto
qed simp

lemma up_prev_before: "up_prev up = (if before up = [] then None else Some (last (before up)))"
proof (induction up rule: up_prev.induct)
  case (2 d bd bs x sib up)
  then show ?case by (cases d) auto
qed simp

lemma zip_to_split:
  assumes "y \<in> set (inorder t)"
  obtains up bl br l r where "zip_to y [] t = Some (up, Node bl br l y r)"
    and "inorder t = (before up @ inorder l) @ y # (inorder r @ after up)"
proof -
  obtain p sub where z: "zip_to y [] t = Some (p, sub)" using zip_to_None [of y "[]" t] assms by auto
  then obtain bl br l r where sub: "sub = Node bl br l y r" "plug p sub = t"
    using zip_to_Some [OF z] by auto
  from that [OF z [unfolded sub(1)]] inorder_plug [of p sub] sub show thesis by simp
qed

lemma rb_neighbours:
  assumes "y \<in> set (inorder t)" and "distinct (inorder t)"
  obtains xs ys where "inorder t = xs @ y # ys"
    and "rb_next y t = Some (case ys of [] \<Rightarrow> None | z # _ \<Rightarrow> Some z)"
    and "rb_prev y t = Some (if xs = [] then None else Some (last xs))"
proof -
  obtain up bl br l r where z: "zip_to y [] t = Some (up, Node bl br l y r)"
    and t: "inorder t = (before up @ inorder l) @ y # (inorder r @ after up)"
    by (rule zip_to_split [OF assms(1)])
  have ne: "u = Null \<longleftrightarrow> inorder u = []" for u :: "'a rbt" by (cases u) auto
  have "rb_next y t = Some (case inorder r @ after up of [] \<Rightarrow> None | z # _ \<Rightarrow> Some z)"
    using z by (auto simp: rb_next_def ne rb_min_inorder up_next_after split: list.splits)
  moreover have "rb_prev y t = Some (if before up @ inorder l = [] then None
      else Some (last (before up @ inorder l)))"
    using z by (auto simp: rb_prev_def ne rb_max_inorder up_prev_before)
  ultimately show thesis using that [OF t] by simp
qed

lemma rb_next_at:
  assumes "inorder t = xs @ y # ys" and "distinct (xs @ y # ys)"
  shows "rb_next y t = Some (case ys of [] \<Rightarrow> None | z # _ \<Rightarrow> Some z)"
proof -
  have "y \<in> set (inorder t)" "distinct (inorder t)" using assms by simp_all
  then obtain xs' ys' where n: "inorder t = xs' @ y # ys'"
    "rb_next y t = Some (case ys' of [] \<Rightarrow> None | z # _ \<Rightarrow> Some z)"
    by (rule rb_neighbours)
  have "xs @ y # ys = xs' @ y # ys'" by (rule trans [OF assms(1) [symmetric] n(1)])
  then have "ys' = ys" using assms(2) by (subst (asm) append_Cons_eq_iff) auto
  with n(2) show ?thesis by simp
qed

section \<open>Height\<close>

fun rb_height :: "'a rbt \<Rightarrow> nat" where
  "rb_height Null = 0"
| "rb_height (Node bl br l x r) = Suc (max (rb_height l) (rb_height r))"

lemma bal_height: "bal t n \<Longrightarrow> rb_height t \<le> n"
proof (induction t n rule: bal.induct)
  case (2 bl br l x r n)
  then have "rb_height l \<le> n - span bl" "rb_height r \<le> n - span br" by auto
  with 2(3) show ?case by (auto simp: span_def split: if_splits)
qed simp

lemma bal_rank: "bal t n \<Longrightarrow> rb_rank t = int n"
proof (induction t n rule: bal.induct)
  case (2 bl br l x r n)
  then have "rb_rank l = int (n - span bl)" "rb_rank r = int (n - span br)" by auto
  with 2(3) show ?case by (auto simp: Let_def span_def split: if_splits)
qed simp

lemma square_sum:
  fixes a b c :: nat
  assumes "c \<le> a\<^sup>2" and "c \<le> b\<^sup>2"
  shows "4 * c \<le> (a + b)\<^sup>2"
proof -
  have "c * c \<le> a\<^sup>2 * b\<^sup>2" using assms by (rule mult_le_mono)
  then have "c\<^sup>2 \<le> (a * b)\<^sup>2" by (simp add: power2_eq_square algebra_simps)
  then have "c \<le> a * b" by (rule power2_le_imp_le) simp
  then show ?thesis using assms by (simp add: power2_sum)
qed

lemma bal_size: "bal t n \<Longrightarrow> 2 ^ n \<le> (Suc (length (inorder t)))\<^sup>2"
proof (induction t n rule: bal.induct)
  case (2 bl br l x r n)
  have ih: "2 ^ (n - span bl) \<le> (Suc (length (inorder l)))\<^sup>2" "2 ^ (n - span br) \<le> (Suc (length (inorder r)))\<^sup>2"
    using 2 by auto
  show ?case
  proof (cases "n \<le> 1")
    case True
    then have "(2::nat) ^ n \<le> 2" by (cases n) auto
    moreover have "(2::nat) \<le> (Suc (length (inorder (Node bl br l x r))))\<^sup>2" by (simp add: power2_eq_square)
    ultimately show ?thesis by linarith
  next
    case False
    have "(2::nat) ^ (n - 2) \<le> 2 ^ (n - span b)" for b
      by (rule power_increasing) (auto simp: span_def)
    with ih have "2 ^ (n - 2) \<le> (Suc (length (inorder l)))\<^sup>2" "2 ^ (n - 2) \<le> (Suc (length (inorder r)))\<^sup>2"
      by (meson le_trans)+
    from square_sum [OF this] have "4 * 2 ^ (n - 2) \<le> (Suc (length (inorder (Node bl br l x r))))\<^sup>2"
      by simp
    moreover obtain j where "n = Suc (Suc j)" using False by (metis One_nat_def Suc_n_not_le_n not0_implies_Suc not_less_eq_eq zero_le)
    then have "(4::nat) * 2 ^ (n - 2) = 2 ^ n" by simp
    ultimately show ?thesis by simp
  qed
qed simp

section \<open>Comparison by a key\<close>

definition sign_cmp :: "'a::linorder \<Rightarrow> 'a \<Rightarrow> int" where
  "sign_cmp a b = (if a < b then - 1 else if a = b then 0 else 1)"

lemma sign_cmp_simps [simp]:
  "sign_cmp a b = 0 \<longleftrightarrow> a = b" "sign_cmp a b < 0 \<longleftrightarrow> a < b" "0 < sign_cmp a b \<longleftrightarrow> b < a"
  "0 \<le> sign_cmp a b \<longleftrightarrow> b \<le> a"
  by (auto simp: sign_cmp_def)

lemma falling_mono:
  assumes "sorted_wrt (\<lambda>a b. f a < (f b :: 'b::order)) xs"
    and "\<And>a b. a \<in> set xs \<Longrightarrow> b \<in> set xs \<Longrightarrow> f a < f b \<Longrightarrow> g a \<le> (g b :: 'c::linorder)"
  shows "falling (\<lambda>x. sign_cmp s (g x)) xs"
  unfolding falling_def
proof (rule sorted_wrt_mono_rel [OF _ assms(1)])
  fix a b assume "a \<in> set xs" "b \<in> set xs" "f a < f b"
  then have "g a \<le> g b" by (rule assms(2))
  then show "sgn (sign_cmp s (g b)) \<le> sgn (sign_cmp s (g a))" by (auto simp: sign_cmp_def)
qed

section \<open>Runs of the tree\<close>

text \<open>
  What a client sees: a sequence of insertions and removals, with elements compared by a key. The
  abstract tree is the set of its elements, in which no two have the same key.
\<close>

datatype 'a tree_op = Ins 'a | Del 'a

fun tree_run :: "('a \<Rightarrow> 'k::linorder) \<Rightarrow> 'a tree_op list \<Rightarrow> 'a rbt \<Rightarrow> 'a rbt option" where
  "tree_run key [] t = Some t"
| "tree_run key (Ins x # ops) t = tree_run key ops (snd (rb_insert (\<lambda>y. sign_cmp (key x) (key y)) x t))"
| "tree_run key (Del x # ops) t = (if x \<in> set (inorder t) then rb_remove x t \<bind> tree_run key ops
     else tree_run key ops t)"

fun set_run :: "('a \<Rightarrow> 'k) \<Rightarrow> 'a tree_op list \<Rightarrow> 'a set \<Rightarrow> 'a set" where
  "set_run key [] S = S"
| "set_run key (Ins x # ops) S = set_run key ops (if key x \<in> key ` S then S else insert x S)"
| "set_run key (Del x # ops) S = set_run key ops (S - {x})"

definition tree_ok :: "('a \<Rightarrow> 'k::linorder) \<Rightarrow> 'a rbt \<Rightarrow> bool" where
  "tree_ok key t \<longleftrightarrow> (\<exists>n. bal t n) \<and> sorted_wrt (\<lambda>a b. key a < key b) (inorder t)"

lemma tree_insert_ok:
  assumes "tree_ok key t" and "rb_insert (\<lambda>y. sign_cmp (key x) (key y)) x t = (p, t')"
  shows "tree_ok key t' \<and> set (inorder t') = (if key x \<in> key ` set (inorder t) then set (inorder t)
      else insert x (set (inorder t)))"
proof -
  obtain n where n: "bal t n" using assms(1) by (auto simp: tree_ok_def)
  have sorted: "sorted_wrt (\<lambda>a b. key a < key b) (inorder t)" using assms(1) by (simp add: tree_ok_def)
  then have "falling (\<lambda>y. sign_cmp (key x) (key y)) (inorder t)"
    by (rule falling_mono) simp
  with n show ?thesis
  proof (cases rule: rb_insert_correct [where elm = x])
    case (present y)
    then have "key x \<in> key ` set (inorder t)" by auto
    with present assms show ?thesis by simp
  next
    case (added t1 m xs ys)
    then have "key x \<notin> key ` set (inorder t)" by (auto simp: image_iff)
    moreover have "tree_ok key t1" using added sorted by (auto simp: tree_ok_def sorted_wrt_append)
    ultimately show ?thesis using added assms(2) by auto
  qed
qed

lemma tree_remove_ok:
  assumes "tree_ok key t" and "x \<in> set (inorder t)"
  obtains t' where "rb_remove x t = Some t'" and "tree_ok key t'" and "set (inorder t') = set (inorder t) - {x}"
proof -
  obtain n where n: "bal t n" using assms(1) by (auto simp: tree_ok_def)
  obtain t' m xs ys where r: "rb_remove x t = Some t'" "bal t' m" "m \<le> n" "inorder t = xs @ x # ys"
      "inorder t' = xs @ ys"
    by (rule rb_remove_correct [OF n assms(2)])
  have sorted: "sorted_wrt (\<lambda>a b. key a < key b) (inorder t)" using assms(1) by (simp add: tree_ok_def)
  then have "tree_ok key t'" using r by (auto simp: tree_ok_def sorted_wrt_append)
  moreover have "set (inorder t') = set (inorder t) - {x}"
    using sorted unfolding r(4,5) by (auto simp: sorted_wrt_append)
  ultimately show thesis using r(1) that by blast
qed

lemma tree_run_ok:
  "tree_ok key t \<Longrightarrow> \<exists>t'. tree_run key ops t = Some t' \<and> tree_ok key t'
     \<and> set (inorder t') = set_run key ops (set (inorder t))"
proof (induction key ops t rule: tree_run.induct)
  case (2 key x ops t)
  obtain p t1 where t1: "rb_insert (\<lambda>y. sign_cmp (key x) (key y)) x t = (p, t1)" by fastforce
  from tree_insert_ok [OF "2.prems" t1] 2 t1 show ?case by simp
next
  case (3 key x ops t)
  show ?case
  proof (cases "x \<in> set (inorder t)")
    case True
    obtain t1 where "rb_remove x t = Some t1" "tree_ok key t1" "set (inorder t1) = set (inorder t) - {x}"
      by (rule tree_remove_ok [OF "3.prems" True])
    with "3.IH"(1) [OF True, of t1] True show ?thesis by simp
  next
    case False
    with 3 show ?thesis by simp
  qed
qed simp

section \<open>Properties\<close>

text \<open>
  C10: Every sequence of insertions and removals gives a tree that implements the abstract set: no
  operation stops, the tree holds exactly the elements of the set, in strictly rising order of their
  keys, and it satisfies the rank rules, so that its height is at most twice the logarithm of its
  size, and the checker \<open>RB_RANK\<close> of the source accepts it.
\<close>

theorem tree_run_refines_set:
  "\<exists>t. tree_run key ops Null = Some t \<and> set (inorder t) = set_run key ops {}
     \<and> sorted_wrt (\<lambda>a b. key a < key b) (inorder t)
     \<and> 2 ^ rb_height t \<le> (Suc (length (inorder t)))\<^sup>2 \<and> 0 \<le> rb_rank t"
proof -
  have "tree_ok key Null" by (simp add: tree_ok_def)
  from tree_run_ok [OF this, of ops] obtain t where t: "tree_run key ops Null = Some t" "tree_ok key t"
      "set (inorder t) = set_run key ops {}" by auto
  then obtain n where n: "bal t n" by (auto simp: tree_ok_def)
  have "(2::nat) ^ rb_height t \<le> 2 ^ n" using bal_height [OF n] by simp
  also have "\<dots> \<le> (Suc (length (inorder t)))\<^sup>2" by (rule bal_size [OF n])
  finally show ?thesis using t bal_rank [OF n] by (auto simp: tree_ok_def)
qed

end
