(* ===== verification/Vsock_Hdr.thy ===== *)
theory Vsock_Hdr
  imports Netbuf
begin

text \<open>
  The packet header of the virtio socket device (\<open>drivers/virtio/vsock/include/virtio/virtio_vsock.h\<close>):
  a packed little-endian struct of 44 bytes at the front of every packet. The driver reads and
  writes it through a pointer into the netbuf; the model encodes and decodes the bytes. The lemmas
  show the layout and that decoding undoes encoding.
\<close>

unbundle bit_operations_syntax

section \<open>Data\<close>

record virtio_vsock_hdr =
  h_src_cid :: u64
  h_dst_cid :: u64
  h_src_port :: u32
  h_dst_port :: u32
  h_len :: u32
  h_type :: u16
  h_op :: u16
  h_flags :: u32
  h_buf_alloc :: u32
  h_fwd_cnt :: u32

abbreviation VIRTIO_VSOCK_OP_REQUEST :: u16 where "VIRTIO_VSOCK_OP_REQUEST \<equiv> 1"
abbreviation VIRTIO_VSOCK_OP_RESPONSE :: u16 where "VIRTIO_VSOCK_OP_RESPONSE \<equiv> 2"
abbreviation VIRTIO_VSOCK_OP_RST :: u16 where "VIRTIO_VSOCK_OP_RST \<equiv> 3"
abbreviation VIRTIO_VSOCK_OP_SHUTDOWN :: u16 where "VIRTIO_VSOCK_OP_SHUTDOWN \<equiv> 4"
abbreviation VIRTIO_VSOCK_OP_RW :: u16 where "VIRTIO_VSOCK_OP_RW \<equiv> 5"
abbreviation VIRTIO_VSOCK_OP_CREDIT_UPDATE :: u16 where "VIRTIO_VSOCK_OP_CREDIT_UPDATE \<equiv> 6"
abbreviation VIRTIO_VSOCK_OP_CREDIT_REQUEST :: u16 where "VIRTIO_VSOCK_OP_CREDIT_REQUEST \<equiv> 7"

abbreviation VIRTIO_VSOCK_SHUTDOWN_F_RECEIVE :: u32 where "VIRTIO_VSOCK_SHUTDOWN_F_RECEIVE \<equiv> 1"
abbreviation VIRTIO_VSOCK_SHUTDOWN_F_SEND :: u32 where "VIRTIO_VSOCK_SHUTDOWN_F_SEND \<equiv> 2"

abbreviation VIRTIO_VSOCK_TYPE_STREAM :: u16 where "VIRTIO_VSOCK_TYPE_STREAM \<equiv> 1"
abbreviation VIRTIO_VSOCK_TYPE_SEQPACKET :: u16 where "VIRTIO_VSOCK_TYPE_SEQPACKET \<equiv> 2"

definition sizeof_hdr :: nat where "sizeof_hdr = 44"

section \<open>Little-endian bytes\<close>

fun le_bytes :: "nat \<Rightarrow> 'a::len word \<Rightarrow> u8 list" where
  "le_bytes 0 w = []"
| "le_bytes (Suc n) w = ucast w # le_bytes n (drop_bit 8 w)"

fun of_le :: "u8 list \<Rightarrow> 'a::len word" where
  "of_le [] = 0"
| "of_le (b # bs) = ucast b OR push_bit 8 (of_le bs)"

lemma le_bytes_length [simp]: "length (le_bytes n w) = n"
  by (induction n arbitrary: w) auto

lemma of_le_le_bytes: "(of_le (le_bytes n w) :: 'a::len word) = take_bit (8 * n) w"
proof (induction n arbitrary: w)
  case (Suc n)
  show ?case
  proof (rule bit_word_eqI)
    fix i assume "i < LENGTH('a)"
    then show "bit (of_le (le_bytes (Suc n) w) :: 'a word) i = bit (take_bit (8 * Suc n) w) i"
      by (auto simp: Suc bit_simps not_less)
  qed
qed simp

section \<open>Encoding and decoding\<close>

definition encode_hdr :: "virtio_vsock_hdr \<Rightarrow> u8 list" where
  "encode_hdr h = le_bytes 8 (h_src_cid h) @ le_bytes 8 (h_dst_cid h) @ le_bytes 4 (h_src_port h)
     @ le_bytes 4 (h_dst_port h) @ le_bytes 4 (h_len h) @ le_bytes 2 (h_type h) @ le_bytes 2 (h_op h)
     @ le_bytes 4 (h_flags h) @ le_bytes 4 (h_buf_alloc h) @ le_bytes 4 (h_fwd_cnt h)"

definition field :: "nat \<Rightarrow> nat \<Rightarrow> u8 list \<Rightarrow> 'a::len word" where
  "field pos n bs = of_le (take n (drop pos bs))"

definition decode_hdr :: "u8 list \<Rightarrow> virtio_vsock_hdr" where
  "decode_hdr bs = \<lparr>h_src_cid = field 0 8 bs, h_dst_cid = field 8 8 bs, h_src_port = field 16 4 bs,
     h_dst_port = field 20 4 bs, h_len = field 24 4 bs, h_type = field 28 2 bs, h_op = field 30 2 bs,
     h_flags = field 32 4 bs, h_buf_alloc = field 36 4 bs, h_fwd_cnt = field 40 4 bs\<rparr>"

lemma encode_hdr_length [simp]: "length (encode_hdr h) = sizeof_hdr"
  by (simp add: encode_hdr_def sizeof_hdr_def)

lemma decode_encode_hdr: "decode_hdr (encode_hdr h @ rest) = h"
  by (cases h) (simp add: decode_hdr_def encode_hdr_def field_def of_le_le_bytes take_bit_word_eq_self)

lemma le_bytes_of_le:
  "length bs = n \<Longrightarrow> 8 * n \<le> LENGTH('a::len) \<Longrightarrow> le_bytes n (of_le bs :: 'a word) = bs"
proof (induction n arbitrary: bs)
  case (Suc n)
  then obtain b bs' where bs: "bs = b # bs'" "length bs' = n" by (auto simp: length_Suc_conv)
  have low: "(ucast (ucast b OR push_bit 8 (of_le bs' :: 'a word)) :: u8) = b"
    using Suc.prems(2) by (intro bit_word_eqI) (auto simp: bit_simps)
  have "take_bit (8 * n) (of_le bs' :: 'a word) = of_le bs'"
    using Suc.IH [OF bs(2)] of_le_le_bytes [of n "of_le bs' :: 'a word"] Suc.prems(2) by simp
  then have small: "i < 8 * n" if "bit (of_le bs' :: 'a word) i" for i
    using that by (metis bit_take_bit_iff)
  have "drop_bit 8 (ucast b OR push_bit 8 (of_le bs' :: 'a word)) = of_le bs'"
  proof (rule bit_word_eqI)
    fix i assume "i < LENGTH('a)"
    have "\<not> bit b (8 + i)" using bit_imp_le_length [of b "8 + i"] by auto
    moreover have "8 + i < LENGTH('a)" if "bit (of_le bs' :: 'a word) i"
      using small [OF that] Suc.prems(2) by simp
    ultimately show "bit (drop_bit 8 (ucast b OR push_bit 8 (of_le bs' :: 'a word))) i = bit (of_le bs' :: 'a word) i"
      by (auto simp: bit_simps)
  qed
  with Suc bs low show ?case by simp
qed simp

lemma le_bytes_field:
  "pos + n \<le> length bs \<Longrightarrow> 8 * n \<le> LENGTH('a::len) \<Longrightarrow> le_bytes n (field pos n bs :: 'a word) = take n (drop pos bs)"
  unfolding field_def by (rule le_bytes_of_le) simp_all

section \<open>Properties\<close>



end
