(* ===== verification/Vsock_State.thy ===== *)
theory Vsock_State
  imports Vsock_Buffer Virtqueue Rbtree Vsock_Hdr
begin

text \<open>
  The state that the socket layer (\<open>lib/ukvsockdev\<close>) and the virtio driver
  (\<open>drivers/virtio/vsock\<close>) share: socket addresses and their comparison, the socket objects, the
  tree of sockets with an address, the event masks of the POSIX sockets, the memory allocator and
  the device with its three queues. One record, \<open>vsock_world\<close>, holds it; operations take it and
  return it.

  Sockets are objects named by numbers, so that the tree, the accept path and the POSIX layer can
  share them; access to an object that was freed stops. The environment is part of the record as
  well: \<open>w_v2p\<close> is the address translation, \<open>w_host\<close> and \<open>w_host_ev\<close> what the device does to a queue
  while the guest yields or enables interrupts, at the \<open>n\<close>-th occasion, \<open>w_dma\<close> the bytes that the device
  has written to the \<open>n\<close>-th buffer it hands back, and \<open>w_pm_sysmigration\<close> the result of the power
  management library. The buffers of the event queue are named by their address.
\<close>

section \<open>Addresses\<close>

record uk_vsockaddr =
  a_cid :: u32
  a_port :: u32

abbreviation UK_VSOCK_CID_ANY :: u32 where "UK_VSOCK_CID_ANY \<equiv> - 1"
abbreviation UK_VSOCK_PORT_ANY :: u32 where "UK_VSOCK_PORT_ANY \<equiv> - 1"

definition any_addr :: uk_vsockaddr where
  "any_addr = \<lparr>a_cid = UK_VSOCK_CID_ANY, a_port = UK_VSOCK_PORT_ANY\<rparr>"

definition MASK_LOCAL_CID :: nat where "MASK_LOCAL_CID = 0"
definition MASK_LOCAL_PORT :: nat where "MASK_LOCAL_PORT = 1"
definition MASK_PEER_CID :: nat where "MASK_PEER_CID = 2"
definition MASK_PEER_PORT :: nat where "MASK_PEER_PORT = 3"

record uk_vsock_conn_id =
  ci_type :: int
  ci_local :: uk_vsockaddr
  ci_peer :: uk_vsockaddr
  ci_mask :: "nat set"

text \<open>One use of the macro \<open>CMP_ID\<close>: a decision, or the comparison goes on.\<close>

definition CMP_ID :: "u32 \<Rightarrow> u32 \<Rightarrow> bool \<Rightarrow> int \<Rightarrow> int" where
  "CMP_ID x y masked rest = (
     if x \<noteq> y \<and> \<not> masked then (if x < y then - 1 else 1) else rest)"

definition uk_vsock_sockaddr_cmp :: "uk_vsock_conn_id \<Rightarrow> uk_vsock_conn_id \<Rightarrow> int" where
  "uk_vsock_sockaddr_cmp a b = (
     if ci_type a \<noteq> ci_type b then (if ci_type a < ci_type b then - 1 else 1)
     else let masked = (\<lambda>m. m \<in> ci_mask a \<or> m \<in> ci_mask b) in
       CMP_ID (a_cid (ci_local a)) (a_cid (ci_local b)) (masked MASK_LOCAL_CID)
      (CMP_ID (a_port (ci_local a)) (a_port (ci_local b)) (masked MASK_LOCAL_PORT)
      (CMP_ID (a_cid (ci_peer a)) (a_cid (ci_peer b)) (masked MASK_PEER_CID)
      (CMP_ID (a_port (ci_peer a)) (a_port (ci_peer b)) (masked MASK_PEER_PORT) 0))))"

section \<open>Sockets\<close>

datatype uk_vsock_state =
    UK_VSOCK_STATE_READY
  | UK_VSOCK_STATE_CLOSED
  | UK_VSOCK_STATE_BOUND
  | UK_VSOCK_STATE_WAIT_CONNECT
  | UK_VSOCK_STATE_LISTENING
  | UK_VSOCK_STATE_OPEN

text \<open>The values of the enumeration, in the order of its declaration.\<close>

fun state_value :: "uk_vsock_state \<Rightarrow> u16" where
  "state_value UK_VSOCK_STATE_READY = 0"
| "state_value UK_VSOCK_STATE_CLOSED = 1"
| "state_value UK_VSOCK_STATE_BOUND = 2"
| "state_value UK_VSOCK_STATE_WAIT_CONNECT = 3"
| "state_value UK_VSOCK_STATE_LISTENING = 4"
| "state_value UK_VSOCK_STATE_OPEN = 5"

record uk_vsock_accept_entry =
  ae_peer :: uk_vsockaddr

record virtio_vsock_accept_entry = uk_vsock_accept_entry +
  ae_peer_buf_alloc :: u32
  ae_peer_fwd_count :: u32

record uk_vsock =
  s_state :: uk_vsock_state
  s_rx_shutdown :: bool
  s_tx_shutdown :: bool
  s_so_error :: int
  s_sock_type :: int
  s_local_addr :: uk_vsockaddr
  s_peer_addr :: uk_vsockaddr
  s_rx :: uk_vsock_buffer
  s_accept_queue :: "virtio_vsock_accept_entry list"
  s_accept_queue_length :: int
  s_accept_queue_limit :: int
  s_posix_sock :: "nat option"

record virtio_vsock = uk_vsock +
  v_type :: u16
  v_peer_buf_alloc :: u32
  v_peer_fwd_count :: u32
  v_tx_count :: u32

definition uk_vsock_sockaddr_key :: "'a uk_vsock_scheme \<Rightarrow> uk_vsock_conn_id" where
  "uk_vsock_sockaddr_key sock = \<lparr>ci_type = s_sock_type sock, ci_local = s_local_addr sock,
     ci_peer = s_peer_addr sock, ci_mask = {}\<rparr>"

text \<open>
  \<open>uk_vsock_init\<close>: a cleared socket with a receive buffer. The driver part of the object is set by
  the driver afterwards.
\<close>

definition uk_vsock_init :: "ukalloc \<Rightarrow> int \<Rightarrow> int \<times> uk_vsock option \<times> ukalloc" where
  "uk_vsock_init a sock_type = (
     let (rc, b, a) = uk_vsock_buffer_init a 4096 in
     case b of
       None \<Rightarrow> (rc, None, a)
     | Some b \<Rightarrow>
         (0, Some \<lparr>s_state = UK_VSOCK_STATE_READY, s_rx_shutdown = False, s_tx_shutdown = False,
                   s_so_error = 0, s_sock_type = sock_type,
                   s_local_addr = \<lparr>a_cid = 0, a_port = 0\<rparr>, s_peer_addr = \<lparr>a_cid = 0, a_port = 0\<rparr>,
                   s_rx = b, s_accept_queue = [], s_accept_queue_length = 0,
                   s_accept_queue_limit = 0, s_posix_sock = None\<rparr>, a))"

abbreviation SOCK_STREAM :: int where "SOCK_STREAM \<equiv> 1"
abbreviation SOCK_SEQPACKET :: int where "SOCK_SEQPACKET \<equiv> 5"

abbreviation EPOLLIN :: u32 where "EPOLLIN \<equiv> 1"
abbreviation EPOLLOUT :: u32 where "EPOLLOUT \<equiv> 4"
abbreviation EPOLLERR :: u32 where "EPOLLERR \<equiv> 8"
abbreviation EPOLLHUP :: u32 where "EPOLLHUP \<equiv> 16"
abbreviation EPOLLRDHUP :: u32 where "EPOLLRDHUP \<equiv> 8192"

section \<open>The device\<close>

text \<open>\<open>(65535 >> PAGE_SHIFT) + 2\<close> segments for one packet.\<close>

definition VSOCK_MAX_FRAGMENTS :: nat where
  "VSOCK_MAX_FRAGMENTS = 65535 div PAGE_SIZE + 2"

definition VTVSOCK_INTR_EN :: u8 where "VTVSOCK_INTR_EN = 1"
definition VTVSOCK_INTR_USR_EN :: u8 where "VTVSOCK_INTR_USR_EN = 2"

record 'c virtio_vsockdev_queue =
  q_vq :: "'c virtqueue_vring"
  q_nb_desc :: u16
  q_intr_enabled :: u8
  q_sg :: uk_sglist

record virtio_vsockdev =
  d_cid :: u32
  d_rx :: "uk_netbuf virtio_vsockdev_queue"
  d_tx :: "uk_netbuf virtio_vsockdev_queue"
  d_ev :: "nat virtio_vsockdev_queue"

section \<open>The world\<close>

record vsock_world =
  w_socks :: "nat \<rightharpoonup> virtio_vsock"
  w_next_sock :: nat
  w_sockets :: "nat rbt"
  w_port_alloc_next :: u32
  w_events :: "nat \<Rightarrow> u32"
  w_alloc :: ukalloc
  w_live_netbufs :: nat
  w_main_dev :: bool
  w_dev :: virtio_vsockdev
  w_v2p :: "nat \<Rightarrow> nat"
  w_host :: "nat \<Rightarrow> uk_netbuf virtqueue_vring \<Rightarrow> uk_netbuf virtqueue_vring"
  w_host_ev :: "nat \<Rightarrow> nat virtqueue_vring \<Rightarrow> nat virtqueue_vring"
  w_time :: nat
  w_dma :: "nat \<Rightarrow> u8 list"
  w_dma_count :: nat
  w_pm_sysmigration :: int

text \<open>Access to a socket object.\<close>

definition sock_get :: "nat \<Rightarrow> vsock_world \<Rightarrow> virtio_vsock option" where
  "sock_get sid w = w_socks w sid"

definition sock_put :: "nat \<Rightarrow> virtio_vsock \<Rightarrow> vsock_world \<Rightarrow> vsock_world" where
  "sock_put sid s w = w\<lparr>w_socks := (w_socks w)(sid \<mapsto> s)\<rparr>"

definition sock_upd :: "nat \<Rightarrow> (virtio_vsock \<Rightarrow> virtio_vsock) \<Rightarrow> vsock_world \<Rightarrow> vsock_world option" where
  "sock_upd sid f w = do {
     s \<leftarrow> w_socks w sid;
     Some (sock_put sid (f s) w)
   }"

text \<open>Events of the POSIX socket; without one the access is to the null pointer.\<close>

definition posix_sock_event_set :: "nat option \<Rightarrow> u32 \<Rightarrow> vsock_world \<Rightarrow> vsock_world option" where
  "posix_sock_event_set ps events w = (case ps of
     None \<Rightarrow> None
   | Some p \<Rightarrow> Some (w\<lparr>w_events := (w_events w)(p := w_events w p OR events)\<rparr>))"

definition posix_sock_event_clear :: "nat option \<Rightarrow> u32 \<Rightarrow> vsock_world \<Rightarrow> vsock_world option" where
  "posix_sock_event_clear ps events w = (case ps of
     None \<Rightarrow> None
   | Some p \<Rightarrow> Some (w\<lparr>w_events := (w_events w)(p := w_events w p AND NOT events)\<rparr>))"

section \<open>The tree of sockets\<close>

definition key_of :: "vsock_world \<Rightarrow> nat \<Rightarrow> uk_vsock_conn_id" where
  "key_of w sid = uk_vsock_sockaddr_key (the (w_socks w sid))"

definition uk_vsockets_FIND :: "uk_vsock_conn_id \<Rightarrow> vsock_world \<Rightarrow> nat option" where
  "uk_vsockets_FIND search w = rb_find (\<lambda>x. uk_vsock_sockaddr_cmp search (key_of w x)) (w_sockets w)"

definition uk_vsockets_INSERT :: "nat \<Rightarrow> vsock_world \<Rightarrow> nat option \<times> vsock_world" where
  "uk_vsockets_INSERT sid w = (
     let (present, t) = rb_insert (\<lambda>x. uk_vsock_sockaddr_cmp (key_of w sid) (key_of w x)) sid (w_sockets w)
     in (present, w\<lparr>w_sockets := t\<rparr>))"

definition uk_vsockets_REMOVE :: "nat \<Rightarrow> vsock_world \<Rightarrow> vsock_world option" where
  "uk_vsockets_REMOVE sid w = do {
     t \<leftarrow> rb_remove sid (w_sockets w);
     Some (w\<lparr>w_sockets := t\<rparr>)
   }"

text \<open>\<open>RB_REINSERT\<close> moves a node whose key changed, unless it still fits between its neighbours.\<close>

definition uk_vsockets_REINSERT :: "nat \<Rightarrow> vsock_world \<Rightarrow> (nat option \<times> vsock_world) option" where
  "uk_vsockets_REINSERT sid w = do {
     p \<leftarrow> rb_prev sid (w_sockets w);
     n \<leftarrow> rb_next sid (w_sockets w);
     let cmp = (\<lambda>a b. uk_vsock_sockaddr_cmp (key_of w a) (key_of w b));
     if (case p of Some c \<Rightarrow> cmp c sid \<ge> 0 | None \<Rightarrow> False)
        \<or> (case n of Some c \<Rightarrow> cmp sid c \<ge> 0 | None \<Rightarrow> False)
     then do {
       w \<leftarrow> uk_vsockets_REMOVE sid w;
       Some (uk_vsockets_INSERT sid w)
     }
     else Some (None, w)
   }"

section \<open>The driver interface\<close>

text \<open>
  The operations a driver offers (\<open>struct uk_vsockdev_ops\<close> of \<open>include/uk/vsockdev_core.h\<close>), with the
  memory they change made explicit. The result of \<open>create\<close> and \<open>accept\<close> has the new socket.
\<close>

record uk_vsockdev_ops =
  op_get_cid :: "vsock_world \<Rightarrow> u32"
  op_create :: "int \<Rightarrow> int \<Rightarrow> vsock_world \<Rightarrow> (int \<times> nat option \<times> vsock_world) option"
  op_accept :: "nat \<Rightarrow> virtio_vsock_accept_entry \<Rightarrow> vsock_world \<Rightarrow> (int \<times> nat option \<times> vsock_world) option"
  op_free_accept_entry :: "nat \<Rightarrow> virtio_vsock_accept_entry \<Rightarrow> vsock_world \<Rightarrow> vsock_world"
  op_send :: "nat \<Rightarrow> u8 list \<Rightarrow> vsock_world \<Rightarrow> (int \<times> vsock_world) option"
  op_connect :: "nat \<Rightarrow> vsock_world \<Rightarrow> (int \<times> vsock_world) option"
  op_shutdown :: "nat \<Rightarrow> bool \<Rightarrow> bool \<Rightarrow> vsock_world \<Rightarrow> (int \<times> vsock_world) option"
  op_reset :: "nat \<Rightarrow> vsock_world \<Rightarrow> (int \<times> vsock_world) option"
  op_destroy :: "nat \<Rightarrow> vsock_world \<Rightarrow> (int \<times> vsock_world) option"
  op_send_credit_update :: "nat \<Rightarrow> vsock_world \<Rightarrow> (int \<times> vsock_world) option"

end
