(* ===== verification/Vsock_Table.thy ===== *)
theory Vsock_Table
  imports Vsock_State "HOL-Library.Product_Lexorder"
begin

text \<open>
  The tree of sockets as a table. The comparison of \<open>vsock.c\<close> with masks is not an order on all
  addresses; the lemmas here show what the code relies on: without masks it is the lexicographic
  order of type, local and peer address, and as long as all sockets of the tree have the CID of the
  device, a search that masks the local CID, or everything but type and local port, finds a
  matching socket exactly when there is one. The invariant \<open>table_inv\<close> says so, and insertion and
  removal keep it.
\<close>

section \<open>The order of addresses\<close>

definition key_tuple :: "uk_vsock_conn_id \<Rightarrow> int \<times> u32 \<times> u32 \<times> u32 \<times> u32" where
  "key_tuple k = (ci_type k, a_cid (ci_local k), a_port (ci_local k), a_cid (ci_peer k), a_port (ci_peer k))"

lemma addr_eq_iff: "(a :: uk_vsockaddr) = b \<longleftrightarrow> a_cid a = a_cid b \<and> a_port a = a_port b"
  by (cases a; cases b) simp

lemma key_tuple_inj:
  "ci_mask a = {} \<Longrightarrow> ci_mask b = {} \<Longrightarrow> key_tuple a = key_tuple b \<longleftrightarrow> a = b"
  by (cases a; cases b) (auto simp: key_tuple_def addr_eq_iff)

lemma cmp_exact:
  "ci_mask a = {} \<Longrightarrow> ci_mask b = {} \<Longrightarrow>
     uk_vsock_sockaddr_cmp a b = sign_cmp (key_tuple a) (key_tuple b)"
  by (auto simp: uk_vsock_sockaddr_cmp_def CMP_ID_def sign_cmp_def key_tuple_def less_prod_def' Let_def)

lemma cmp_any_local_cid:
  assumes "ci_mask a = {MASK_LOCAL_CID}" and "ci_mask b = {}" and "a_cid (ci_local b) = c"
  shows "uk_vsock_sockaddr_cmp a b = sign_cmp
    (key_tuple (a\<lparr>ci_local := (ci_local a)\<lparr>a_cid := c\<rparr>\<rparr>)) (key_tuple b)"
  using assms
  by (auto simp: uk_vsock_sockaddr_cmp_def CMP_ID_def sign_cmp_def key_tuple_def less_prod_def' Let_def
      MASK_LOCAL_CID_def MASK_LOCAL_PORT_def MASK_PEER_CID_def MASK_PEER_PORT_def)

definition type_port :: "uk_vsock_conn_id \<Rightarrow> int \<times> u32" where
  "type_port k = (ci_type k, a_port (ci_local k))"

lemma cmp_port_only:
  assumes "ci_mask a = {MASK_LOCAL_CID, MASK_PEER_CID, MASK_PEER_PORT}" and "ci_mask b = {}"
  shows "uk_vsock_sockaddr_cmp a b = sign_cmp (type_port a) (type_port b)"
  using assms
  by (auto simp: uk_vsock_sockaddr_cmp_def CMP_ID_def sign_cmp_def type_port_def less_prod_def' Let_def
      MASK_LOCAL_CID_def MASK_LOCAL_PORT_def MASK_PEER_CID_def MASK_PEER_PORT_def)

lemma key_of_mask [simp]: "ci_mask (key_of w sid) = {}"
  by (simp add: key_of_def uk_vsock_sockaddr_key_def)

section \<open>The table\<close>

definition table_ids :: "vsock_world \<Rightarrow> nat list" where
  "table_ids w = inorder (w_sockets w)"

definition table_inv :: "vsock_world \<Rightarrow> bool" where
  "table_inv w \<longleftrightarrow> (\<exists>n. bal (w_sockets w) n)
     \<and> sorted_wrt (\<lambda>a b. key_tuple (key_of w a) < key_tuple (key_of w b)) (table_ids w)
     \<and> (\<forall>sid\<in>set (table_ids w). w_socks w sid \<noteq> None
          \<and> a_cid (ci_local (key_of w sid)) = d_cid (w_dev w))"

lemma table_invD:
  assumes "table_inv w"
  shows "\<exists>n. bal (w_sockets w) n"
    and "sorted_wrt (\<lambda>a b. key_tuple (key_of w a) < key_tuple (key_of w b)) (table_ids w)"
    and "sid \<in> set (table_ids w) \<Longrightarrow> w_socks w sid \<noteq> None"
    and "sid \<in> set (table_ids w) \<Longrightarrow> a_cid (ci_local (key_of w sid)) = d_cid (w_dev w)"
  using assms by (auto simp: table_inv_def)

lemma sorted_wrt_less_distinct:
  "sorted_wrt (\<lambda>a b. f a < (f b :: 'b::order)) xs \<Longrightarrow> distinct xs"
  by (induction xs) auto

lemma table_distinct: "table_inv w \<Longrightarrow> distinct (table_ids w)"
  using sorted_wrt_less_distinct [of "\<lambda>a. key_tuple (key_of w a)"] table_invD(2) by blast

lemma table_falling:
  assumes "table_inv w"
  shows "falling (\<lambda>x. sign_cmp s (key_tuple (key_of w x))) (table_ids w)"
  using table_invD(2) [OF assms] by (rule falling_mono) auto

lemma table_falling_port:
  assumes "table_inv w"
  shows "falling (\<lambda>x. sign_cmp s (type_port (key_of w x))) (table_ids w)"
  using table_invD(2) [OF assms]
proof (rule falling_mono)
  fix a b assume "a \<in> set (table_ids w)" "b \<in> set (table_ids w)"
    "key_tuple (key_of w a) < key_tuple (key_of w b)"
  then show "type_port (key_of w a) \<le> type_port (key_of w b)"
    using table_invD(4) [OF assms, of a] table_invD(4) [OF assms, of b]
    by (auto simp: key_tuple_def type_port_def less_prod_def' less_eq_prod_def)
qed

text \<open>A search finds an element that matches, exactly when there is one.\<close>

lemma find_correct:
  assumes "falling f (table_ids w)" and "\<And>x. x \<in> set (table_ids w) \<Longrightarrow>
      uk_vsock_sockaddr_cmp search (key_of w x) = f x"
  shows "case uk_vsockets_FIND search w of Some x \<Rightarrow> x \<in> set (table_ids w) \<and> f x = 0
         | None \<Rightarrow> \<forall>x\<in>set (table_ids w). f x \<noteq> 0"
proof -
  have "rb_find (\<lambda>x. uk_vsock_sockaddr_cmp search (key_of w x)) t = rb_find f t"
    if "set (inorder t) \<subseteq> set (table_ids w)" for t
    using that assms(2) by (induction f t rule: rb_find.induct) auto
  then have "uk_vsockets_FIND search w = rb_find f (w_sockets w)"
    by (simp add: uk_vsockets_FIND_def table_ids_def)
  with rb_find_correct [of f "w_sockets w"] assms(1) show ?thesis
    unfolding table_ids_def by simp
qed

lemma table_key_inj:
  assumes "table_inv w" and "x \<in> set (table_ids w)" and "y \<in> set (table_ids w)"
    and "key_of w x = key_of w y"
  shows "x = y"
proof (rule ccontr)
  assume "x \<noteq> y"
  with assms(2,3) obtain i j where ij: "i < length (table_ids w)" "j < length (table_ids w)"
    "table_ids w ! i = x" "table_ids w ! j = y" "i \<noteq> j" by (metis in_set_conv_nth)
  note less = sorted_wrt_nth_less [OF table_invD(2) [OF assms(1)]]
  from ij(5) show False
  proof (cases "i < j")
    case True
    from less [OF this ij(2)] ij(3,4) assms(4) show False by simp
  next
    case False
    then have "j < i" using ij(5) by simp
    from less [OF this ij(1)] ij(3,4) assms(4) show False by simp
  qed
qed

lemma find_exact:
  assumes "table_inv w" and "ci_mask k = {}"
  shows "uk_vsockets_FIND k w = Some sid \<longleftrightarrow> sid \<in> set (table_ids w) \<and> key_of w sid = k"
proof -
  have *: "case uk_vsockets_FIND k w of Some x \<Rightarrow> x \<in> set (table_ids w) \<and> sign_cmp (key_tuple k) (key_tuple (key_of w x)) = 0
         | None \<Rightarrow> \<forall>x\<in>set (table_ids w). sign_cmp (key_tuple k) (key_tuple (key_of w x)) \<noteq> 0"
    using table_falling [OF assms(1)] assms(2) by (intro find_correct) (simp_all add: cmp_exact)
  show ?thesis
  proof (cases "uk_vsockets_FIND k w")
    case None
    with * assms(2) show ?thesis by (auto simp: key_tuple_inj)
  next
    case (Some x)
    with * assms(2) have "x \<in> set (table_ids w)" "key_of w x = k" by (auto simp: key_tuple_inj)
    with Some table_key_inj [OF assms(1)] show ?thesis by auto
  qed
qed

text \<open>
  The search for a listening socket masks the local CID; the search for a free port looks only at
  type and local port.
\<close>

lemma find_any_local_cid:
  assumes "table_inv w" and "ci_mask k = {MASK_LOCAL_CID}"
  shows "uk_vsockets_FIND k w = Some sid \<longleftrightarrow> sid \<in> set (table_ids w)
     \<and> ci_type (key_of w sid) = ci_type k \<and> a_port (ci_local (key_of w sid)) = a_port (ci_local k)
     \<and> ci_peer (key_of w sid) = ci_peer k"
proof -
  let ?k = "k\<lparr>ci_local := (ci_local k)\<lparr>a_cid := d_cid (w_dev w)\<rparr>, ci_mask := {}\<rparr>"
  have "uk_vsock_sockaddr_cmp k (key_of w x) = uk_vsock_sockaddr_cmp ?k (key_of w x)"
    if "x \<in> set (table_ids w)" for x
    using cmp_any_local_cid [OF assms(2) key_of_mask table_invD(4) [OF assms(1) that]]
    by (simp add: cmp_exact key_tuple_def)
  then have "rb_find (\<lambda>x. uk_vsock_sockaddr_cmp k (key_of w x)) t =
      rb_find (\<lambda>x. uk_vsock_sockaddr_cmp ?k (key_of w x)) t" if "set (inorder t) \<subseteq> set (table_ids w)" for t
    using that by (induction t) auto
  then have "uk_vsockets_FIND k w = uk_vsockets_FIND ?k w"
    by (simp add: uk_vsockets_FIND_def table_ids_def)
  moreover have "uk_vsockets_FIND ?k w = Some sid \<longleftrightarrow> sid \<in> set (table_ids w) \<and> key_of w sid = ?k"
    by (rule find_exact [OF assms(1)]) simp
  moreover have "key_of w sid = ?k \<longleftrightarrow> ci_type (key_of w sid) = ci_type k
      \<and> a_port (ci_local (key_of w sid)) = a_port (ci_local k) \<and> ci_peer (key_of w sid) = ci_peer k"
    if "sid \<in> set (table_ids w)"
    using table_invD(4) [OF assms(1) that] key_of_mask [of w sid]
    by (cases "key_of w sid"; cases k) (auto simp: addr_eq_iff)
  ultimately show ?thesis by auto
qed

lemma find_port:
  assumes "table_inv w" and "ci_mask k = {MASK_LOCAL_CID, MASK_PEER_CID, MASK_PEER_PORT}"
  shows "uk_vsockets_FIND k w = None \<longleftrightarrow> (\<forall>sid\<in>set (table_ids w).
     ci_type (key_of w sid) \<noteq> ci_type k \<or> a_port (ci_local (key_of w sid)) \<noteq> a_port (ci_local k))"
proof -
  have "case uk_vsockets_FIND k w of
      Some x \<Rightarrow> x \<in> set (table_ids w) \<and> sign_cmp (type_port k) (type_port (key_of w x)) = 0
    | None \<Rightarrow> \<forall>x\<in>set (table_ids w). sign_cmp (type_port k) (type_port (key_of w x)) \<noteq> 0"
    using table_falling_port [OF assms(1)] cmp_port_only [OF assms(2)] by (intro find_correct) simp_all
  then show ?thesis by (auto simp: type_port_def split: option.splits)
qed

section \<open>Insertion and removal\<close>

lemma remove_table:
  assumes inv: "table_inv w" and mem: "sid \<in> set (table_ids w)"
  obtains t where "uk_vsockets_REMOVE sid w = Some (w\<lparr>w_sockets := t\<rparr>)"
    and "inorder t = remove1 sid (table_ids w)" and "table_inv (w\<lparr>w_sockets := t\<rparr>)"
proof -
  obtain n where n: "bal (w_sockets w) n" using table_invD(1) [OF inv] by blast
  have mem': "sid \<in> set (inorder (w_sockets w))" using mem by (simp add: table_ids_def)
  obtain t m xs ys where r: "rb_remove sid (w_sockets w) = Some t" "bal t m" "m \<le> n"
      "inorder (w_sockets w) = xs @ sid # ys" "inorder t = xs @ ys"
    by (rule rb_remove_correct [OF n mem'])
  have dist: "distinct (inorder (w_sockets w))" using table_distinct [OF inv] by (simp add: table_ids_def)
  have list: "inorder t = remove1 sid (table_ids w)" using r(4,5) dist by (simp add: table_ids_def remove1_append)
  have key: "key_of (w\<lparr>w_sockets := t\<rparr>) x = key_of w x" for x by (simp add: key_of_def)
  have "table_inv (w\<lparr>w_sockets := t\<rparr>)"
    using inv r unfolding table_inv_def key by (auto simp: table_ids_def sorted_wrt_append)
  from that [OF _ list this] r(1) show thesis by (simp add: uk_vsockets_REMOVE_def)
qed

lemma insert_table:
  assumes inv: "table_inv w" and sock: "w_socks w sid \<noteq> None"
    and cid: "a_cid (ci_local (key_of w sid)) = d_cid (w_dev w)"
    and fresh: "\<forall>x\<in>set (table_ids w). key_of w x \<noteq> key_of w sid"
  obtains t where "uk_vsockets_INSERT sid w = (None, w\<lparr>w_sockets := t\<rparr>)"
    and "set (inorder t) = insert sid (set (table_ids w))" and "table_inv (w\<lparr>w_sockets := t\<rparr>)"
proof -
  let ?f = "\<lambda>x. uk_vsock_sockaddr_cmp (key_of w sid) (key_of w x)"
  have f: "?f x = sign_cmp (key_tuple (key_of w sid)) (key_tuple (key_of w x))" for x
    by (simp add: cmp_exact)
  obtain n where n: "bal (w_sockets w) n" using table_invD(1) [OF inv] by blast
  have "falling ?f (inorder (w_sockets w))"
    using table_falling [OF inv] unfolding f table_ids_def .
  from n this show thesis
  proof (cases rule: rb_insert_correct [where elm = sid])
    case (present x)
    then have "key_of w x = key_of w sid" unfolding f by (simp add: key_tuple_inj)
    with present fresh show thesis by (simp add: table_ids_def)
  next
    case (added t m xs ys)
    have key: "key_of (w\<lparr>w_sockets := t\<rparr>) x = key_of w x" for x by (simp add: key_of_def)
    have "set (inorder t) = insert sid (set (table_ids w))" using added by (auto simp: table_ids_def)
    moreover have "table_inv (w\<lparr>w_sockets := t\<rparr>)"
      using inv added sock cid unfolding table_inv_def key f
      by (auto simp: table_ids_def sorted_wrt_append)
    ultimately show thesis using added(1) that by (simp add: uk_vsockets_INSERT_def)
  qed
qed

lemma insert_present:
  assumes inv: "table_inv w" and mem: "x \<in> set (table_ids w)" "key_of w x = key_of w sid"
  shows "uk_vsockets_INSERT sid w = (Some x, w)"
proof -
  let ?f = "\<lambda>x. uk_vsock_sockaddr_cmp (key_of w sid) (key_of w x)"
  have f: "?f x = sign_cmp (key_tuple (key_of w sid)) (key_tuple (key_of w x))" for x
    by (simp add: cmp_exact)
  obtain n where n: "bal (w_sockets w) n" using table_invD(1) [OF inv] by blast
  have "falling ?f (inorder (w_sockets w))"
    using table_falling [OF inv] unfolding f table_ids_def .
  from n this show ?thesis
  proof (cases rule: rb_insert_correct [where elm = sid])
    case (present y)
    then have "key_of w y = key_of w sid" unfolding f by (simp add: key_tuple_inj)
    with present mem table_key_inj [OF inv, of x y] show ?thesis
      by (simp add: uk_vsockets_INSERT_def table_ids_def)
  next
    case (added t m xs ys)
    have "x \<in> set xs \<or> x \<in> set ys" using mem(1) added(3) by (simp add: table_ids_def)
    moreover have "?f x = 0" unfolding f by (simp add: mem(2))
    ultimately show ?thesis using added(5,6) by auto
  qed
qed

end
