(* ===== verification/Vsock.thy ===== *)
theory Vsock
  imports Vsock_Table
begin

text \<open>
  The socket layer (\<open>lib/ukvsockdev/vsock.c\<close>): port allocation, closing, the handlers that the driver
  calls when packets arrive, the reset of the transport, and the operations of the POSIX socket
  driver table \<open>socket_vsock_ops\<close>. All take the driver operations \<open>ops\<close> as an argument, as the code
  reaches the driver only through \<open>dev->ops\<close>.

  The POSIX operations get the POSIX socket \<open>ps\<close> and the socket object \<open>sid\<close> that is its driver data.
\<close>

section \<open>POSIX interface data\<close>

abbreviation AF_VSOCK :: u16 where "AF_VSOCK \<equiv> 40"
abbreviation VMADDR_CID_ANY :: u32 where "VMADDR_CID_ANY \<equiv> - 1"
abbreviation VMADDR_PORT_ANY :: u32 where "VMADDR_PORT_ANY \<equiv> - 1"
abbreviation SHUT_RD :: int where "SHUT_RD \<equiv> 0"
abbreviation SHUT_WR :: int where "SHUT_WR \<equiv> 1"
abbreviation SHUT_RDWR :: int where "SHUT_RDWR \<equiv> 2"
abbreviation SOL_SOCKET :: int where "SOL_SOCKET \<equiv> 1"
abbreviation SO_ERROR :: int where "SO_ERROR \<equiv> 4"

record sockaddr_vm =
  svm_family :: u16
  svm_port :: u32
  svm_cid :: u32

definition sizeof_svm :: nat where "sizeof_svm = 16"

text \<open>The bytes of the structure; the reserved field, the flags and the padding are zero.\<close>

definition svm_bytes :: "sockaddr_vm \<Rightarrow> u8 list" where
  "svm_bytes svm = le_bytes 2 (svm_family svm) @ [0, 0] @ le_bytes 4 (svm_port svm)
     @ le_bytes 4 (svm_cid svm) @ [0, 0, 0, 0]"

section \<open>Set-up and ports\<close>

definition uk_vsockets_init :: "vsock_world \<Rightarrow> int \<times> vsock_world" where
  "uk_vsockets_init w = (0, w\<lparr>w_sockets := Null\<rparr>)"

definition port_search :: "int \<Rightarrow> u32 \<Rightarrow> uk_vsock_conn_id" where
  "port_search type port = \<lparr>ci_type = type, ci_local = \<lparr>a_cid = 0, a_port = port\<rparr>,
     ci_peer = \<lparr>a_cid = 0, a_port = 0\<rparr>, ci_mask = {MASK_LOCAL_CID, MASK_PEER_CID, MASK_PEER_PORT}\<rparr>"

text \<open>The search loop, with the number of probes left.\<close>

fun alloc_port_loop :: "nat \<Rightarrow> int \<Rightarrow> vsock_world \<Rightarrow> int \<times> vsock_world" where
  "alloc_port_loop 0 type w = (- EADDRNOTAVAIL, w)"
| "alloc_port_loop (Suc n) type w = (
     let port = w_port_alloc_next w; w' = w\<lparr>w_port_alloc_next := port + 1\<rparr> in
     case uk_vsockets_FIND (port_search type port) w of
       None \<Rightarrow> (sint port, w')
     | Some _ \<Rightarrow> alloc_port_loop n type w')"

definition vsock_alloc_port :: "int \<Rightarrow> vsock_world \<Rightarrow> int \<times> vsock_world" where
  "vsock_alloc_port type w = alloc_port_loop 65536 type w"

section \<open>Closing\<close>

fun drain_loop :: "uk_vsockdev_ops \<Rightarrow> nat \<Rightarrow> virtio_vsock_accept_entry list \<Rightarrow> vsock_world \<Rightarrow> vsock_world option" where
  "drain_loop ops sid [] w = Some w"
| "drain_loop ops sid (e # es) w = do {
     w \<leftarrow> sock_upd sid (\<lambda>s. s\<lparr>s_accept_queue := es\<rparr>) w;
     let w = op_free_accept_entry ops sid e w;
     w \<leftarrow> sock_upd sid (\<lambda>s. s\<lparr>s_accept_queue_length := s_accept_queue_length s - 1\<rparr>) w;
     drain_loop ops sid es w
   }"

definition uk_vsock_drain_accept_queue :: "uk_vsockdev_ops \<Rightarrow> nat \<Rightarrow> vsock_world \<Rightarrow> vsock_world option" where
  "uk_vsock_drain_accept_queue ops sid w = do {
     s \<leftarrow> sock_get sid w;
     drain_loop ops sid (s_accept_queue s) w
   }"

text \<open>The end of \<open>uk_vsock_close\<close>, common to all states with an address.\<close>

definition close_finish :: "nat \<Rightarrow> vsock_world \<Rightarrow> (int \<times> vsock_world) option" where
  "close_finish sid w = do {
     w \<leftarrow> sock_upd sid (\<lambda>s. s\<lparr>s_state := UK_VSOCK_STATE_CLOSED, s_rx_shutdown := True,
                                s_tx_shutdown := True\<rparr>) w;
     s \<leftarrow> sock_get sid w;
     w \<leftarrow> posix_sock_event_clear (s_posix_sock s) EPOLLOUT w;
     w \<leftarrow> posix_sock_event_set (s_posix_sock s) EPOLLHUP w;
     Some (0, w)
   }"

text \<open>A call through \<open>dev->ops\<close>, where \<open>dev\<close> is the result of \<open>vsockdev_get\<close>.\<close>

definition dev_call :: "(vsock_world \<Rightarrow> 'a option) \<Rightarrow> vsock_world \<Rightarrow> 'a option" where
  "dev_call f w = (if w_main_dev w then f w else None)"

definition uk_vsock_close :: "uk_vsockdev_ops \<Rightarrow> nat \<Rightarrow> bool \<Rightarrow> vsock_world \<Rightarrow> (int \<times> vsock_world) option" where
  "uk_vsock_close ops sid force_reset w = do {
     (rc, w) \<leftarrow> (if force_reset then dev_call (op_reset ops sid) w else Some (0, w));
     if rc \<noteq> 0 then Some (rc, w)
     else do {
       s \<leftarrow> sock_get sid w;
       case s_state s of
         UK_VSOCK_STATE_OPEN \<Rightarrow> do {
           (rc, w) \<leftarrow> (if force_reset then Some (0, w) else dev_call (op_shutdown ops sid True True) w);
           if rc \<noteq> 0 then Some (rc, w)
           else do {
             w \<leftarrow> dev_call (uk_vsock_drain_accept_queue ops sid) w;
             w \<leftarrow> uk_vsockets_REMOVE sid w;
             close_finish sid w
           }
         }
       | UK_VSOCK_STATE_BOUND \<Rightarrow> do {
           w \<leftarrow> dev_call (uk_vsock_drain_accept_queue ops sid) w;
           w \<leftarrow> uk_vsockets_REMOVE sid w;
           close_finish sid w
         }
       | UK_VSOCK_STATE_LISTENING \<Rightarrow> do {
           w \<leftarrow> dev_call (uk_vsock_drain_accept_queue ops sid) w;
           w \<leftarrow> uk_vsockets_REMOVE sid w;
           close_finish sid w
         }
       | UK_VSOCK_STATE_WAIT_CONNECT \<Rightarrow> do {
           (rc, w) \<leftarrow> (if force_reset then Some (0, w) else dev_call (op_reset ops sid) w);
           if rc \<noteq> 0 then Some (rc, w)
           else do {
             w \<leftarrow> uk_vsockets_REMOVE sid w;
             close_finish sid w
           }
         }
       | UK_VSOCK_STATE_READY \<Rightarrow> Some (0, w)
       | UK_VSOCK_STATE_CLOSED \<Rightarrow> Some (0, w)
     }
   }"

text \<open>The memory of the receive buffer belongs to the socket object that the driver frees.\<close>

definition uk_vsock_destroy :: "uk_vsockdev_ops \<Rightarrow> nat \<Rightarrow> vsock_world \<Rightarrow> (int \<times> vsock_world) option" where
  "uk_vsock_destroy ops sid w = do {
     (rc, w) \<leftarrow> uk_vsock_close ops sid False w;
     if rc \<noteq> 0 then Some (rc, w)
     else dev_call (op_destroy ops sid) w
   }"

section \<open>Handlers for the driver\<close>

definition uk_vsock_lookup :: "int \<Rightarrow> uk_vsockaddr \<Rightarrow> uk_vsockaddr \<Rightarrow> vsock_world \<Rightarrow> nat option" where
  "uk_vsock_lookup sock_type local peer w = (
     case uk_vsockets_FIND \<lparr>ci_type = sock_type, ci_local = local, ci_peer = peer, ci_mask = {}\<rparr> w of
       Some sock \<Rightarrow> Some sock
     | None \<Rightarrow> uk_vsockets_FIND
         \<lparr>ci_type = sock_type, ci_local = local, ci_peer = any_addr, ci_mask = {MASK_LOCAL_CID}\<rparr> w)"

definition uk_vsock_notify_writable :: "nat \<Rightarrow> bool \<Rightarrow> vsock_world \<Rightarrow> vsock_world option" where
  "uk_vsock_notify_writable sid writable w = do {
     s \<leftarrow> sock_get sid w;
     if writable then posix_sock_event_set (s_posix_sock s) EPOLLOUT w
     else posix_sock_event_clear (s_posix_sock s) EPOLLOUT w
   }"

definition uk_vsock_rx_payload :: "nat \<Rightarrow> uk_netbuf list \<Rightarrow> vsock_world \<Rightarrow> (int \<times> vsock_world) option" where
  "uk_vsock_rx_payload sid packet w = do {
     s \<leftarrow> sock_get sid w;
     if s_state s \<noteq> UK_VSOCK_STATE_OPEN then Some (- EINVAL, w)
     else do {
       (rc, rx) \<leftarrow> uk_vsock_buffer_append (s_rx s) packet;
       let w = sock_put sid (s\<lparr>s_rx := rx\<rparr>) w;
       if rc \<noteq> 0 then Some (rc, w)
       else do {
         w \<leftarrow> posix_sock_event_set (s_posix_sock s) EPOLLIN w;
         Some (0, w)
       }
     }
   }"

definition uk_vsock_conn_response :: "uk_vsockdev_ops \<Rightarrow> nat \<Rightarrow> vsock_world \<Rightarrow> (int \<times> vsock_world) option" where
  "uk_vsock_conn_response ops sid w = do {
     s \<leftarrow> sock_get sid w;
     if s_state s \<noteq> UK_VSOCK_STATE_WAIT_CONNECT
     then do {
       (rc, w) \<leftarrow> uk_vsock_close ops sid True w;
       Some (- EINVAL, w)
     }
     else do {
       uk_assert (s_posix_sock s \<noteq> None);
       w \<leftarrow> posix_sock_event_set (s_posix_sock s) EPOLLOUT
             (sock_put sid (s\<lparr>s_state := UK_VSOCK_STATE_OPEN\<rparr>) w);
       Some (0, w)
     }
   }"

definition uk_vsock_conn_reset :: "uk_vsockdev_ops \<Rightarrow> nat \<Rightarrow> vsock_world \<Rightarrow> (int \<times> vsock_world) option" where
  "uk_vsock_conn_reset ops sid w = do {
     s \<leftarrow> sock_get sid w;
     w \<leftarrow> posix_sock_event_clear (s_posix_sock s) EPOLLOUT w;
     w \<leftarrow> posix_sock_event_set (s_posix_sock s) (EPOLLERR OR EPOLLHUP OR EPOLLRDHUP) w;
     case s_state s of
       UK_VSOCK_STATE_CLOSED \<Rightarrow> Some (0, w)
     | UK_VSOCK_STATE_WAIT_CONNECT \<Rightarrow> do {
         w \<leftarrow> sock_upd sid (\<lambda>s. s\<lparr>s_so_error := - ECONNREFUSED\<rparr>) w;
         (rc, w) \<leftarrow> dev_call (op_reset ops sid) w;
         if rc \<noteq> 0 then Some (rc, w)
         else do {
           w \<leftarrow> uk_vsockets_REMOVE sid w;
           w \<leftarrow> sock_upd sid (\<lambda>s. s\<lparr>s_state := UK_VSOCK_STATE_READY\<rparr>) w;
           Some (0, w)
         }
       }
     | UK_VSOCK_STATE_OPEN \<Rightarrow> do {
         w \<leftarrow> uk_vsockets_REMOVE sid w;
         w \<leftarrow> sock_upd sid (\<lambda>s. s\<lparr>s_state := UK_VSOCK_STATE_READY\<rparr>) w;
         Some (0, w)
       }
     | _ \<Rightarrow> Some (0, w)
   }"

definition uk_vsock_conn_shutdown ::
    "uk_vsockdev_ops \<Rightarrow> nat \<Rightarrow> bool \<Rightarrow> bool \<Rightarrow> vsock_world \<Rightarrow> (int \<times> vsock_world) option" where
  "uk_vsock_conn_shutdown ops sid peer_rx peer_tx w = do {
     s \<leftarrow> sock_get sid w;
     if s_state s \<noteq> UK_VSOCK_STATE_OPEN then Some (- EINVAL, w)
     else do {
       uk_assert (s_posix_sock s \<noteq> None);
       w \<leftarrow> (if peer_rx
             then do {
               w \<leftarrow> posix_sock_event_clear (s_posix_sock s) EPOLLOUT w;
               sock_upd sid (\<lambda>s. s\<lparr>s_tx_shutdown := True\<rparr>) w
             }
             else Some w);
       w \<leftarrow> (if peer_tx
             then do {
               w \<leftarrow> posix_sock_event_set (s_posix_sock s) EPOLLRDHUP w;
               sock_upd sid (\<lambda>s. s\<lparr>s_rx_shutdown := True\<rparr>) w
             }
             else Some w);
       s \<leftarrow> sock_get sid w;
       if s_rx_shutdown s \<and> s_tx_shutdown s then uk_vsock_close ops sid False w
       else Some (0, w)
     }
   }"

definition uk_vsock_conn_request ::
    "nat \<Rightarrow> virtio_vsock_accept_entry \<Rightarrow> vsock_world \<Rightarrow> (int \<times> vsock_world) option" where
  "uk_vsock_conn_request sid entry w = do {
     s \<leftarrow> sock_get sid w;
     if s_state s \<noteq> UK_VSOCK_STATE_LISTENING then Some (- ECONNREFUSED, w)
     else if s_accept_queue_length s \<ge> s_accept_queue_limit s then Some (- ECONNREFUSED, w)
     else do {
       w \<leftarrow> posix_sock_event_set (s_posix_sock s) EPOLLIN
             (sock_put sid (s\<lparr>s_accept_queue := s_accept_queue s @ [entry],
                            s_accept_queue_length := s_accept_queue_length s + 1\<rparr>) w);
       Some (0, w)
     }
   }"

section \<open>Transport reset\<close>

definition term_affects :: "virtio_vsock \<Rightarrow> bool" where
  "term_affects s = (case s_state s of
     UK_VSOCK_STATE_READY \<Rightarrow> False
   | UK_VSOCK_STATE_CLOSED \<Rightarrow> False
   | UK_VSOCK_STATE_WAIT_CONNECT \<Rightarrow> True
   | UK_VSOCK_STATE_OPEN \<Rightarrow> True
   | UK_VSOCK_STATE_BOUND \<Rightarrow> a_cid (s_local_addr s) \<noteq> UK_VSOCK_CID_ANY
   | UK_VSOCK_STATE_LISTENING \<Rightarrow> a_cid (s_local_addr s) \<noteq> UK_VSOCK_CID_ANY)"

definition term_body :: "uk_vsockdev_ops \<Rightarrow> nat \<Rightarrow> int \<Rightarrow> vsock_world \<Rightarrow> (int \<times> vsock_world) option" where
  "term_body ops sid ret w = do {
     s \<leftarrow> sock_get sid w;
     if term_affects s
     then do {
       (rc, w) \<leftarrow> uk_vsock_close ops sid True w;
       Some (if rc \<noteq> 0 then rc else ret, w)
     }
     else Some (ret, w)
   }"

text \<open>\<open>UK_RB_FOREACH_SAFE\<close> takes the successor of a node before its body runs.\<close>

partial_function (option) term_loop ::
    "uk_vsockdev_ops \<Rightarrow> nat option \<Rightarrow> int \<Rightarrow> vsock_world \<Rightarrow> (int \<times> vsock_world) option" where
  "term_loop ops cur ret w = (case cur of
     None \<Rightarrow> Some (ret, w)
   | Some sid \<Rightarrow>
       rb_next sid (w_sockets w) \<bind> (\<lambda>tmp.
         term_body ops sid ret w \<bind> (\<lambda>r. term_loop ops tmp (fst r) (snd r))))"

definition uk_vsockets_term :: "uk_vsockdev_ops \<Rightarrow> vsock_world \<Rightarrow> (int \<times> vsock_world) option" where
  "uk_vsockets_term ops w = term_loop ops (rb_min (w_sockets w)) 0 w"

section \<open>Creating and accepting\<close>

text \<open>A pointer that may be an error code (\<open>ERR2PTR\<close>).\<close>

definition vsock_create ::
    "uk_vsockdev_ops \<Rightarrow> u16 \<Rightarrow> int \<Rightarrow> int \<Rightarrow> vsock_world \<Rightarrow> ((int + nat) \<times> vsock_world) option" where
  "vsock_create ops family type protocol w = do {
     uk_assert (family = AF_VSOCK);
     if \<not> w_main_dev w then Some (Inl (- EAFNOSUPPORT), w)
     else do {
       (rc, sock, w) \<leftarrow> op_create ops type protocol w;
       if rc \<noteq> 0 then Some (Inl rc, w)
       else do {
         sid \<leftarrow> sock;
         Some (Inr sid, w)
       }
     }
   }"

text \<open>
  \<open>addr\<close> says whether the caller wants the address of the peer, \<open>addr_len\<close> is the length it points
  to; the result has the bytes that are copied to \<open>addr\<close>, whose number is stored to \<open>*addr_len\<close>.
\<close>

definition vsock_accept4 ::
    "uk_vsockdev_ops \<Rightarrow> nat \<Rightarrow> nat \<Rightarrow> bool \<Rightarrow> nat option \<Rightarrow> vsock_world
      \<Rightarrow> ((int + nat \<times> u8 list option) \<times> vsock_world) option" where
  "vsock_accept4 ops ps sid addr addr_len w = (
     if addr \<and> addr_len = None then Some (Inl (- EINVAL), w)
     else do {
       vsock \<leftarrow> sock_get sid w;
       if s_state vsock \<noteq> UK_VSOCK_STATE_LISTENING then Some (Inl (- EINVAL), w)
       else do {
         uk_assert (w_main_dev w);
         case s_accept_queue vsock of
           [] \<Rightarrow> Some (Inl (- EAGAIN), w)
         | accept_entry # queue \<Rightarrow> do {
             uk_assert (s_accept_queue_length vsock > 0);
             let w = sock_put sid (vsock\<lparr>s_accept_queue := queue,
                   s_accept_queue_length := s_accept_queue_length vsock - 1\<rparr>) w;
             (rc, out, w) \<leftarrow> op_accept ops sid accept_entry w;
             let w = op_free_accept_entry ops sid accept_entry w;
             if rc \<noteq> 0 then Some (Inl rc, w)
             else do {
               new \<leftarrow> out;
               w \<leftarrow> sock_upd new (\<lambda>s. s\<lparr>s_state := UK_VSOCK_STATE_OPEN\<rparr>) w;
               s \<leftarrow> sock_get new w;
               let w = snd (uk_vsockets_INSERT new w);
               let copied = (if addr then Some (take (the addr_len) (svm_bytes
                     \<lparr>svm_family = AF_VSOCK, svm_port = a_port (s_peer_addr s),
                      svm_cid = a_cid (s_peer_addr s)\<rparr>)) else None);
               vsock \<leftarrow> sock_get sid w;
               w \<leftarrow> (if s_accept_queue vsock = [] then posix_sock_event_clear (Some ps) EPOLLIN w
                     else Some w);
               Some (Inr (new, copied), w)
             }
           }
       }
     })"

definition vsock_socketpair :: int where "vsock_socketpair = - EOPNOTSUPP"

section \<open>Binding, listening, connecting\<close>

definition vsock_bind ::
    "uk_vsockdev_ops \<Rightarrow> nat \<Rightarrow> sockaddr_vm \<Rightarrow> nat \<Rightarrow> vsock_world \<Rightarrow> (int \<times> vsock_world) option" where
  "vsock_bind ops sid svm addr_len w = do {
     uk_assert (w_main_dev w);
     if addr_len \<noteq> sizeof_svm then Some (- EINVAL, w)
     else if svm_family svm \<noteq> AF_VSOCK then Some (- EINVAL, w)
     else do {
       let cid = op_get_cid ops w;
       if svm_cid svm \<noteq> VMADDR_CID_ANY \<and> svm_cid svm \<noteq> cid then Some (- EADDRNOTAVAIL, w)
       else do {
         vsock \<leftarrow> sock_get sid w;
         if s_state vsock \<noteq> UK_VSOCK_STATE_READY then Some (- EINVAL, w)
         else do {
           let (rc, w) = (if svm_port svm = VMADDR_PORT_ANY
                 then vsock_alloc_port (s_sock_type vsock) w
                 else (0, w));
           if svm_port svm = VMADDR_PORT_ANY \<and> rc < 0 then Some (rc, w)
           else do {
             let port = (if svm_port svm = VMADDR_PORT_ANY then word_of_int rc else svm_port svm);
             let other = uk_vsockets_FIND \<lparr>ci_type = s_sock_type vsock,
                   ci_local = \<lparr>a_cid = 0, a_port = port\<rparr>, ci_peer = any_addr,
                   ci_mask = {MASK_LOCAL_CID}\<rparr> w;
             if other \<noteq> None then Some (- EADDRINUSE, w)
             else do {
               w \<leftarrow> sock_upd sid (\<lambda>s. s\<lparr>s_local_addr := \<lparr>a_cid = cid, a_port = port\<rparr>,
                                        s_peer_addr := any_addr\<rparr>) w;
               let w = snd (uk_vsockets_INSERT sid w);
               w \<leftarrow> sock_upd sid (\<lambda>s. s\<lparr>s_state := UK_VSOCK_STATE_BOUND\<rparr>) w;
               Some (0, w)
             }
           }
         }
       }
     }
   }"

definition backlog_limit :: "int \<Rightarrow> int" where
  "backlog_limit backlog = (if backlog \<noteq> 0 then backlog else 128)"

definition vsock_listen :: "uk_vsockdev_ops \<Rightarrow> nat \<Rightarrow> int \<Rightarrow> vsock_world \<Rightarrow> (int \<times> vsock_world) option" where
  "vsock_listen ops sid backlog w = do {
     vsock \<leftarrow> sock_get sid w;
     if s_state vsock = UK_VSOCK_STATE_LISTENING then do {
       w \<leftarrow> sock_upd sid (\<lambda>s. s\<lparr>s_accept_queue_limit := backlog_limit backlog\<rparr>) w;
       Some (0, w)
     }
     else if s_state vsock \<noteq> UK_VSOCK_STATE_BOUND \<and> s_state vsock \<noteq> UK_VSOCK_STATE_READY
     then Some (- EINVAL, w)
     else do {
       (rc, w) \<leftarrow> (if s_state vsock = UK_VSOCK_STATE_READY
                   then vsock_bind ops sid \<lparr>svm_family = AF_VSOCK, svm_port = VMADDR_PORT_ANY,
                          svm_cid = VMADDR_CID_ANY\<rparr> sizeof_svm w
                   else Some (0, w));
       if rc \<noteq> 0 then Some (rc, w)
       else do {
         vsock \<leftarrow> sock_get sid w;
         uk_assert (s_state vsock = UK_VSOCK_STATE_BOUND);
         w \<leftarrow> sock_upd sid (\<lambda>s. s\<lparr>s_accept_queue_limit := backlog_limit backlog,
                                  s_state := UK_VSOCK_STATE_LISTENING\<rparr>) w;
         Some (0, w)
       }
     }
   }"

text \<open>The undo of a connection attempt that the driver could not send.\<close>

definition connect_undo :: "nat \<Rightarrow> uk_vsock_state \<Rightarrow> uk_vsockaddr \<Rightarrow> vsock_world \<Rightarrow> vsock_world option" where
  "connect_undo sid old_state old_peer w = do {
     w \<leftarrow> (if old_state = UK_VSOCK_STATE_BOUND
           then do {
             w \<leftarrow> sock_upd sid (\<lambda>s. s\<lparr>s_peer_addr := old_peer\<rparr>) w;
             (_, w) \<leftarrow> uk_vsockets_REINSERT sid w;
             Some w
           }
           else do {
             w \<leftarrow> uk_vsockets_REMOVE sid w;
             sock_upd sid (\<lambda>s. s\<lparr>s_local_addr := any_addr, s_peer_addr := old_peer\<rparr>) w
           });
     sock_upd sid (\<lambda>s. s\<lparr>s_state := old_state\<rparr>) w
   }"

definition vsock_connect ::
    "uk_vsockdev_ops \<Rightarrow> nat \<Rightarrow> sockaddr_vm \<Rightarrow> nat \<Rightarrow> vsock_world \<Rightarrow> (int \<times> vsock_world) option" where
  "vsock_connect ops sid svm addr_len w = do {
     uk_assert (w_main_dev w);
     vsock \<leftarrow> sock_get sid w;
     let old_peer = s_peer_addr vsock;
     let old_state = s_state vsock;
     if addr_len \<noteq> sizeof_svm then Some (- EINVAL, w)
     else if svm_family svm \<noteq> AF_VSOCK then Some (- EAFNOSUPPORT, w)
     else if old_state = UK_VSOCK_STATE_WAIT_CONNECT then Some (- EALREADY, w)
     else if old_state \<noteq> UK_VSOCK_STATE_BOUND \<and> old_state \<noteq> UK_VSOCK_STATE_READY
     then Some (- EISCONN, w)
     else do {
       w \<leftarrow> sock_upd sid (\<lambda>s. s\<lparr>s_peer_addr := \<lparr>a_cid = svm_cid svm, a_port = svm_port svm\<rparr>\<rparr>) w;
       (rc, w) \<leftarrow> (if old_state = UK_VSOCK_STATE_BOUND
           then do {
             (_, w) \<leftarrow> uk_vsockets_REINSERT sid w;
             Some (0, w)
           }
           else do {
             w \<leftarrow> sock_upd sid (\<lambda>s. s\<lparr>s_local_addr := (s_local_addr s)\<lparr>a_cid := op_get_cid ops w\<rparr>\<rparr>) w;
             let (port, w) = vsock_alloc_port (s_sock_type vsock) w;
             if port < 0
             then do {
               w \<leftarrow> sock_upd sid (\<lambda>s. s\<lparr>s_peer_addr := any_addr\<rparr>) w;
               Some (port, w)
             }
             else do {
               w \<leftarrow> sock_upd sid (\<lambda>s. s\<lparr>s_local_addr := (s_local_addr s)\<lparr>a_port := word_of_int port\<rparr>\<rparr>) w;
               Some (0, snd (uk_vsockets_INSERT sid w))
             }
           });
       if rc < 0 then Some (rc, w)
       else do {
         w \<leftarrow> sock_upd sid (\<lambda>s. s\<lparr>s_state := UK_VSOCK_STATE_WAIT_CONNECT\<rparr>) w;
         (rc, w) \<leftarrow> op_connect ops sid w;
         w \<leftarrow> (if rc \<noteq> 0 \<and> rc \<noteq> - EINPROGRESS then connect_undo sid old_state old_peer w
               else Some w);
         Some (rc, w)
       }
     }
   }"

section \<open>Shutdown and close\<close>

definition vsock_shutdown :: "uk_vsockdev_ops \<Rightarrow> nat \<Rightarrow> int \<Rightarrow> vsock_world \<Rightarrow> (int \<times> vsock_world) option" where
  "vsock_shutdown ops sid how w = (
     if how \<noteq> SHUT_RD \<and> how \<noteq> SHUT_WR \<and> how \<noteq> SHUT_RDWR then Some (- EINVAL, w)
     else do {
       let rx = (how = SHUT_RD \<or> how = SHUT_RDWR);
       let tx = (how = SHUT_WR \<or> how = SHUT_RDWR);
       uk_assert (w_main_dev w);
       vsock \<leftarrow> sock_get sid w;
       if s_state vsock \<noteq> UK_VSOCK_STATE_OPEN then Some (- ENOTCONN, w)
       else do {
         (rc, w) \<leftarrow> op_shutdown ops sid rx tx w;
         if rc \<noteq> 0 then Some (rc, w)
         else uk_vsock_conn_shutdown ops sid rx tx w
       }
     })"

definition vsock_close :: "uk_vsockdev_ops \<Rightarrow> nat \<Rightarrow> vsock_world \<Rightarrow> (int \<times> vsock_world) option" where
  "vsock_close ops sid w = uk_vsock_destroy ops sid w"

section \<open>Options and names\<close>

text \<open>The copied bytes; their number is the new value of \<open>*optlen\<close>.\<close>

definition getsockopt_copy :: "u8 list \<Rightarrow> nat option \<Rightarrow> int \<times> u8 list" where
  "getsockopt_copy value_bytes optlen = (case optlen of
     None \<Rightarrow> (- EINVAL, [])
   | Some n \<Rightarrow> (0, take n value_bytes))"

definition vsock_getsockopt ::
    "nat \<Rightarrow> int \<Rightarrow> int \<Rightarrow> nat option \<Rightarrow> vsock_world \<Rightarrow> (int \<times> u8 list \<times> vsock_world) option" where
  "vsock_getsockopt sid level optname optlen w = do {
     vsock \<leftarrow> sock_get sid w;
     if level = SOL_SOCKET
     then (if optname = SO_ERROR
           then let (rc, out) = getsockopt_copy (le_bytes 4 (word_of_int (s_so_error vsock) :: u32)) optlen
                in Some (rc, out, sock_put sid (vsock\<lparr>s_so_error := 0\<rparr>) w)
           else Some (- ENOPROTOOPT, [], w))
     else Some (0, [], w)
   }"

definition vsock_setsockopt :: int where "vsock_setsockopt = 0"

definition vsock_getsockname ::
    "nat \<Rightarrow> nat option \<Rightarrow> vsock_world \<Rightarrow> (int \<times> u8 list) option" where
  "vsock_getsockname sid addr_len w = (case addr_len of
     None \<Rightarrow> Some (- EINVAL, [])
   | Some n \<Rightarrow> do {
       vsock \<leftarrow> sock_get sid w;
       Some (0, take n (svm_bytes \<lparr>svm_family = AF_VSOCK, svm_port = a_port (s_local_addr vsock),
                                   svm_cid = a_cid (s_local_addr vsock)\<rparr>))
     })"

definition vsock_getpeername ::
    "nat \<Rightarrow> nat option \<Rightarrow> vsock_world \<Rightarrow> (int \<times> u8 list) option" where
  "vsock_getpeername sid addr_len w = (case addr_len of
     None \<Rightarrow> Some (- EINVAL, [])
   | Some n \<Rightarrow> do {
       vsock \<leftarrow> sock_get sid w;
       if s_state vsock \<noteq> UK_VSOCK_STATE_OPEN then Some (- ENOTCONN, [])
       else Some (0, take n (svm_bytes \<lparr>svm_family = AF_VSOCK, svm_port = a_port (s_peer_addr vsock),
                                        svm_cid = a_cid (s_peer_addr vsock)\<rparr>))
     })"

section \<open>Data transfer\<close>

text \<open>The loop of \<open>vsock_write\<close> over the rest of the vector, with the number of bytes written.\<close>

fun write_loop ::
    "uk_vsockdev_ops \<Rightarrow> nat \<Rightarrow> nat \<Rightarrow> u8 list list \<Rightarrow> int \<Rightarrow> vsock_world \<Rightarrow> (int \<times> vsock_world) option" where
  "write_loop ops ps sid [] written w = Some (written, w)"
| "write_loop ops ps sid (buf # iov) written w = do {
     (res, w) \<leftarrow> op_send ops sid buf w;
     if res < 0 then Some (if written = 0 then res else written, w)
     else if res = 0 then do {
       w \<leftarrow> posix_sock_event_clear (Some ps) EPOLLOUT w;
       Some (if written = 0 then - EAGAIN else written, w)
     }
     else write_loop ops ps sid iov (written + res) w
   }"

definition vsock_write ::
    "uk_vsockdev_ops \<Rightarrow> nat \<Rightarrow> nat \<Rightarrow> u8 list list \<Rightarrow> vsock_world \<Rightarrow> (int \<times> vsock_world) option" where
  "vsock_write ops ps sid iov w = do {
     uk_assert (w_main_dev w);
     vsock \<leftarrow> sock_get sid w;
     if s_state vsock \<noteq> UK_VSOCK_STATE_OPEN
     then (if s_state vsock = UK_VSOCK_STATE_CLOSED \<or> s_tx_shutdown vsock
           then Some (- EPIPE, w) else Some (- ENOTCONN, w))
     else write_loop ops ps sid iov 0 w
   }"

text \<open>\<open>dest\<close> says that a destination address or its length was given.\<close>

definition vsock_sendto ::
    "uk_vsockdev_ops \<Rightarrow> nat \<Rightarrow> nat \<Rightarrow> u8 list \<Rightarrow> bool \<Rightarrow> vsock_world \<Rightarrow> (int \<times> vsock_world) option" where
  "vsock_sendto ops ps sid buf dest w = (
     if dest then Some (- EISCONN, w)
     else do {
       uk_assert (w_main_dev w);
       vsock \<leftarrow> sock_get sid w;
       if s_state vsock = UK_VSOCK_STATE_CLOSED \<or> s_tx_shutdown vsock then Some (- EPIPE, w)
       else do {
         (res, w) \<leftarrow> op_send ops sid buf w;
         if res = 0 then do {
           w \<leftarrow> posix_sock_event_clear (Some ps) EPOLLOUT w;
           Some (- EAGAIN, w)
         }
         else Some (res, w)
       }
     })"

text \<open>After data was taken the peer is told of the space, if there is a device; the result is ignored.\<close>

definition credit_notify :: "uk_vsockdev_ops \<Rightarrow> nat \<Rightarrow> vsock_world \<Rightarrow> vsock_world option" where
  "credit_notify ops sid w = (
     if w_main_dev w then do { (rc, w) \<leftarrow> op_send_credit_update ops sid w; Some w } else Some w)"

text \<open>The loop of \<open>vsock_read\<close> over the sizes of the vector, with the bytes read so far.\<close>

fun read_loop ::
    "uk_vsockdev_ops \<Rightarrow> nat \<Rightarrow> nat list \<Rightarrow> u8 list \<Rightarrow> vsock_world \<Rightarrow> (int \<times> u8 list \<times> vsock_world) option" where
  "read_loop ops sid [] out w = Some (int (length out), out, w)"
| "read_loop ops sid (len # iov) out w = do {
     vsock \<leftarrow> sock_get sid w;
     bytes \<leftarrow> uk_vsock_buffer_read (s_rx vsock) len;
     if length bytes = 0
     then Some (if out = [] then (if \<not> s_rx_shutdown vsock then - EAGAIN else 0) else int (length out), out, w)
     else do {
       rx \<leftarrow> uk_vsock_buffer_consume (s_rx vsock) (length bytes);
       w \<leftarrow> credit_notify ops sid (sock_put sid (vsock\<lparr>s_rx := rx\<rparr>) w);
       read_loop ops sid iov (out @ bytes) w
     }
   }"

definition read_finish :: "nat \<Rightarrow> nat \<Rightarrow> vsock_world \<Rightarrow> vsock_world option" where
  "read_finish ps sid w = do {
     vsock \<leftarrow> sock_get sid w;
     if uk_vsock_buffer_is_empty (s_rx vsock) then posix_sock_event_clear (Some ps) EPOLLIN w
     else Some w
   }"

definition vsock_read ::
    "uk_vsockdev_ops \<Rightarrow> nat \<Rightarrow> nat \<Rightarrow> nat list \<Rightarrow> vsock_world \<Rightarrow> (int \<times> u8 list \<times> vsock_world) option" where
  "vsock_read ops ps sid iov w = do {
     vsock \<leftarrow> sock_get sid w;
     if s_state vsock \<noteq> UK_VSOCK_STATE_OPEN \<and> s_state vsock \<noteq> UK_VSOCK_STATE_CLOSED
     then Some (- ENOTCONN, [], w)
     else do {
       (ret, out, w) \<leftarrow> read_loop ops sid iov [] w;
       w \<leftarrow> read_finish ps sid w;
       Some (ret, out, w)
     }
   }"

text \<open>\<open>from\<close> says that the caller wants the address of the sender.\<close>

definition vsock_recvfrom ::
    "uk_vsockdev_ops \<Rightarrow> nat \<Rightarrow> nat \<Rightarrow> nat \<Rightarrow> bool \<Rightarrow> vsock_world \<Rightarrow> (int \<times> u8 list \<times> vsock_world) option" where
  "vsock_recvfrom ops ps sid len from w = (
     if from then Some (- EISCONN, [], w)
     else do {
       vsock \<leftarrow> sock_get sid w;
       if s_state vsock \<noteq> UK_VSOCK_STATE_OPEN \<and> s_state vsock \<noteq> UK_VSOCK_STATE_CLOSED
       then Some (- ENOTCONN, [], w)
       else do {
         bytes \<leftarrow> uk_vsock_buffer_read (s_rx vsock) len;
         if bytes = [] \<and> \<not> s_rx_shutdown vsock then Some (- EAGAIN, [], w)
         else do {
           w \<leftarrow> (if bytes \<noteq> []
                 then do {
                   rx \<leftarrow> uk_vsock_buffer_consume (s_rx vsock) (length bytes);
                   credit_notify ops sid (sock_put sid (vsock\<lparr>s_rx := rx\<rparr>) w)
                 }
                 else Some w);
           w \<leftarrow> read_finish ps sid w;
           Some (int (length bytes), bytes, w)
         }
       }
     })"

definition vsock_ioctl :: int where "vsock_ioctl = - ENOTTY"

definition vsock_poll_setup :: "nat \<Rightarrow> nat \<Rightarrow> vsock_world \<Rightarrow> vsock_world option" where
  "vsock_poll_setup ps sid w = sock_upd sid (\<lambda>s. s\<lparr>s_posix_sock := Some ps\<rparr>) w"

end
