(* ===== verification/Virtqueue_Device.thy ===== *)
theory Virtqueue_Device
  imports Virtqueue
begin

text \<open>
  The device side of a virtqueue as the drivers rely on it: a device that serves its queue completes
  outstanding buffers only, and always one if there are any. A concrete device of this kind, which
  finds the outstanding buffers in the descriptor table.
\<close>

definition device_serves :: "(nat \<Rightarrow> 'c virtqueue_vring \<Rightarrow> 'c virtqueue_vring) \<Rightarrow> bool" where
  "device_serves host \<longleftrightarrow> (\<forall>n free inflight vq. vq_inv free inflight vq \<longrightarrow>
     vq_inv free inflight (host n vq) \<and> (inflight \<noteq> [] \<longrightarrow> pending (host n vq) \<noteq> []))"

text \<open>The weaker part of it: the device completes outstanding buffers only.\<close>

definition device_keeps :: "(nat \<Rightarrow> 'c virtqueue_vring \<Rightarrow> 'c virtqueue_vring) \<Rightarrow> bool" where
  "device_keeps host \<longleftrightarrow> (\<forall>n free inflight vq. vq_inv free inflight vq \<longrightarrow> vq_inv free inflight (host n vq))"

lemma device_serves_keeps: "device_serves host \<Longrightarrow> device_keeps host"
  by (simp add: device_serves_def device_keeps_def)

section \<open>Queues of good buffers\<close>

text \<open>All buffers in flight have a property \<open>P\<close>.\<close>

definition vq_holds :: "('c \<Rightarrow> bool) \<Rightarrow> 'c virtqueue_vring \<Rightarrow> bool" where
  "vq_holds P vq \<longleftrightarrow> (\<exists>free inflight. vq_inv free inflight vq \<and> (\<forall>(c, is)\<in>set inflight. P c))"

lemma enqueue_segments_loop_bound:
  "enqueue_segments_loop d idx segs r t todo = Some x \<Longrightarrow> 0 < todo \<Longrightarrow> todo \<le> t \<Longrightarrow> t \<le> length segs"
proof (induction d idx segs r t todo rule: enqueue_segments_loop.induct)
  case (2 desc idx segs read_bufs total_desc todo)
  then have lt: "total_desc - Suc todo < length segs" by (auto simp: Let_def split: if_splits)
  show ?case
  proof (cases "todo = 0")
    case True
    then show ?thesis using lt by simp
  next
    case False
    let ?i = "total_desc - Suc todo" and ?d = "desc ! unat idx"
    let ?d' = "?d\<lparr>vd_addr := ss_paddr (segs ! ?i), vd_len := of_nat (ss_len (segs ! ?i)),
      vd_flags := (if ?i < total_desc - 1 then (if ?i \<ge> read_bufs then 0 OR VRING_DESC_F_WRITE else 0) OR VRING_DESC_F_NEXT
                   else (if ?i \<ge> read_bufs then 0 OR VRING_DESC_F_WRITE else 0))\<rparr>"
    have "enqueue_segments_loop (desc[unat idx := ?d']) (vd_next ?d') segs read_bufs total_desc todo = Some x"
      and "unat idx < length desc"
      using 2(2) lt by (auto simp: Let_def split: if_splits)
    then show ?thesis using 2(1) [OF refl _ _ refl refl refl refl refl, of "()" "()"] False 2(4) lt by simp
  qed
qed simp

lemma vq_holds_enqueue:
  assumes "vq_holds P vq" and "P c" and run: "virtqueue_buffer_enqueue vq c sg r w = Some (rc, vq')"
  shows "vq_holds P vq'"
proof (cases "vq' = vq")
  case False
  then obtain x where "enqueue_segments_loop (vr_desc vq) (vq_head_free_desc vq) (sg_segs sg) r (r + w) (r + w) = Some x"
    "0 < r + w"
    using run by (auto simp: virtqueue_buffer_enqueue_def virtqueue_buffer_enqueue_segments_def Let_def bind_eq_Some_conv
        split: if_splits)
  then have segs: "r + w \<le> length (sg_segs sg)" using enqueue_segments_loop_bound by blast
  obtain free inflight where inv: "vq_inv free inflight vq" "\<forall>(c, is)\<in>set inflight. P c"
    using assms(1) by (auto simp: vq_holds_def)
  from inv(1) segs show ?thesis
  proof (cases rule: enqueue_total [of _ _ _ _ _ _ c])
    case (ok vq2)
    then have "vq2 = vq'" using run by simp
    then show ?thesis using ok(4) inv(2) assms(2) unfolding vq_holds_def by fastforce
  qed (use run False in simp_all)
qed (use assms(1) in simp)

lemma vq_holds_dequeue:
  assumes "vq_holds P vq" and run: "virtqueue_buffer_dequeue vq = Some (rc, out, len, vq')"
  shows "vq_holds P vq'" and "out = Some c \<Longrightarrow> P c" and "rc \<ge> 0 \<Longrightarrow> out \<noteq> None"
proof -
  obtain free inflight where inv: "vq_inv free inflight vq" "\<forall>(c, is)\<in>set inflight. P c"
    using assms(1) by (auto simp: vq_holds_def)
  have "vq_holds P vq' \<and> (out = Some c \<longrightarrow> P c) \<and> (rc \<ge> 0 \<longrightarrow> out \<noteq> None)"
  proof (cases "virtqueue_hasdata vq")
    case False
    then show ?thesis using run assms(1) by (auto simp: virtqueue_buffer_dequeue_def)
  next
    case True
    obtain c' "is" pre post h len' where d: "inflight = pre @ (c', is) # post" "unat h = hd is" "hd (pending vq) = hd is"
      "virtqueue_buffer_dequeue vq =
         Some (int (vr_num vq) - int (length free + length is), Some c', len', dequeued vq h is)"
      by (rule dequeue_run [OF inv(1) True])
    have "vq_inv (is @ free) (pre @ post) (dequeued vq h is)"
      using dequeue_inv [OF inv(1) [unfolded d(1)] True d(2,3)] .
    moreover have P: "\<forall>(c, is)\<in>set (pre @ post). P c" "P c'" using inv(2) d(1) by auto
    ultimately have "vq_holds P (dequeued vq h is)" unfolding vq_holds_def by blast
    then show ?thesis using run d(4) P(2) by auto
  qed
  then show "vq_holds P vq'" and "out = Some c \<Longrightarrow> P c" and "rc \<ge> 0 \<Longrightarrow> out \<noteq> None" by auto
qed

lemma vq_holds_masks [simp]:
  "vq_holds P (vq\<lparr>va_used_event := x\<rparr>) = vq_holds P vq" "vq_holds P (vq\<lparr>va_flags := y\<rparr>) = vq_holds P vq"
  "vq_holds P (vq\<lparr>vq_last_notified_idx := z\<rparr>) = vq_holds P vq"
  by (simp_all add: vq_holds_def vq_inv_def vq_shape_def pending_def)

lemma vq_holds_intr_disable [simp]: "vq_holds P (virtqueue_intr_disable vq) = vq_holds P vq"
  by (simp add: virtqueue_intr_disable_def)

lemma vq_holds_notify [simp]: "vq_holds P (snd (virtqueue_host_notify vq)) = vq_holds P vq"
  by (simp add: virtqueue_host_notify_def)

lemma vq_holds_host: "device_keeps host \<Longrightarrow> vq_holds P vq \<Longrightarrow> vq_holds P (host n vq)"
  unfolding vq_holds_def device_keeps_def by blast

lemma vq_holds_intr_enable:
  assumes "device_keeps host" and "vq_holds P vq"
  shows "vq_holds P (snd (virtqueue_intr_enable (host n) vq))"
  using vq_holds_host [OF assms(1)] assms(2) by (simp add: virtqueue_intr_enable_def Let_def)

section \<open>A device\<close>

fun free_walk :: "vring_desc list \<Rightarrow> u16 \<Rightarrow> nat \<Rightarrow> nat list" where
  "free_walk d h 0 = []"
| "free_walk d h (Suc n) = unat h # free_walk d (vd_next (d ! unat h)) n"

text \<open>The first descriptors of the chains that are not free.\<close>

definition chain_heads :: "'c virtqueue_vring \<Rightarrow> nat list" where
  "chain_heads vq = (
     let used = filter (\<lambda>i. i \<notin> set (free_walk (vr_desc vq) (vq_head_free_desc vq) (unat (vq_desc_avail vq))))
                  [0..<vr_num vq] in
     filter (\<lambda>i. \<not> list_ex (\<lambda>j. vd_flags (vr_desc vq ! j) AND VRING_DESC_F_NEXT \<noteq> 0
                                  \<and> unat (vd_next (vr_desc vq ! j)) = i) used) used)"

definition serving_device :: "nat \<Rightarrow> 'c virtqueue_vring \<Rightarrow> 'c virtqueue_vring" where
  "serving_device n vq = (if pending vq \<noteq> [] then vq
     else case chain_heads vq of [] \<Rightarrow> vq | h # _ \<Rightarrow> device_complete h 0 vq)"

lemma free_walk_linked: "free_linked d h free \<Longrightarrow> free_walk d h (length free) = free"
  by (induction free arbitrary: h) auto

lemma distinct_chain_pos:
  assumes "distinct (concat (map snd xs))" and "(c, is) \<in> set xs" and "(e, js) \<in> set xs"
    and "p < length is" and "q < length js" and "is ! p = js ! q" and "is \<noteq> []"
  shows "p = q \<and> is = js"
proof -
  have mem: "is \<in> set (map snd xs)" "js \<in> set (map snd xs)" using assms(2,3) by force+
  have "is = js"
  proof (rule ccontr)
    assume ne: "is \<noteq> js"
    have "is ! p \<in> set is" "is ! p \<in> set js" using nth_mem [OF assms(4)] nth_mem [OF assms(5)] assms(6) by simp_all
    moreover have "set is \<inter> set js = {}"
      using assms(1) mem ne unfolding distinct_concat_iff by blast
    ultimately show False by blast
  qed
  moreover have "distinct is" using assms(1) mem(1) unfolding distinct_concat_iff by blast
  ultimately show ?thesis using assms(4-6) nth_eq_iff_index_eq by blast
qed

lemma used_descriptors:
  assumes inv: "vq_inv free inflight vq"
  shows "{i. i < vr_num vq \<and> i \<notin> set free} = \<Union> (set ` snd ` set inflight)"
proof -
  note i = vq_invD [OF inv]
  let ?all = "free @ concat (map snd inflight)"
  have "set ?all \<subseteq> {..<vr_num vq}"
  proof
    fix x assume "x \<in> set ?all"
    then consider "x \<in> set free" | c "is" where "(c, is) \<in> set inflight" "x \<in> set is" by auto
    then show "x \<in> {..<vr_num vq}"
      using i(1) by cases (auto simp: vq_shape_def dest: free_linked_bound [OF i(5)] chain_linked_bound [OF i(6)])
  qed
  moreover have "card (set ?all) = vr_num vq" using i(2,3) distinct_card [OF i(2)] by simp
  ultimately have "set ?all = {..<vr_num vq}" by (intro card_subset_eq) simp_all
  then have "x < vr_num vq \<longleftrightarrow> x \<in> set free \<or> x \<in> \<Union> (set ` snd ` set inflight)" for x
    using lessThan_iff [of x "vr_num vq"] by auto
  moreover have "set free \<inter> \<Union> (set ` snd ` set inflight) = {}" using i(2) by auto
  ultimately show ?thesis by blast
qed

lemma chain_heads_set:
  assumes inv: "vq_inv free inflight vq"
  shows "set (chain_heads vq) = (hd \<circ> snd) ` set inflight"
proof -
  note i = vq_invD [OF inv]
  let ?d = "vr_desc vq"
  let ?used = "\<Union> (set ` snd ` set inflight)"
  let ?next = "\<lambda>j i. vd_flags (?d ! j) AND VRING_DESC_F_NEXT \<noteq> 0 \<and> unat (vd_next (?d ! j)) = i"
  have walk: "free_walk ?d (vq_head_free_desc vq) (unat (vq_desc_avail vq)) = free"
    using free_walk_linked [OF i(5)] i(4) by simp
  have heads: "set (chain_heads vq) = {x \<in> ?used. \<not> (\<exists>j\<in>?used. ?next j x)}"
    unfolding used_descriptors [OF inv, symmetric]
    by (auto simp: chain_heads_def walk list_ex_iff)
  have dist: "distinct (concat (map snd inflight))" using i(2) by simp
  show ?thesis unfolding heads
  proof (intro equalityI subsetI)
    fix x assume "x \<in> {x \<in> ?used. \<not> (\<exists>j\<in>?used. ?next j x)}"
    then obtain c "is" where c: "(c, is) \<in> set inflight" "x \<in> set is" and no: "\<And>j. j \<in> set is \<Longrightarrow> \<not> ?next j x"
      by fastforce
    obtain p where p: "p < length is" "x = is ! p" using c(2) by (auto simp: in_set_conv_nth)
    have "p = 0"
    proof (rule ccontr)
      assume "p \<noteq> 0"
      then have "p - 1 < length is" "p - 1 < length is - 1" "Suc (p - 1) = p" using p(1) by simp_all
      then have "?next (is ! (p - 1)) x" using i(6) [OF c(1)] p(2) unfolding chain_linked_iff by metis
      then show False using no [of "is ! (p - 1)"] \<open>p - 1 < length is\<close> by simp
    qed
    then have "x = hd is" using p by (simp add: hd_conv_nth)
    then show "x \<in> (hd \<circ> snd) ` set inflight" using c(1) by force
  next
    fix x assume "x \<in> (hd \<circ> snd) ` set inflight"
    then obtain c "is" where c: "(c, is) \<in> set inflight" "x = hd is" by auto
    have ne: "is \<noteq> []" using i(6) [OF c(1)] by auto
    then have x: "x = is ! 0" "x \<in> set is" using c(2) by (simp_all add: hd_conv_nth)
    have "\<not> ?next j x" if j: "(e, js) \<in> set inflight" "j \<in> set js" for e js j
    proof
      assume nx: "?next j x"
      obtain q where q: "q < length js" "j = js ! q" using j(2) by (auto simp: in_set_conv_nth)
      have l: "q < length js - 1" "x = js ! Suc q"
        using nx i(6) [OF j(1)] q unfolding chain_linked_iff by auto
      have "Suc q < length js" using l(1) by simp
      from distinct_chain_pos [OF dist c(1) j(1) _ this] x(1) l(2) ne show False by auto
    qed
    then show "x \<in> {x \<in> ?used. \<not> (\<exists>j\<in>?used. ?next j x)}" using c(1) x(2) by fastforce
  qed
qed

lemma serving_device_serves: "device_serves serving_device"
  unfolding device_serves_def
proof (intro allI impI)
  fix n free inflight and vq :: "'c virtqueue_vring"
  assume inv: "vq_inv free inflight vq"
  note h = chain_heads_set [OF inv]
  show "vq_inv free inflight (serving_device n vq) \<and> (inflight \<noteq> [] \<longrightarrow> pending (serving_device n vq) \<noteq> [])"
  proof (cases "chain_heads vq")
    case Nil
    then show ?thesis using inv h by (simp add: serving_device_def)
  next
    case (Cons x xs)
    then have x: "x \<in> (hd \<circ> snd) ` set inflight" using h by auto
    have shape: "vq_shape vq" "0 < vr_num vq" using vq_invD(1) [OF inv] vq_num_bounds by auto
    have "x \<in> set (chain_heads vq)" using Cons by simp
    then have "x < vr_num vq" by (simp add: chain_heads_def)
    then have "pending (device_complete x 0 vq) = pending vq @ [x]" if "pending vq = []"
      using pending_complete [OF shape(1)] shape(2) that by simp
    then show ?thesis using inv complete_inv [OF inv x, of 0] Cons by (simp add: serving_device_def)
  qed
qed

end
