(* ===== verification/Vsock_Inv.thy ===== *)
theory Vsock_Inv
  imports Vsock Virtqueue_Device
begin

text \<open>
  Correctness of the socket layer. The invariant \<open>sock_inv\<close> says that the tree is a table of exactly
  the sockets in a state with an address, that no two of them have the same addresses, and that
  every receive buffer and accept queue is well formed, and so is every packet buffer that waits in
  the receive queue of the device.

  What the socket layer relies on in a driver is the locale \<open>vsock_driver\<close>: the operations change
  nothing of what the socket layer keeps, except that \<open>create\<close> and \<open>accept\<close> add one fresh socket and
  \<open>destroy\<close> takes one away. The lemmas about the operations of \<open>vsock.c\<close> are proved once in it.
\<close>

section \<open>The state of the socket layer\<close>

text \<open>What the socket layer relies on: everything but the allocator, the driver's part of a socket and
  what transmission and events change in the device.\<close>

definition core where
  "core w = (w_sockets w, w_port_alloc_next w, w_events w, w_main_dev w, d_cid (w_dev w), d_rx (w_dev w), w_host w,
     w_next_sock w,
     (\<lambda>sid. map_option uk_vsock.truncate (w_socks w sid)))"

definition active :: "uk_vsock_state \<Rightarrow> bool" where
  "active st \<longleftrightarrow> st \<in> {UK_VSOCK_STATE_BOUND, UK_VSOCK_STATE_WAIT_CONNECT, UK_VSOCK_STATE_LISTENING,
     UK_VSOCK_STATE_OPEN}"

lemma active_simps [simp]:
  "active UK_VSOCK_STATE_BOUND" "active UK_VSOCK_STATE_WAIT_CONNECT"
  "active UK_VSOCK_STATE_LISTENING" "active UK_VSOCK_STATE_OPEN"
  "\<not> active UK_VSOCK_STATE_READY" "\<not> active UK_VSOCK_STATE_CLOSED"
  by (auto simp: active_def)

definition wf_sock :: "'a uk_vsock_scheme \<Rightarrow> bool" where
  "wf_sock s \<longleftrightarrow> wf_buffer (s_rx s) \<and> s_accept_queue_length s = int (length (s_accept_queue s))"

text \<open>The buffers that wait for packets are well formed, and the device completes only these.\<close>

definition rx_ok :: "vsock_world \<Rightarrow> bool" where
  "rx_ok w \<longleftrightarrow> vq_holds wf_netbuf (q_vq (d_rx (w_dev w))) \<and> device_keeps (w_host w)"

definition sock_inv :: "vsock_world \<Rightarrow> bool" where
  "sock_inv w \<longleftrightarrow> table_inv w \<and> rx_ok w \<and> (\<forall>sid s. w_socks w sid = Some s \<longrightarrow>
     sid < w_next_sock w \<and> wf_sock s \<and> (sid \<in> set (table_ids w) \<longleftrightarrow> active (s_state s)))"

lemma rx_ok_cong: "d_rx (w_dev w') = d_rx (w_dev w) \<Longrightarrow> w_host w' = w_host w \<Longrightarrow> rx_ok w' = rx_ok w"
  by (simp add: rx_ok_def)

lemma rx_ok_update [simp]:
  "rx_ok (w\<lparr>w_sockets := t\<rparr>) = rx_ok w" "rx_ok (w\<lparr>w_events := e\<rparr>) = rx_ok w"
  "rx_ok (w\<lparr>w_port_alloc_next := n\<rparr>) = rx_ok w" "rx_ok (w\<lparr>w_next_sock := k\<rparr>) = rx_ok w"
  "rx_ok (w\<lparr>w_socks := m\<rparr>) = rx_ok w" "rx_ok (sock_put sid s w) = rx_ok w"
  by (simp_all add: rx_ok_def sock_put_def)

lemma sock_invI:
  assumes "table_inv w" and "rx_ok w" and "\<And>sid s. w_socks w sid = Some s \<Longrightarrow>
     sid < w_next_sock w \<and> wf_sock s \<and> (sid \<in> set (table_ids w) \<longleftrightarrow> active (s_state s))"
  shows "sock_inv w"
  using assms by (simp add: sock_inv_def)

lemma sock_invD:
  assumes "sock_inv w"
  shows "table_inv w" and "w_socks w sid = Some s \<Longrightarrow> wf_sock s"
    and "w_socks w sid = Some s \<Longrightarrow> sid < w_next_sock w"
    and "w_socks w sid = Some s \<Longrightarrow> sid \<in> set (table_ids w) \<longleftrightarrow> active (s_state s)"
    and "rx_ok w"
  using assms by (auto simp: sock_inv_def)

section \<open>Equal cores\<close>

lemma truncate_fields:
  assumes "uk_vsock.truncate s = uk_vsock.truncate s'"
  shows "s_state s = s_state s'" "s_rx_shutdown s = s_rx_shutdown s'" "s_tx_shutdown s = s_tx_shutdown s'"
    "s_so_error s = s_so_error s'" "s_sock_type s = s_sock_type s'" "s_local_addr s = s_local_addr s'"
    "s_peer_addr s = s_peer_addr s'" "s_rx s = s_rx s'" "s_accept_queue s = s_accept_queue s'"
    "s_accept_queue_length s = s_accept_queue_length s'" "s_accept_queue_limit s = s_accept_queue_limit s'"
    "s_posix_sock s = s_posix_sock s'"
  using assms by (simp_all add: uk_vsock.truncate_def)

lemma core_fields:
  assumes "core w' = core w"
  shows "w_sockets w' = w_sockets w" "w_port_alloc_next w' = w_port_alloc_next w"
    "w_events w' = w_events w" "w_main_dev w' = w_main_dev w" "d_cid (w_dev w') = d_cid (w_dev w)"
    "w_next_sock w' = w_next_sock w" "table_ids w' = table_ids w" "d_rx (w_dev w') = d_rx (w_dev w)"
    "w_host w' = w_host w"
  using assms by (simp_all add: core_def table_ids_def)

lemma core_socks:
  assumes "core w' = core w"
  shows "map_option uk_vsock.truncate (w_socks w' sid) = map_option uk_vsock.truncate (w_socks w sid)"
proof -
  have "(\<lambda>sid. map_option uk_vsock.truncate (w_socks w' sid)) = (\<lambda>sid. map_option uk_vsock.truncate (w_socks w sid))"
    using assms by (simp add: core_def)
  then show ?thesis by (rule fun_cong)
qed

lemma core_sock:
  assumes "core w' = core w" and "w_socks w sid = Some s"
  obtains s' where "w_socks w' sid = Some s'" and "uk_vsock.truncate s' = uk_vsock.truncate s"
proof -
  from core_socks [OF assms(1), of sid] assms(2) that show thesis by (cases "w_socks w' sid") auto
qed

lemma core_sock_None: "core w' = core w \<Longrightarrow> w_socks w' sid = None \<longleftrightarrow> w_socks w sid = None"
  using core_socks [of w' w sid] by (cases "w_socks w' sid"; cases "w_socks w sid") auto

lemma wf_sock_truncate: "uk_vsock.truncate s = uk_vsock.truncate s' \<Longrightarrow> wf_sock s = wf_sock s'"
  by (simp add: wf_sock_def truncate_fields [of s s'])

lemma key_truncate:
  "uk_vsock.truncate s = uk_vsock.truncate s' \<Longrightarrow> uk_vsock_sockaddr_key s = uk_vsock_sockaddr_key s'"
  by (simp add: uk_vsock_sockaddr_key_def truncate_fields [of s s'])

lemma core_key:
  assumes "core w' = core w" and "w_socks w sid \<noteq> None"
  shows "key_of w' sid = key_of w sid"
proof -
  from assms(2) obtain s where s: "w_socks w sid = Some s" by blast
  with assms(1) obtain s' where "w_socks w' sid = Some s'" "uk_vsock.truncate s' = uk_vsock.truncate s"
    by (rule core_sock)
  with s show ?thesis using key_truncate [of s' s] by (simp add: key_of_def)
qed

lemma table_inv_cong:
  assumes "w_sockets w' = w_sockets w" and "d_cid (w_dev w') = d_cid (w_dev w)"
    and "\<And>sid. sid \<in> set (table_ids w) \<Longrightarrow> w_socks w sid \<noteq> None \<Longrightarrow>
          w_socks w' sid \<noteq> None \<and> key_of w' sid = key_of w sid"
    and "table_inv w"
  shows "table_inv w'"
proof -
  have ids: "table_ids w' = table_ids w" using assms(1) by (simp add: table_ids_def)
  have k: "key_of w' sid = key_of w sid" "w_socks w' sid \<noteq> None" if "sid \<in> set (table_ids w)" for sid
    using assms(3) [OF that] table_invD(3) [OF assms(4) that] by auto
  have "sorted_wrt (\<lambda>a b. key_tuple (key_of w' a) < key_tuple (key_of w' b)) (table_ids w)"
    using table_invD(2) [OF assms(4)] by (rule sorted_wrt_mono_rel [rotated]) (simp add: k)
  with assms(1,2,4) k show ?thesis unfolding table_inv_def ids by simp
qed

lemma sock_inv_core:
  assumes "core w' = core w" and inv: "sock_inv w"
  shows "sock_inv w'"
  unfolding sock_inv_def
proof (intro conjI allI impI)
  show "table_inv w'"
    by (rule table_inv_cong [OF core_fields(1,5) [OF assms(1)] _ sock_invD(1) [OF inv]])
      (simp add: core_key [OF assms(1)] core_sock_None [OF assms(1)])
  show "rx_ok w'" using sock_invD(5) [OF inv] rx_ok_cong [OF core_fields(8,9) [OF assms(1)]] by simp
  fix sid s assume "w_socks w' sid = Some s"
  then obtain s0 where s0: "w_socks w sid = Some s0" "uk_vsock.truncate s0 = uk_vsock.truncate s"
    by (rule core_sock [OF assms(1) [symmetric]])
  show "sid < w_next_sock w'" using sock_invD(3) [OF inv s0(1)] core_fields [OF assms(1)] by simp
  show "wf_sock s" using sock_invD(2) [OF inv s0(1)] wf_sock_truncate [OF s0(2)] by simp
  show "sid \<in> set (table_ids w') \<longleftrightarrow> active (s_state s)"
    using sock_invD(4) [OF inv s0(1)] core_fields [OF assms(1)] truncate_fields(1) [OF s0(2)] by simp
qed

section \<open>Changing sockets\<close>

lemma w_socks_put [simp]: "w_socks (sock_put sid s w) = (w_socks w)(sid \<mapsto> s)"
  and w_sockets_put [simp]: "w_sockets (sock_put sid s w) = w_sockets w"
  and w_next_put [simp]: "w_next_sock (sock_put sid s w) = w_next_sock w"
  and w_dev_put [simp]: "w_dev (sock_put sid s w) = w_dev w"
  and w_main_put [simp]: "w_main_dev (sock_put sid s w) = w_main_dev w"
  and w_events_put [simp]: "w_events (sock_put sid s w) = w_events w"
  and w_port_put [simp]: "w_port_alloc_next (sock_put sid s w) = w_port_alloc_next w"
  and w_host_put [simp]: "w_host (sock_put sid s w) = w_host w"
  by (simp_all add: sock_put_def)

lemma table_ids_put [simp]: "table_ids (sock_put sid s w) = table_ids w"
  by (simp add: table_ids_def)

lemma key_of_put: "key_of (sock_put sid s w) x = (if x = sid then uk_vsock_sockaddr_key s else key_of w x)"
  by (simp add: key_of_def)

lemma key_of_eq: "w_socks w sid = Some s \<Longrightarrow> key_of w sid = uk_vsock_sockaddr_key s"
  by (simp add: key_of_def)

text \<open>A change that keeps the addresses of a socket with an address, and the kind of its state.\<close>

lemma inv_put:
  assumes inv: "sock_inv w" and s: "w_socks w sid = Some s"
    and key: "active (s_state s) \<Longrightarrow> uk_vsock_sockaddr_key s' = uk_vsock_sockaddr_key s"
    and act: "active (s_state s') = active (s_state s)" and wf: "wf_sock s'"
  shows "sock_inv (sock_put sid s' w)"
proof (rule sock_invI)
  have "key_of (sock_put sid s' w) x = key_of w x" if "x \<in> set (table_ids w)" for x
    using that sock_invD(4) [OF inv s] key key_of_eq [OF s] by (cases "x = sid") (simp_all add: key_of_put)
  then show "table_inv (sock_put sid s' w)"
    by (intro table_inv_cong [OF _ _ _ sock_invD(1) [OF inv]]) simp_all
  show "rx_ok (sock_put sid s' w)" using sock_invD(5) [OF inv] by simp
  fix x y assume "w_socks (sock_put sid s' w) x = Some y"
  then consider "x = sid" "y = s'" | "w_socks w x = Some y" by (cases "x = sid") simp_all
  then show "x < w_next_sock (sock_put sid s' w) \<and> wf_sock y
    \<and> (x \<in> set (table_ids (sock_put sid s' w)) \<longleftrightarrow> active (s_state y))"
  proof cases
    case 1
    with sock_invD(3,4) [OF inv s] act wf show ?thesis by simp
  next
    case 2
    with sock_invD(2-4) [OF inv 2] show ?thesis by simp
  qed
qed

text \<open>A socket leaves the table.\<close>

lemma inv_remove:
  assumes inv: "sock_inv w" and s: "w_socks w sid = Some s" and act: "active (s_state s)"
  obtains t where "uk_vsockets_REMOVE sid w = Some (w\<lparr>w_sockets := t\<rparr>)"
    and "\<And>s'. \<not> active (s_state s') \<Longrightarrow> wf_sock s' \<Longrightarrow> sock_inv (sock_put sid s' (w\<lparr>w_sockets := t\<rparr>))"
    and "inorder t = remove1 sid (table_ids w)"
proof -
  have "sid \<in> set (table_ids w)" using sock_invD(4) [OF inv s] act by simp
  with sock_invD(1) [OF inv] obtain t where t: "uk_vsockets_REMOVE sid w = Some (w\<lparr>w_sockets := t\<rparr>)"
    "inorder t = remove1 sid (table_ids w)" "table_inv (w\<lparr>w_sockets := t\<rparr>)"
    by (rule remove_table)
  have set: "set (inorder t) = set (table_ids w) - {sid}"
    using t(2) set_remove1_eq [OF table_distinct [OF sock_invD(1) [OF inv]]] by simp
  have "sock_inv (sock_put sid s' (w\<lparr>w_sockets := t\<rparr>))" if "\<not> active (s_state s')" "wf_sock s'" for s'
  proof (rule sock_invI)
    show "table_inv (sock_put sid s' (w\<lparr>w_sockets := t\<rparr>))"
      by (rule table_inv_cong [OF _ _ _ t(3)]) (use set in \<open>auto simp: key_of_put table_ids_def\<close>)
    show "rx_ok (sock_put sid s' (w\<lparr>w_sockets := t\<rparr>))" using sock_invD(5) [OF inv] by simp
    fix x y assume "w_socks (sock_put sid s' (w\<lparr>w_sockets := t\<rparr>)) x = Some y"
    then consider "x = sid" "y = s'" | "x \<noteq> sid" "w_socks w x = Some y" by (auto split: if_splits)
    then show "x < w_next_sock (sock_put sid s' (w\<lparr>w_sockets := t\<rparr>)) \<and> wf_sock y
      \<and> (x \<in> set (table_ids (sock_put sid s' (w\<lparr>w_sockets := t\<rparr>))) \<longleftrightarrow> active (s_state y))"
    proof cases
      case 1
      with sock_invD(3) [OF inv s] that set show ?thesis by (simp add: table_ids_def)
    next
      case 2
      with sock_invD(2-4) [OF inv 2(2)] set show ?thesis by (simp add: table_ids_def)
    qed
  qed
  from that [OF t(1) this t(2)] show thesis .
qed

text \<open>A socket is in the table; its state follows.\<close>

lemma inv_entry:
  assumes inv: "sock_inv w" and s: "w_socks w sid = Some s"
    and tab: "table_inv ((sock_put sid s' w)\<lparr>w_sockets := t\<rparr>)"
    and ids: "set (inorder t) = insert sid (set (table_ids w))"
    and s'': "active (s_state s'')" "wf_sock s''" "uk_vsock_sockaddr_key s'' = uk_vsock_sockaddr_key s'"
  shows "sock_inv ((sock_put sid s'' w)\<lparr>w_sockets := t\<rparr>)"
proof (rule sock_invI)
  show "table_inv ((sock_put sid s'' w)\<lparr>w_sockets := t\<rparr>)"
    by (rule table_inv_cong [OF _ _ _ tab]) (use s'' in \<open>auto simp: key_of_def\<close>)
  show "rx_ok ((sock_put sid s'' w)\<lparr>w_sockets := t\<rparr>)" using sock_invD(5) [OF inv] by simp
  fix x y assume "w_socks ((sock_put sid s'' w)\<lparr>w_sockets := t\<rparr>) x = Some y"
  then consider "x = sid" "y = s''" | "x \<noteq> sid" "w_socks w x = Some y" by (auto split: if_splits)
  then show "x < w_next_sock ((sock_put sid s'' w)\<lparr>w_sockets := t\<rparr>) \<and> wf_sock y
    \<and> (x \<in> set (table_ids ((sock_put sid s'' w)\<lparr>w_sockets := t\<rparr>)) \<longleftrightarrow> active (s_state y))"
  proof cases
    case 1
    with sock_invD(3) [OF inv s] s'' ids show ?thesis by (simp add: table_ids_def)
  next
    case 2
    with sock_invD(2-4) [OF inv 2(2)] ids show ?thesis by (simp add: table_ids_def)
  qed
qed

text \<open>A socket enters the table, with addresses that no socket of the table has.\<close>

lemma inv_insert:
  assumes inv: "sock_inv w" and s: "w_socks w sid = Some s" and act: "\<not> active (s_state s)"
    and cid: "a_cid (s_local_addr s') = d_cid (w_dev w)"
    and fresh: "\<forall>x\<in>set (table_ids w). key_of w x \<noteq> uk_vsock_sockaddr_key s'"
  obtains t where "uk_vsockets_INSERT sid (sock_put sid s' w) = (None, (sock_put sid s' w)\<lparr>w_sockets := t\<rparr>)"
    and "\<And>s''. active (s_state s'') \<Longrightarrow> wf_sock s'' \<Longrightarrow> uk_vsock_sockaddr_key s'' = uk_vsock_sockaddr_key s' \<Longrightarrow>
      sock_inv ((sock_put sid s'' w)\<lparr>w_sockets := t\<rparr>)"
    and "set (inorder t) = insert sid (set (table_ids w))"
proof -
  let ?w = "sock_put sid s' w"
  have out: "sid \<notin> set (table_ids w)" using sock_invD(4) [OF inv s] act by simp
  have tab: "table_inv ?w"
    by (rule table_inv_cong [OF _ _ _ sock_invD(1) [OF inv]]) (use out in \<open>auto simp: key_of_put\<close>)
  moreover have "a_cid (ci_local (key_of ?w sid)) = d_cid (w_dev ?w)"
    using cid by (simp add: key_of_put uk_vsock_sockaddr_key_def)
  moreover have "\<forall>x\<in>set (table_ids ?w). key_of ?w x \<noteq> key_of ?w sid"
    using fresh out by (auto simp: key_of_put)
  ultimately obtain t where t: "uk_vsockets_INSERT sid ?w = (None, ?w\<lparr>w_sockets := t\<rparr>)"
    "set (inorder t) = insert sid (set (table_ids ?w))" "table_inv (?w\<lparr>w_sockets := t\<rparr>)"
    using insert_table [of ?w sid thesis] by auto
  then show thesis by (intro that [OF t(1)] inv_entry [OF inv s t(3)]) simp_all
qed

section \<open>Congruence\<close>

lemma core_put:
  assumes "core w1 = core w2" and "uk_vsock.truncate s1 = uk_vsock.truncate s2"
  shows "core (sock_put sid s1 w1) = core (sock_put sid s2 w2)"
proof -
  have "(\<lambda>x. map_option uk_vsock.truncate (w_socks (sock_put sid s1 w1) x)) =
      (\<lambda>x. map_option uk_vsock.truncate (w_socks (sock_put sid s2 w2) x))"
    using core_socks [OF assms(1)] assms(2) by (intro ext) simp
  with core_fields [OF assms(1)] show ?thesis unfolding core_def by simp
qed

lemma core_sockets: "core w1 = core w2 \<Longrightarrow> core (w1\<lparr>w_sockets := t\<rparr>) = core (w2\<lparr>w_sockets := t\<rparr>)"
  by (simp add: core_def)

lemma core_events: "core w1 = core w2 \<Longrightarrow> core (w1\<lparr>w_events := e\<rparr>) = core (w2\<lparr>w_events := e\<rparr>)"
  by (simp add: core_def)

lemma sock_inv_events [simp]: "sock_inv (w\<lparr>w_events := e\<rparr>) = sock_inv w"
  by (simp add: sock_inv_def table_inv_def table_ids_def key_of_def)

lemma sock_upd_eq_Some [returns]: "sock_upd sid f w = Some w' \<longleftrightarrow> (\<exists>s. w_socks w sid = Some s \<and> w' = sock_put sid (f s) w)"
  by (auto simp: sock_upd_def bind_eq_Some_conv)

lemma event_set_eq_Some [returns]: "posix_sock_event_set ps ev w = Some w' \<longleftrightarrow>
    (\<exists>p. ps = Some p \<and> w' = w\<lparr>w_events := (w_events w)(p := w_events w p OR ev)\<rparr>)"
  by (auto simp: posix_sock_event_set_def split: option.splits)

lemma event_clear_eq_Some [returns]: "posix_sock_event_clear ps ev w = Some w' \<longleftrightarrow>
    (\<exists>p. ps = Some p \<and> w' = w\<lparr>w_events := (w_events w)(p := w_events w p AND NOT ev)\<rparr>)"
  by (auto simp: posix_sock_event_clear_def split: option.splits)

declare sock_get_def [returns]

section \<open>Closing\<close>

definition close_sock :: "virtio_vsock \<Rightarrow> virtio_vsock" where
  "close_sock s = s\<lparr>s_state := UK_VSOCK_STATE_CLOSED, s_rx_shutdown := True, s_tx_shutdown := True\<rparr>"

definition close_events :: "u32 \<Rightarrow> u32" where
  "close_events ev = (ev AND NOT EPOLLOUT) OR EPOLLHUP"

lemma sock_put_put [simp]: "sock_put sid s (sock_put sid s' w) = sock_put sid s w"
  by (simp add: sock_put_def)

lemma sock_put_sockets: "sock_put sid s (w\<lparr>w_sockets := t\<rparr>) = (sock_put sid s w)\<lparr>w_sockets := t\<rparr>"
  by (simp add: sock_put_def)

lemma close_finish_eq:
  assumes "w_socks w sid = Some s"
  shows "close_finish sid w = Some (rc, w') \<longleftrightarrow> rc = 0 \<and> (\<exists>p. s_posix_sock s = Some p
    \<and> w' = (sock_put sid (close_sock s) w)\<lparr>w_events := (w_events w)(p := close_events (w_events w p))\<rparr>)"
  using assms by (auto simp: close_finish_def returns close_sock_def close_events_def)

text \<open>A socket with an address is taken out of the table and closed.\<close>

lemma remove_finish:
  assumes inv: "sock_inv w" and s: "w_socks w sid = Some s" and act: "active (s_state s)"
    and run: "uk_vsockets_REMOVE sid w \<bind> close_finish sid = Some (rc, w')"
  obtains t p where "rc = 0" and "s_posix_sock s = Some p" and "sock_inv w'"
    and "w' = (sock_put sid (close_sock s) w)\<lparr>w_sockets := t,
           w_events := (w_events w)(p := close_events (w_events w p))\<rparr>"
    and "inorder t = remove1 sid (table_ids w)"
proof -
  obtain t where t: "uk_vsockets_REMOVE sid w = Some (w\<lparr>w_sockets := t\<rparr>)"
    "\<And>s'. \<not> active (s_state s') \<Longrightarrow> wf_sock s' \<Longrightarrow> sock_inv (sock_put sid s' (w\<lparr>w_sockets := t\<rparr>))"
    "inorder t = remove1 sid (table_ids w)"
    by (rule inv_remove [OF inv s act]) (rule that)
  have s': "w_socks (w\<lparr>w_sockets := t\<rparr>) sid = Some s" using s by simp
  obtain p where p: "rc = 0" "s_posix_sock s = Some p"
    "w' = (sock_put sid (close_sock s) (w\<lparr>w_sockets := t\<rparr>))\<lparr>w_events := (w_events w)(p := close_events (w_events w p))\<rparr>"
    using run t(1) close_finish_eq [OF s', of rc w'] by auto
  have "wf_sock (close_sock s)" using sock_invD(2) [OF inv s] by (simp add: wf_sock_def close_sock_def)
  then have "sock_inv w'" using t(2) [of "close_sock s"] by (simp add: p(3) close_sock_def)
  with p t(3) show thesis by (intro that [of p t]) (simp_all add: sock_put_sockets)
qed

text \<open>Which packet \<open>uk_vsock_close\<close> sends first, unless the connection was reset before.\<close>

definition close_pre :: "uk_vsockdev_ops \<Rightarrow> uk_vsock_state \<Rightarrow> nat \<Rightarrow> vsock_world \<Rightarrow> (int \<times> vsock_world) option" where
  "close_pre ops st sid w = (case st of
     UK_VSOCK_STATE_OPEN \<Rightarrow> dev_call (op_shutdown ops sid True True) w
   | UK_VSOCK_STATE_WAIT_CONNECT \<Rightarrow> dev_call (op_reset ops sid) w
   | _ \<Rightarrow> Some (0, w))"

definition drained :: "virtio_vsock \<Rightarrow> virtio_vsock" where
  "drained s = (if s_state s = UK_VSOCK_STATE_WAIT_CONNECT then s
     else s\<lparr>s_accept_queue := [], s_accept_queue_length := 0\<rparr>)"

lemma drained_simps [simp]: "s_state (drained s) = s_state s" "s_posix_sock (drained s) = s_posix_sock s"
  by (simp_all add: drained_def)

text \<open>The state of the socket layer after a socket was closed.\<close>

definition closed_world :: "nat \<Rightarrow> virtio_vsock \<Rightarrow> nat rbt \<Rightarrow> nat \<Rightarrow> vsock_world \<Rightarrow> vsock_world" where
  "closed_world sid s t p w = (sock_put sid (close_sock (drained s)) w)\<lparr>w_sockets := t,
     w_events := (w_events w)(p := close_events (w_events w p))\<rparr>"

lemma finish_core:
  assumes "core w2 = core (sock_put sid sx w)" and inv: "sock_inv (sock_put sid sx w)"
    and act: "active (s_state sx)"
    and run: "uk_vsockets_REMOVE sid w2 \<bind> close_finish sid = Some (rc, w')"
  obtains t p where "rc = 0" and "s_posix_sock sx = Some p" and "sock_inv w'"
    and "core w' = core ((sock_put sid (close_sock sx) w)\<lparr>w_sockets := t,
           w_events := (w_events w)(p := close_events (w_events w p))\<rparr>)"
    and "inorder t = remove1 sid (table_ids w)"
proof -
  have inv2: "sock_inv w2" by (rule sock_inv_core [OF assms(1) inv])
  obtain s2 where s2: "w_socks w2 sid = Some s2" "uk_vsock.truncate s2 = uk_vsock.truncate sx"
    by (rule core_sock [OF assms(1), of sid sx]) simp_all
  note f = truncate_fields [OF s2(2)] and cf = core_fields [OF assms(1)]
  have act2: "active (s_state s2)" using act f by simp
  obtain t p where r: "rc = 0" "s_posix_sock s2 = Some p" "sock_inv w'"
    "w' = (sock_put sid (close_sock s2) w2)\<lparr>w_sockets := t,
           w_events := (w_events w2)(p := close_events (w_events w2 p))\<rparr>"
    "inorder t = remove1 sid (table_ids w2)"
    by (rule remove_finish [OF inv2 s2(1) act2 run]) (rule that)
  have "core (sock_put sid (close_sock s2) w2) = core (sock_put sid (close_sock sx) (sock_put sid sx w))"
    using f by (intro core_put assms(1)) (simp add: close_sock_def uk_vsock.truncate_def)
  then have "core w' = core ((sock_put sid (close_sock sx) w)\<lparr>w_sockets := t,
           w_events := (w_events w)(p := close_events (w_events w p))\<rparr>)"
    using cf(3) by (simp add: r(4) core_def)
  then show thesis using r f cf by (intro that [of p t]) simp_all
qed

section \<open>The contract of a driver\<close>

definition fresh_sock :: "int \<Rightarrow> virtio_vsock \<Rightarrow> bool" where
  "fresh_sock ty s \<longleftrightarrow> s_state s = UK_VSOCK_STATE_READY \<and> s_sock_type s = ty \<and> wf_buffer (s_rx s)
     \<and> contents (s_rx s) = [] \<and> s_accept_queue s = [] \<and> s_accept_queue_length s = 0
     \<and> \<not> s_rx_shutdown s \<and> \<not> s_tx_shutdown s \<and> s_so_error s = 0 \<and> s_posix_sock s = None"

definition add_sock :: "virtio_vsock \<Rightarrow> vsock_world \<Rightarrow> vsock_world" where
  "add_sock s w = (sock_put (w_next_sock w) s w)\<lparr>w_next_sock := Suc (w_next_sock w)\<rparr>"

definition del_sock :: "nat \<Rightarrow> vsock_world \<Rightarrow> vsock_world" where
  "del_sock sid w = w\<lparr>w_socks := (w_socks w)(sid := None)\<rparr>"

locale vsock_driver =
  fixes ops :: uk_vsockdev_ops
  assumes get_cid: "op_get_cid ops w = d_cid (w_dev w)"
    and reset_core: "op_reset ops sid w = Some (rc, w') \<Longrightarrow> core w' = core w"
    and shutdown_core: "op_shutdown ops sid rx tx w = Some (rc, w') \<Longrightarrow> core w' = core w"
    and connect_core: "op_connect ops sid w = Some (rc, w') \<Longrightarrow> core w' = core w"
    and credit_core: "op_send_credit_update ops sid w = Some (rc, w') \<Longrightarrow> core w' = core w"
    and send_core: "op_send ops sid buf w = Some (n, w') \<Longrightarrow> core w' = core w"
    and free_core: "core (op_free_accept_entry ops sid e w) = core w"
    and create_core: "op_create ops ty pr w = Some (rc, out, w') \<Longrightarrow>
      if rc = 0 then (\<exists>s. out = Some (w_next_sock w) \<and> fresh_sock ty s \<and> core w' = core (add_sock s w))
      else core w' = core w"
    and accept_core: "op_accept ops sid e w = Some (rc, out, w') \<Longrightarrow> w_socks w sid = Some l \<Longrightarrow>
      if rc = 0 then (\<exists>s. out = Some (w_next_sock w) \<and> fresh_sock (s_sock_type l) s
        \<and> s_local_addr s = \<lparr>a_cid = d_cid (w_dev w), a_port = a_port (s_local_addr l)\<rparr>
        \<and> s_peer_addr s = ae_peer e \<and> core w' = core (add_sock s w))
      else core w' = core w"
    and destroy_core: "op_destroy ops sid w = Some (rc, w') \<Longrightarrow> core w' = core (del_sock sid w)"
begin

lemma drain_core:
  "w_socks w sid = Some s \<Longrightarrow> drain_loop ops sid es w = Some w' \<Longrightarrow> s_accept_queue s = es \<Longrightarrow>
     core w' = core (sock_put sid (s\<lparr>s_accept_queue := [],
       s_accept_queue_length := s_accept_queue_length s - int (length es)\<rparr>) w)"
proof (induction es arbitrary: s w)
  case Nil
  then have "s\<lparr>s_accept_queue := []\<rparr> = s" by (cases s) simp
  moreover have "sock_put sid s w = w" using Nil.prems(1) by (simp add: sock_put_def fun_upd_idem)
  ultimately show ?case using Nil.prems(2) by simp
next
  case (Cons e es)
  let ?w1 = "sock_put sid (s\<lparr>s_accept_queue := es\<rparr>) w"
  let ?w2 = "op_free_accept_entry ops sid e ?w1"
  obtain s2 where s2: "w_socks ?w2 sid = Some s2" "uk_vsock.truncate s2 = uk_vsock.truncate (s\<lparr>s_accept_queue := es\<rparr>)"
    by (rule core_sock [OF free_core, of ?w1 sid "s\<lparr>s_accept_queue := es\<rparr>"]) simp_all
  let ?s3 = "s2\<lparr>s_accept_queue_length := s_accept_queue_length s2 - 1\<rparr>"
  have "drain_loop ops sid es (sock_put sid ?s3 ?w2) = Some w'"
    using Cons.prems(1,2) s2(1) by (simp add: returns)
  moreover have "s_accept_queue ?s3 = es" using truncate_fields(9) [OF s2(2)] by simp
  ultimately have "core w' = core (sock_put sid (?s3\<lparr>s_accept_queue := [],
      s_accept_queue_length := s_accept_queue_length ?s3 - int (length es)\<rparr>) ?w2)"
    using Cons.IH [of "sock_put sid ?s3 ?w2" ?s3] by simp
  also have "\<dots> = core (sock_put sid (s\<lparr>s_accept_queue := [],
      s_accept_queue_length := s_accept_queue_length s - int (length (e # es))\<rparr>) ?w1)"
    using truncate_fields [OF s2(2)] by (intro core_put free_core) (simp add: uk_vsock.truncate_def)
  finally show ?case by simp
qed

lemma drain_finish:
  assumes c1: "core w1 = core w" and inv: "sock_inv w" and s: "w_socks w sid = Some s"
    and act: "active (s_state s)" and st: "s_state s \<noteq> UK_VSOCK_STATE_WAIT_CONNECT"
    and run: "dev_call (uk_vsock_drain_accept_queue ops sid) w1 \<bind>
      (\<lambda>w. uk_vsockets_REMOVE sid w \<bind> close_finish sid) = Some (rc, w')"
  obtains t p where "rc = 0" and "s_posix_sock s = Some p" and "sock_inv w'"
    and "core w' = core (closed_world sid s t p w)" and "inorder t = remove1 sid (table_ids w)"
proof -
  obtain s1 where s1: "w_socks w1 sid = Some s1" "uk_vsock.truncate s1 = uk_vsock.truncate s"
    by (rule core_sock [OF c1 s])
  note f = truncate_fields [OF s1(2)]
  obtain w2 where w2: "drain_loop ops sid (s_accept_queue s1) w1 = Some w2"
    "uk_vsockets_REMOVE sid w2 \<bind> close_finish sid = Some (rc, w')"
    using run s1(1)
    by (auto simp: dev_call_def uk_vsock_drain_accept_queue_def returns split: if_splits)
  have wf: "wf_sock s" by (rule sock_invD(2) [OF inv s])
  have "core w2 = core (sock_put sid (s1\<lparr>s_accept_queue := [],
      s_accept_queue_length := s_accept_queue_length s1 - int (length (s_accept_queue s1))\<rparr>) w1)"
    by (rule drain_core [OF s1(1) w2(1) refl])
  also have "\<dots> = core (sock_put sid (drained s) w)"
    using f wf st c1 by (intro core_put) (simp_all add: drained_def wf_sock_def uk_vsock.truncate_def)
  finally have c2: "core w2 = core (sock_put sid (drained s) w)" .
  have inv2: "sock_inv (sock_put sid (drained s) w)"
    by (rule inv_put [OF inv s])
      (use wf in \<open>simp_all add: drained_def wf_sock_def uk_vsock_sockaddr_key_def\<close>)
  have "active (s_state (drained s))" using act by (simp add: drained_def)
  then show thesis
    by (rule finish_core [OF c2 inv2 _ w2(2)]) (rule that, simp_all add: closed_world_def)
qed

text \<open>The part of \<open>uk_vsock_close\<close> after the packets to the peer were sent.\<close>

lemma close_last:
  assumes c1: "core w1 = core w" and inv: "sock_inv w" and s: "w_socks w sid = Some s"
    and act: "active (s_state s)"
    and run: "(if s_state s = UK_VSOCK_STATE_WAIT_CONNECT then uk_vsockets_REMOVE sid w1 \<bind> close_finish sid
      else dev_call (uk_vsock_drain_accept_queue ops sid) w1 \<bind>
        (\<lambda>w. uk_vsockets_REMOVE sid w \<bind> close_finish sid)) = Some (rc, w')"
  obtains t p where "rc = 0" and "s_posix_sock s = Some p" and "sock_inv w'"
    and "core w' = core (closed_world sid s t p w)" and "inorder t = remove1 sid (table_ids w)"
proof (cases "s_state s = UK_VSOCK_STATE_WAIT_CONNECT")
  case True
  have put: "sock_put sid s w = w" using s by (simp add: sock_put_def fun_upd_idem)
  have go: "uk_vsockets_REMOVE sid w1 \<bind> close_finish sid = Some (rc, w')" using True run by simp
  show thesis
    by (rule finish_core [of w1 sid s w, unfolded put, OF c1 inv act go])
      (rule that, simp_all add: closed_world_def drained_def True)
next
  case False
  with run have go: "dev_call (uk_vsock_drain_accept_queue ops sid) w1 \<bind>
      (\<lambda>w. uk_vsockets_REMOVE sid w \<bind> close_finish sid) = Some (rc, w')" by simp
  show thesis by (rule drain_finish [OF c1 inv s act False go]) (rule that)
qed

lemma close_pre_core: "close_pre ops st sid w = Some (rc, w') \<Longrightarrow> core w' = core w"
  by (auto simp: close_pre_def dev_call_def shutdown_core reset_core split: uk_vsock_state.splits if_splits)

lemma close_split:
  assumes c1: "core w1 = core w" and s: "w_socks w sid = Some s"
    and reset: "(if force then dev_call (op_reset ops sid) w else Some (0, w)) = Some (0, w1)"
    and act: "active (s_state s)"
  shows "uk_vsock_close ops sid force w =
    (if force then Some (0, w1) else close_pre ops (s_state s) sid w1) \<bind> (\<lambda>(rc, w).
       if rc \<noteq> 0 then Some (rc, w)
       else if s_state s = UK_VSOCK_STATE_WAIT_CONNECT then uk_vsockets_REMOVE sid w \<bind> close_finish sid
       else dev_call (uk_vsock_drain_accept_queue ops sid) w \<bind>
         (\<lambda>w. uk_vsockets_REMOVE sid w \<bind> close_finish sid))"
proof -
  obtain s1 where s1: "w_socks w1 sid = Some s1" "uk_vsock.truncate s1 = uk_vsock.truncate s"
    by (rule core_sock [OF c1 s])
  with act truncate_fields(1) [OF s1(2)] reset show ?thesis
    by (cases "s_state s") (simp_all add: uk_vsock_close_def sock_get_def close_pre_def case_prod_unfold cong: if_cong)
qed

lemma close_cases:
  assumes inv: "sock_inv w" and s: "w_socks w sid = Some s"
    and run: "uk_vsock_close ops sid force w = Some (rc, w')"
  obtains (err) "rc \<noteq> 0" and "core w' = core w"
    | (idle) "rc = 0" and "core w' = core w" and "\<not> active (s_state s)"
    | (closed) t p where "rc = 0" and "active (s_state s)" and "s_posix_sock s = Some p" and "sock_inv w'"
        and "core w' = core (closed_world sid s t p w)" and "inorder t = remove1 sid (table_ids w)"
proof -
  obtain rc1 w1 where w1: "(if force then dev_call (op_reset ops sid) w else Some (0, w)) = Some (rc1, w1)"
    using run by (auto simp: uk_vsock_close_def bind_eq_Some_conv)
  then have c1: "core w1 = core w" by (auto simp: dev_call_def reset_core split: if_splits)
  consider "rc1 \<noteq> 0" | "rc1 = 0" "\<not> active (s_state s)" | "rc1 = 0" "active (s_state s)" by blast
  then show thesis
  proof cases
    case 1
    with w1 run c1 show thesis by (intro err) (auto simp: uk_vsock_close_def)
  next
    case 2
    obtain s1 where s1: "w_socks w1 sid = Some s1" "uk_vsock.truncate s1 = uk_vsock.truncate s"
      by (rule core_sock [OF c1 s])
    have "rc = 0 \<and> w' = w1"
      using run w1 2 s1(1) truncate_fields(1) [OF s1(2)]
      by (cases "s_state s") (auto simp: uk_vsock_close_def sock_get_def)
    with 2 c1 show thesis by (intro idle) simp_all
  next
    case 3
    obtain rc2 w2 where w2: "(if force then Some (0, w1) else close_pre ops (s_state s) sid w1) = Some (rc2, w2)"
      "(if rc2 \<noteq> 0 then Some (rc2, w2)
        else if s_state s = UK_VSOCK_STATE_WAIT_CONNECT then uk_vsockets_REMOVE sid w2 \<bind> close_finish sid
        else dev_call (uk_vsock_drain_accept_queue ops sid) w2 \<bind>
         (\<lambda>w. uk_vsockets_REMOVE sid w \<bind> close_finish sid)) = Some (rc, w')"
      using run unfolding close_split [OF c1 s w1 [unfolded 3(1)] 3(2)]
      by (rule bind_pairE)
    have c2: "core w2 = core w" using w2(1) c1 close_pre_core by (auto split: if_splits)
    show thesis
    proof (cases "rc2 = 0")
      case True
      with w2(2) have go: "(if s_state s = UK_VSOCK_STATE_WAIT_CONNECT then uk_vsockets_REMOVE sid w2 \<bind> close_finish sid
        else dev_call (uk_vsock_drain_accept_queue ops sid) w2 \<bind>
         (\<lambda>w. uk_vsockets_REMOVE sid w \<bind> close_finish sid)) = Some (rc, w')" by simp
      show thesis by (rule close_last [OF c2 inv s 3(2) go]) (rule closed [OF _ 3(2)])
    qed (use w2(2) c2 err in auto)
  qed
qed

end

end
