(* ===== verification/Vsock_Preserve.thy ===== *)
theory Vsock_Preserve
  imports Vsock_Inv
begin

text \<open>
  Every operation of the socket layer keeps the invariant \<open>sock_inv\<close>, for every driver that fulfils
  the contract \<open>vsock_driver\<close>. Two operations need that the addresses of a connection are not in use
  already: \<open>vsock_accept4\<close> and \<open>vsock_connect\<close> of a bound socket put the socket into the tree without a
  check, and the result of the insertion is ignored.
\<close>

section \<open>More congruence\<close>

lemma sock_inv_port [simp]: "sock_inv (w\<lparr>w_port_alloc_next := n\<rparr>) = sock_inv w"
  by (simp add: sock_inv_def table_inv_def table_ids_def key_of_def)

lemma core_del: "core w1 = core w2 \<Longrightarrow> core (del_sock sid w1) = core (del_sock sid w2)"
proof -
  assume a: "core w1 = core w2"
  have "(\<lambda>x. map_option uk_vsock.truncate (w_socks (del_sock sid w1) x)) =
      (\<lambda>x. map_option uk_vsock.truncate (w_socks (del_sock sid w2) x))"
    using core_socks [OF a] by (intro ext) (simp add: del_sock_def)
  with core_fields [OF a] show ?thesis by (simp add: core_def del_sock_def)
qed

lemma inv_del:
  assumes inv: "sock_inv w" and out: "sid \<notin> set (table_ids w)"
  shows "sock_inv (del_sock sid w)"
proof (rule sock_invI)
  have ids: "table_ids (del_sock sid w) = table_ids w" by (simp add: table_ids_def del_sock_def)
  show "table_inv (del_sock sid w)"
    by (rule table_inv_cong [OF _ _ _ sock_invD(1) [OF inv]])
      (use out in \<open>auto simp: del_sock_def key_of_def\<close>)
  show "rx_ok (del_sock sid w)" using sock_invD(5) [OF inv] by (simp add: del_sock_def)
  fix x y assume "w_socks (del_sock sid w) x = Some y"
  then have y: "w_socks w x = Some y" by (simp add: del_sock_def split: if_splits)
  from sock_invD(2-4) [OF inv y] show "x < w_next_sock (del_sock sid w) \<and> wf_sock y
      \<and> (x \<in> set (table_ids (del_sock sid w)) \<longleftrightarrow> active (s_state y))"
    by (simp add: ids) (simp add: del_sock_def)
qed

lemma inv_add:
  assumes inv: "sock_inv w" and s: "\<not> active (s_state s)" "wf_sock s"
  shows "sock_inv (add_sock s w)"
proof (rule sock_invI)
  have new: "w_socks w (w_next_sock w) = None" using sock_invD(3) [OF inv] by fastforce
  have ids: "table_ids (add_sock s w) = table_ids w" by (simp add: table_ids_def add_sock_def)
  have nxt: "w_next_sock (add_sock s w) = Suc (w_next_sock w)" by (simp add: add_sock_def)
  have out: "w_next_sock w \<notin> set (table_ids w)" using table_invD(3) [OF sock_invD(1) [OF inv]] new by blast
  have same: "w_socks (add_sock s w) x = w_socks w x" if "x \<in> set (table_ids w)" for x
    using that out by (cases "x = w_next_sock w") (simp_all add: add_sock_def)
  show "table_inv (add_sock s w)"
    by (rule table_inv_cong [OF _ _ _ sock_invD(1) [OF inv]])
      (simp_all add: same key_of_def, simp_all add: add_sock_def)
  show "rx_ok (add_sock s w)" using sock_invD(5) [OF inv] by (simp add: add_sock_def)
  fix x y assume "w_socks (add_sock s w) x = Some y"
  then consider "x = w_next_sock w" "y = s" | "w_socks w x = Some y"
    by (cases "x = w_next_sock w") (simp_all add: add_sock_def)
  then show "x < w_next_sock (add_sock s w) \<and> wf_sock y
      \<and> (x \<in> set (table_ids (add_sock s w)) \<longleftrightarrow> active (s_state y))"
  proof cases
    case 1
    with s out show ?thesis by (simp add: ids nxt)
  next
    case 2
    from sock_invD(2-4) [OF inv 2] show ?thesis by (simp add: ids nxt)
  qed
qed

lemma fresh_sockD:
  assumes "fresh_sock ty s"
  shows "\<not> active (s_state s)" "wf_sock s" "s_sock_type s = ty" "s_posix_sock s = None"
  using assms by (simp_all add: fresh_sock_def wf_sock_def)

section \<open>Closing\<close>

context vsock_driver
begin

lemma close_inv:
  assumes "sock_inv w" and "w_socks w sid = Some s" and "uk_vsock_close ops sid force w = Some (rc, w')"
  shows "sock_inv w'"
  by (rule close_cases [OF assms]) (use sock_inv_core [OF _ assms(1)] in blast)+

lemma close_inactive:
  assumes "sock_inv w" and "w_socks w sid = Some s" and "uk_vsock_close ops sid force w = Some (0, w')"
  obtains s' where "w_socks w' sid = Some s'" and "\<not> active (s_state s')"
proof (cases rule: close_cases [OF assms])
  case 2
  from core_sock [OF 2(2) assms(2)] obtain s' where s': "w_socks w' sid = Some s'"
    "uk_vsock.truncate s' = uk_vsock.truncate s" .
  with that 2(3) truncate_fields(1) [OF s'(2)] show thesis by simp
next
  case (3 t p)
  have "w_socks (closed_world sid s t p w) sid = Some (close_sock (drained s))" by (simp add: closed_world_def)
  from core_sock [OF 3(5) this] obtain s' where s': "w_socks w' sid = Some s'"
    "uk_vsock.truncate s' = uk_vsock.truncate (close_sock (drained s))" .
  with that truncate_fields(1) [OF s'(2)] show thesis by (simp add: close_sock_def)
qed simp

lemma destroy_inv:
  assumes inv: "sock_inv w" and s: "w_socks w sid = Some s"
    and run: "uk_vsock_destroy ops sid w = Some (rc, w')"
  shows "sock_inv w'"
proof -
  obtain rc1 w1 where c: "uk_vsock_close ops sid False w = Some (rc1, w1)"
    and r: "(if rc1 \<noteq> 0 then Some (rc1, w1) else dev_call (op_destroy ops sid) w1) = Some (rc, w')"
    using run unfolding uk_vsock_destroy_def by (rule bind_pairE)
  note inv1 = close_inv [OF inv s c]
  show ?thesis
  proof (cases "rc1 = 0")
    case True
    obtain s' where s': "w_socks w1 sid = Some s'" "\<not> active (s_state s')"
      by (rule close_inactive [OF inv s c [unfolded True]])
    have "sid \<notin> set (table_ids w1)" using sock_invD(4) [OF inv1 s'(1)] s'(2) by simp
    moreover have "core w' = core (del_sock sid w1)"
      using r True by (auto simp: dev_call_def destroy_core split: if_splits)
    ultimately show ?thesis using inv_del [OF inv1] sock_inv_core by blast
  qed (use r inv1 in simp)
qed

end

section \<open>Handlers for the driver\<close>

lemma inv_rx:
  assumes "sock_inv w" and "w_socks w sid = Some s" and "wf_buffer b"
  shows "sock_inv (sock_put sid (s\<lparr>s_rx := b\<rparr>) w)"
  using sock_invD(2) [OF assms(1,2)] assms(3)
  by (intro inv_put [OF assms(1,2)]) (simp_all add: wf_sock_def uk_vsock_sockaddr_key_def)

text \<open>Changes of flags, errors and the POSIX socket.\<close>

lemma inv_flags:
  assumes "sock_inv w" and "w_socks w sid = Some s" and "uk_vsock_sockaddr_key s' = uk_vsock_sockaddr_key s"
    and "active (s_state s') = active (s_state s)" and "s_rx s' = s_rx s" and "s_accept_queue s' = s_accept_queue s"
    and "s_accept_queue_length s' = s_accept_queue_length s"
  shows "sock_inv (sock_put sid s' w)"
  using sock_invD(2) [OF assms(1,2)] assms(3-)
  by (intro inv_put [OF assms(1,2)]) (simp_all add: wf_sock_def)

lemma buffer_append_wf:
  assumes "wf_buffer b" and "\<forall>n\<in>set nb. wf_netbuf n" and "uk_vsock_buffer_append b nb = Some (rc, b')"
  shows "wf_buffer b'"
  using assms buffer_append_fits [OF assms(1,2)] buffer_append_full [OF assms(1), of nb]
  by (cases "b_count b + length (chain_bytes nb) \<le> b_capacity b") auto

lemma rx_payload_inv:
  assumes inv: "sock_inv w" and pkt: "\<forall>n\<in>set packet. wf_netbuf n"
    and run: "uk_vsock_rx_payload sid packet w = Some (rc, w')"
  shows "sock_inv w'"
proof -
  obtain s where s: "w_socks w sid = Some s" using run by (auto simp: uk_vsock_rx_payload_def returns)
  show ?thesis
  proof (cases "s_state s = UK_VSOCK_STATE_OPEN")
    case True
    with run s obtain rc1 b where b: "uk_vsock_buffer_append (s_rx s) packet = Some (rc1, b)"
      by (auto simp: uk_vsock_rx_payload_def returns)
    then have "wf_buffer b" using buffer_append_wf [OF _ pkt b] sock_invD(2) [OF inv s] by (simp add: wf_sock_def)
    from inv_rx [OF inv s this] show ?thesis
      using run s True b by (auto simp: uk_vsock_rx_payload_def returns Let_def split: if_splits)
  qed (use run s inv in \<open>simp add: uk_vsock_rx_payload_def sock_get_def\<close>)
qed

lemma conn_request_inv:
  assumes inv: "sock_inv w" and run: "uk_vsock_conn_request sid entry w = Some (rc, w')"
  shows "sock_inv w'"
proof -
  obtain s where s: "w_socks w sid = Some s" using run by (auto simp: uk_vsock_conn_request_def returns)
  have "sock_inv (sock_put sid (s\<lparr>s_accept_queue := s_accept_queue s @ [entry],
      s_accept_queue_length := s_accept_queue_length s + 1\<rparr>) w)"
    using sock_invD(2) [OF inv s]
    by (intro inv_put [OF inv s]) (simp_all add: wf_sock_def uk_vsock_sockaddr_key_def)
  then show ?thesis using run s inv by (auto simp: uk_vsock_conn_request_def returns split: if_splits)
qed

lemma notify_writable_inv:
  assumes "uk_vsock_notify_writable sid b w = Some w'"
  obtains e where "w' = w\<lparr>w_events := e\<rparr>"
  using assms by (auto simp: uk_vsock_notify_writable_def returns split: if_splits)

text \<open>A socket leaves the table and may be used again.\<close>

definition make_ready :: "nat \<Rightarrow> vsock_world \<Rightarrow> (int \<times> vsock_world) option" where
  "make_ready sid w = do {
     w \<leftarrow> uk_vsockets_REMOVE sid w;
     w \<leftarrow> sock_upd sid (\<lambda>s. s\<lparr>s_state := UK_VSOCK_STATE_READY\<rparr>) w;
     Some (0, w)
   }"

lemma make_ready_cases:
  assumes inv: "sock_inv w" and s: "w_socks w sid = Some s" "active (s_state s)"
  obtains t where "make_ready sid w = Some (0, (sock_put sid (s\<lparr>s_state := UK_VSOCK_STATE_READY\<rparr>) w)\<lparr>w_sockets := t\<rparr>)"
    and "inorder t = remove1 sid (table_ids w)"
    and "sock_inv ((sock_put sid (s\<lparr>s_state := UK_VSOCK_STATE_READY\<rparr>) w)\<lparr>w_sockets := t\<rparr>)"
proof -
  obtain t where t: "uk_vsockets_REMOVE sid w = Some (w\<lparr>w_sockets := t\<rparr>)"
    "\<And>s'. \<not> active (s_state s') \<Longrightarrow> wf_sock s' \<Longrightarrow> sock_inv (sock_put sid s' (w\<lparr>w_sockets := t\<rparr>))"
    "inorder t = remove1 sid (table_ids w)"
    by (rule inv_remove [OF inv s]) (rule that)
  have "make_ready sid w = Some (0, sock_put sid (s\<lparr>s_state := UK_VSOCK_STATE_READY\<rparr>) (w\<lparr>w_sockets := t\<rparr>))"
    using t(1) s(1) by (simp add: make_ready_def sock_upd_def)
  moreover have "sock_inv (sock_put sid (s\<lparr>s_state := UK_VSOCK_STATE_READY\<rparr>) (w\<lparr>w_sockets := t\<rparr>))"
    using t(2) sock_invD(2) [OF inv s(1)] by (simp add: wf_sock_def)
  ultimately show thesis using t(3) by (intro that [of t]) (simp_all add: sock_put_sockets)
qed

definition reset_events :: "u32 \<Rightarrow> u32" where
  "reset_events ev = (ev AND NOT EPOLLOUT) OR (EPOLLERR OR EPOLLHUP OR EPOLLRDHUP)"

lemma conn_reset_eq:
  assumes s: "w_socks w sid = Some s" and p: "s_posix_sock s = Some p"
  defines "w1 \<equiv> w\<lparr>w_events := (w_events w)(p := reset_events (w_events w p))\<rparr>"
  shows "uk_vsock_conn_reset ops sid w = (case s_state s of
      UK_VSOCK_STATE_WAIT_CONNECT \<Rightarrow>
        dev_call (op_reset ops sid) (sock_put sid (s\<lparr>s_so_error := - ECONNREFUSED\<rparr>) w1) \<bind>
          (\<lambda>(rc, w). if rc \<noteq> 0 then Some (rc, w) else make_ready sid w)
    | UK_VSOCK_STATE_OPEN \<Rightarrow> make_ready sid w1
    | _ \<Rightarrow> Some (0, w1))"
  using s p unfolding w1_def reset_events_def
  by (cases "s_state s") (simp_all add: uk_vsock_conn_reset_def sock_get_def posix_sock_event_set_def
      posix_sock_event_clear_def sock_upd_def make_ready_def case_prod_unfold cong: if_cong)

text \<open>A shutdown: which directions end, and the events that tell of it.\<close>

definition shut_sock :: "bool \<Rightarrow> bool \<Rightarrow> virtio_vsock \<Rightarrow> virtio_vsock" where
  "shut_sock peer_rx peer_tx s = (let s = (if peer_rx then s\<lparr>s_tx_shutdown := True\<rparr> else s) in
     if peer_tx then s\<lparr>s_rx_shutdown := True\<rparr> else s)"

definition shut_events :: "bool \<Rightarrow> bool \<Rightarrow> u32 \<Rightarrow> u32" where
  "shut_events peer_rx peer_tx ev = (let ev = (if peer_rx then ev AND NOT EPOLLOUT else ev) in
     if peer_tx then ev OR EPOLLRDHUP else ev)"

lemma sock_put_events: "sock_put sid s (w\<lparr>w_events := e\<rparr>) = (sock_put sid s w)\<lparr>w_events := e\<rparr>"
  by (simp add: sock_put_def)

lemma sock_put_idem: "w_socks w sid = Some s \<Longrightarrow> sock_put sid s w = w"
  by (simp add: sock_put_def fun_upd_idem)

lemma conn_shutdown_eq:
  fixes rx tx :: bool
  assumes s: "w_socks w sid = Some s" "s_state s = UK_VSOCK_STATE_OPEN" and p: "s_posix_sock s = Some p"
  defines "s1 \<equiv> shut_sock rx tx s"
  defines "w1 \<equiv> (sock_put sid s1 w)\<lparr>w_events := (w_events w)(p := shut_events rx tx (w_events w p))\<rparr>"
  shows "uk_vsock_conn_shutdown ops sid rx tx w =
    (if s_rx_shutdown s1 \<and> s_tx_shutdown s1 then uk_vsock_close ops sid False w1 else Some (0, w1))"
  using s p unfolding s1_def w1_def
  by (cases rx; cases tx) (simp_all add: uk_vsock_conn_shutdown_def sock_get_def posix_sock_event_set_def
      posix_sock_event_clear_def sock_upd_def shut_sock_def shut_events_def sock_put_events sock_put_idem)

context vsock_driver
begin

lemma conn_response_inv:
  assumes inv: "sock_inv w" and run: "uk_vsock_conn_response ops sid w = Some (rc, w')"
  shows "sock_inv w'"
proof -
  obtain s where s: "w_socks w sid = Some s" using run by (auto simp: uk_vsock_conn_response_def returns)
  show ?thesis
  proof (cases "s_state s = UK_VSOCK_STATE_WAIT_CONNECT")
    case True
    then have "sock_inv (sock_put sid (s\<lparr>s_state := UK_VSOCK_STATE_OPEN\<rparr>) w)"
      by (intro inv_flags [OF inv s]) (simp_all add: uk_vsock_sockaddr_key_def)
    with True run s show ?thesis by (auto simp: uk_vsock_conn_response_def returns)
  next
    case False
    with run s close_inv [OF inv s] show ?thesis by (auto simp: uk_vsock_conn_response_def returns)
  qed
qed

lemma conn_reset_inv:
  assumes inv: "sock_inv w" and run: "uk_vsock_conn_reset ops sid w = Some (rc, w')"
  shows "sock_inv w'"
proof -
  obtain s where s: "w_socks w sid = Some s" using run by (auto simp: uk_vsock_conn_reset_def returns)
  then obtain p where p: "s_posix_sock s = Some p" using run by (auto simp: uk_vsock_conn_reset_def returns)
  note eq = conn_reset_eq [OF s p]
  let ?w = "w\<lparr>w_events := (w_events w)(p := reset_events (w_events w p))\<rparr>" and ?s = "s\<lparr>s_so_error := - ECONNREFUSED\<rparr>"
  have i: "sock_inv ?w" "w_socks ?w sid = Some s" using inv s by simp_all
  consider "s_state s = UK_VSOCK_STATE_WAIT_CONNECT" | "s_state s = UK_VSOCK_STATE_OPEN"
    | "s_state s \<noteq> UK_VSOCK_STATE_WAIT_CONNECT" "s_state s \<noteq> UK_VSOCK_STATE_OPEN" by blast
  then show ?thesis
  proof cases
    case 1
    have i2: "sock_inv (sock_put sid ?s ?w)"
      by (rule inv_flags [OF i]) (simp_all add: uk_vsock_sockaddr_key_def)
    obtain rc2 w2 where w2: "dev_call (op_reset ops sid) (sock_put sid ?s ?w) = Some (rc2, w2)"
      "(if rc2 \<noteq> 0 then Some (rc2, w2) else make_ready sid w2) = Some (rc, w')"
      using run [unfolded eq] 1 by (auto elim: bind_pairE)
    then have c: "core w2 = core (sock_put sid ?s ?w)" by (auto simp: dev_call_def reset_core split: if_splits)
    obtain s2 where s2: "w_socks w2 sid = Some s2" "uk_vsock.truncate s2 = uk_vsock.truncate ?s"
      by (rule core_sock [OF c, of sid ?s]) simp_all
    note i3 = sock_inv_core [OF c i2]
    have "active (s_state s2)" using truncate_fields(1) [OF s2(2)] 1 by simp
    then have "rc2 = 0 \<Longrightarrow> ?thesis"
      using w2(2) by (elim make_ready_cases [OF i3 s2(1)]) auto
    with w2(2) i3 show ?thesis by (cases "rc2 = 0") auto
  next
    case 2
    then have "active (s_state s)" "make_ready sid ?w = Some (rc, w')" using run [unfolded eq] by simp_all
    then show ?thesis by (elim make_ready_cases [OF i]) auto
  next
    case 3
    then show ?thesis using run [unfolded eq] inv by (cases "s_state s") auto
  qed
qed

lemma conn_shutdown_inv:
  assumes inv: "sock_inv w" and run: "uk_vsock_conn_shutdown ops sid rx tx w = Some (rc, w')"
  shows "sock_inv w'"
proof -
  obtain s where s: "w_socks w sid = Some s" using run by (auto simp: uk_vsock_conn_shutdown_def returns)
  show ?thesis
  proof (cases "s_state s = UK_VSOCK_STATE_OPEN")
    case False
    with run s inv show ?thesis by (simp add: uk_vsock_conn_shutdown_def sock_get_def)
  next
    case True
    then obtain p where p: "s_posix_sock s = Some p"
      using run s by (auto simp: uk_vsock_conn_shutdown_def returns)
    let ?w = "(sock_put sid (shut_sock rx tx s) w)\<lparr>w_events := (w_events w)(p := shut_events rx tx (w_events w p))\<rparr>"
    have i: "sock_inv ?w"
      using inv_flags [OF inv s, of "shut_sock rx tx s"] by (simp add: shut_sock_def uk_vsock_sockaddr_key_def Let_def)
    have "w_socks ?w sid = Some (shut_sock rx tx s)" by simp
    from close_inv [OF i this] i run [unfolded conn_shutdown_eq [OF s True p]] show ?thesis
      by (auto split: if_splits)
  qed
qed

end

section \<open>Ports\<close>

definition port_used :: "vsock_world \<Rightarrow> int \<Rightarrow> u32 \<Rightarrow> bool" where
  "port_used w ty port \<longleftrightarrow> (\<exists>sid\<in>set (table_ids w).
     ci_type (key_of w sid) = ty \<and> a_port (ci_local (key_of w sid)) = port)"

lemma port_search_used:
  assumes "table_inv w"
  shows "uk_vsockets_FIND (port_search ty port) w = None \<longleftrightarrow> \<not> port_used w ty port"
proof -
  have "ci_mask (port_search ty port) = {MASK_LOCAL_CID, MASK_PEER_CID, MASK_PEER_PORT}"
    by (simp add: port_search_def)
  from find_port [OF assms this] show ?thesis by (auto simp: port_used_def port_search_def)
qed

lemma port_used_next [simp]: "port_used (w\<lparr>w_port_alloc_next := n\<rparr>) = port_used w"
  by (simp add: port_used_def table_ids_def key_of_def fun_eq_iff)

lemma table_inv_next [simp]: "table_inv (w\<lparr>w_port_alloc_next := n\<rparr>) = table_inv w"
  by (simp add: table_inv_def table_ids_def key_of_def)

lemma alloc_port_loop_spec:
  assumes "table_inv w" and "alloc_port_loop n ty w = (rc, w')"
  shows "\<exists>k. w' = w\<lparr>w_port_alloc_next := w_port_alloc_next w + of_nat k\<rparr>
    \<and> (\<forall>j<k - 1. port_used w ty (w_port_alloc_next w + of_nat j))
    \<and> (0 < k \<and> k \<le> n \<and> rc = sint (w_port_alloc_next w + of_nat (k - 1))
          \<and> \<not> port_used w ty (w_port_alloc_next w + of_nat (k - 1))
       \<or> k = n \<and> rc = - EADDRNOTAVAIL \<and> (\<forall>j<n. port_used w ty (w_port_alloc_next w + of_nat j)))"
  using assms
proof (induction n arbitrary: w)
  case 0
  then show ?case by (intro exI [of _ 0]) auto
next
  case (Suc n)
  let ?p = "w_port_alloc_next w" and ?w = "w\<lparr>w_port_alloc_next := w_port_alloc_next w + 1\<rparr>"
  show ?case
  proof (cases "port_used w ty ?p")
    case False
    with Suc.prems port_search_used [OF Suc.prems(1), of ty ?p] show ?thesis
      by (intro exI [of _ 1]) (simp add: Let_def)
  next
    case True
    then obtain y where "uk_vsockets_FIND (port_search ty ?p) w = Some y"
      using port_search_used [OF Suc.prems(1), of ty ?p] by auto
    with Suc.prems(2) have "alloc_port_loop n ty ?w = (rc, w')" by (simp add: Let_def)
    with Suc.IH [of ?w] Suc.prems(1) obtain k where k: "w' = w\<lparr>w_port_alloc_next := ?p + 1 + of_nat k\<rparr>"
      "\<forall>j<k - 1. port_used w ty (?p + 1 + of_nat j)"
      "0 < k \<and> k \<le> n \<and> rc = sint (?p + 1 + of_nat (k - 1)) \<and> \<not> port_used w ty (?p + 1 + of_nat (k - 1))
       \<or> k = n \<and> rc = - EADDRNOTAVAIL \<and> (\<forall>j<n. port_used w ty (?p + 1 + of_nat j))"
      by (auto simp del: of_nat_diff)
    have sh: "?p + 1 + of_nat j = ?p + of_nat (Suc j)" for j by (simp add: algebra_simps)
    have all: "\<forall>j<Suc m. port_used w ty (?p + of_nat j)"
      if "\<forall>j<m. port_used w ty (?p + of_nat (Suc j))" for m
      using that True by (auto simp: less_Suc_eq_0_disj)
    from k(3) show ?thesis
    proof (elim disjE conjE)
      assume a: "0 < k" "k \<le> n" "rc = sint (?p + 1 + of_nat (k - 1))"
        "\<not> port_used w ty (?p + 1 + of_nat (k - 1))"
      then have "Suc (k - 1) = k" by simp
      with a k(1,2) all [of "k - 1"] show ?thesis
        unfolding sh by (intro exI [of _ "Suc k"]) simp
    next
      assume a: "k = n" "rc = - EADDRNOTAVAIL" "\<forall>j<n. port_used w ty (?p + 1 + of_nat j)"
      with k(1) all [of n] show ?thesis
        unfolding sh by (intro exI [of _ "Suc n"]) auto
    qed
  qed
qed

lemma alloc_port_cases:
  assumes "table_inv w" and "vsock_alloc_port ty w = (rc, w')"
  obtains n where "w' = w\<lparr>w_port_alloc_next := n\<rparr>"
    and "0 \<le> rc \<Longrightarrow> \<not> port_used w ty (word_of_int rc)"
proof -
  have "word_of_int (sint x) = x" for x :: u32 by simp
  with alloc_port_loop_spec [OF assms(1) assms(2) [unfolded vsock_alloc_port_def]] that show thesis by auto
qed

section \<open>Binding\<close>

lemma fresh_key:
  assumes "\<not> port_used w (ci_type k) (a_port (ci_local k))"
  shows "\<forall>x\<in>set (table_ids w). key_of w x \<noteq> k"
  using assms by (auto simp: port_used_def)

definition bound_sock :: "u32 \<Rightarrow> u32 \<Rightarrow> virtio_vsock \<Rightarrow> virtio_vsock" where
  "bound_sock cid port s = s\<lparr>s_local_addr := \<lparr>a_cid = cid, a_port = port\<rparr>, s_peer_addr := any_addr,
     s_state := UK_VSOCK_STATE_BOUND\<rparr>"

lemma insert_socks [simp]: "w_socks (snd (uk_vsockets_INSERT sid w)) = w_socks w"
  by (simp add: uk_vsockets_INSERT_def case_prod_beta)

text \<open>The socket gets its address and enters the table, when no socket listens or waits at it.\<close>

lemma insert_bound:
  fixes w :: vsock_world and port :: u32 and s :: virtio_vsock
  assumes inv: "sock_inv w" and s: "w_socks w sid = Some s" and nact: "\<not> active (s_state s)"
    and none: "uk_vsockets_FIND \<lparr>ci_type = s_sock_type s, ci_local = \<lparr>a_cid = 0, a_port = port\<rparr>,
       ci_peer = any_addr, ci_mask = {MASK_LOCAL_CID}\<rparr> w = None" (is "uk_vsockets_FIND ?k w = None")
  defines "cid \<equiv> d_cid (w_dev w)"
  defines "s1 \<equiv> s\<lparr>s_local_addr := \<lparr>a_cid = cid, a_port = port\<rparr>, s_peer_addr := any_addr\<rparr>"
  obtains t where "sock_put sid (bound_sock cid port s) (snd (uk_vsockets_INSERT sid (sock_put sid s1 w))) =
        (sock_put sid (bound_sock cid port s) w)\<lparr>w_sockets := t\<rparr>"
    and "sock_inv ((sock_put sid (bound_sock cid port s) w)\<lparr>w_sockets := t\<rparr>)"
    and "set (inorder t) = insert sid (set (table_ids w))"
    and "\<forall>x\<in>set (table_ids w). key_of w x \<noteq> \<lparr>ci_type = s_sock_type s,
       ci_local = \<lparr>a_cid = cid, a_port = port\<rparr>, ci_peer = any_addr, ci_mask = {}\<rparr>"
proof -
  have key: "uk_vsock_sockaddr_key s1 = \<lparr>ci_type = s_sock_type s, ci_local = \<lparr>a_cid = cid, a_port = port\<rparr>,
      ci_peer = any_addr, ci_mask = {}\<rparr>" by (simp add: s1_def uk_vsock_sockaddr_key_def)
  have fresh: "\<forall>x\<in>set (table_ids w). key_of w x \<noteq> uk_vsock_sockaddr_key s1"
  proof (rule ballI, rule notI)
    fix x assume "x \<in> set (table_ids w)" "key_of w x = uk_vsock_sockaddr_key s1"
    then have "uk_vsockets_FIND ?k w = Some x"
      using find_any_local_cid [OF sock_invD(1) [OF inv], of ?k x] key by simp
    with none show False by simp
  qed
  have cid: "a_cid (s_local_addr s1) = d_cid (w_dev w)" by (simp add: s1_def cid_def)
  obtain t where t: "uk_vsockets_INSERT sid (sock_put sid s1 w) = (None, (sock_put sid s1 w)\<lparr>w_sockets := t\<rparr>)"
    "\<And>s''. active (s_state s'') \<Longrightarrow> wf_sock s'' \<Longrightarrow> uk_vsock_sockaddr_key s'' = uk_vsock_sockaddr_key s1 \<Longrightarrow>
      sock_inv ((sock_put sid s'' w)\<lparr>w_sockets := t\<rparr>)"
    "set (inorder t) = insert sid (set (table_ids w))"
    by (rule inv_insert [OF inv s nact cid fresh]) (rule that)
  have "sock_inv ((sock_put sid (bound_sock cid port s) w)\<lparr>w_sockets := t\<rparr>)"
    using sock_invD(2) [OF inv s]
    by (intro t(2)) (simp_all add: bound_sock_def s1_def uk_vsock_sockaddr_key_def wf_sock_def)
  with t(1,3) fresh key show thesis by (intro that [of t]) (simp_all add: sock_put_sockets)
qed

context vsock_driver
begin

lemma bind_guard:
  assumes run: "vsock_bind ops sid svm len w = Some (rc, w')" and "\<not> (rc < 0 \<and> w' = w)"
  obtains s where "w_socks w sid = Some s" and "s_state s = UK_VSOCK_STATE_READY"
    and "len = sizeof_svm" and "svm_family svm = AF_VSOCK"
    and "svm_cid svm = VMADDR_CID_ANY \<or> svm_cid svm = d_cid (w_dev w)" and "w_main_dev w"
  using assms by (auto simp: vsock_bind_def returns Let_def get_cid split: if_splits)

lemma bind_run:
  assumes "w_socks w sid = Some s" and "s_state s = UK_VSOCK_STATE_READY"
    and "len = sizeof_svm" and "svm_family svm = AF_VSOCK"
    and "svm_cid svm = VMADDR_CID_ANY \<or> svm_cid svm = d_cid (w_dev w)" and "w_main_dev w"
    and a: "(if svm_port svm = VMADDR_PORT_ANY then vsock_alloc_port (s_sock_type s) w else (0, w)) = (rc1, w1)"
    and n: "w1 = w\<lparr>w_port_alloc_next := n\<rparr>"
    and port: "port = (if svm_port svm = VMADDR_PORT_ANY then word_of_int rc1 else svm_port svm)"
  shows "vsock_bind ops sid svm len w =
    (if svm_port svm = VMADDR_PORT_ANY \<and> rc1 < 0 then Some (rc1, w1)
     else if uk_vsockets_FIND \<lparr>ci_type = s_sock_type s, ci_local = \<lparr>a_cid = 0, a_port = port\<rparr>,
       ci_peer = any_addr, ci_mask = {MASK_LOCAL_CID}\<rparr> w1 \<noteq> None then Some (- EADDRINUSE, w1)
     else Some (0, sock_put sid (bound_sock (d_cid (w_dev w)) port s) (snd (uk_vsockets_INSERT sid
       (sock_put sid (s\<lparr>s_local_addr := \<lparr>a_cid = d_cid (w_dev w), a_port = port\<rparr>, s_peer_addr := any_addr\<rparr>) w1)))))"
proof -
  have cid: "\<not> (svm_cid svm \<noteq> VMADDR_CID_ANY \<and> svm_cid svm \<noteq> d_cid (w_dev w))" using assms(5) by blast
  note simps = vsock_bind_def port get_cid sock_get_def sock_upd_def bound_sock_def Let_def cid assms(1-4,6)
  show ?thesis
  proof (cases "svm_port svm = VMADDR_PORT_ANY")
    case True
    with a have "vsock_alloc_port (s_sock_type s) w = (rc1, w1)" by simp
    with True n show ?thesis by (simp add: simps)
  next
    case False
    with a n show ?thesis by (simp add: simps)
  qed
qed

lemma bind_cases:
  assumes inv: "sock_inv w" and run: "vsock_bind ops sid svm len w = Some (rc, w')"
  obtains (err) n where "rc < 0" and "w' = w\<lparr>w_port_alloc_next := n\<rparr>"
    | (ok) s port t n where "rc = 0" and "w_socks w sid = Some s" and "s_state s = UK_VSOCK_STATE_READY"
        and "w' = (sock_put sid (bound_sock (d_cid (w_dev w)) port s) w)\<lparr>w_sockets := t, w_port_alloc_next := n\<rparr>"
        and "sock_inv w'" and "set (inorder t) = insert sid (set (table_ids w))"
        and "if svm_port svm = VMADDR_PORT_ANY then \<not> port_used w (s_sock_type s) port
             else port = svm_port svm"
        and "\<forall>x\<in>set (table_ids w). key_of w x \<noteq> \<lparr>ci_type = s_sock_type s,
               ci_local = \<lparr>a_cid = d_cid (w_dev w), a_port = port\<rparr>, ci_peer = any_addr, ci_mask = {}\<rparr>"
proof (cases "rc < 0 \<and> w' = w")
  case True
  then show thesis by (intro err [of "w_port_alloc_next w"]) simp_all
next
  case False
  let ?cid = "d_cid (w_dev w)"
  obtain s where g: "w_socks w sid = Some s" "s_state s = UK_VSOCK_STATE_READY" "len = sizeof_svm"
    "svm_family svm = AF_VSOCK" "svm_cid svm = VMADDR_CID_ANY \<or> svm_cid svm = ?cid" "w_main_dev w"
    by (rule bind_guard [OF run False])
  obtain rc1 w1 where a: "(if svm_port svm = VMADDR_PORT_ANY then vsock_alloc_port (s_sock_type s) w else (0, w)) = (rc1, w1)"
    by fastforce
  obtain n where n: "w1 = w\<lparr>w_port_alloc_next := n\<rparr>" and free: "svm_port svm = VMADDR_PORT_ANY \<Longrightarrow> 0 \<le> rc1 \<Longrightarrow>
      \<not> port_used w (s_sock_type s) (word_of_int rc1)"
  proof (cases "svm_port svm = VMADDR_PORT_ANY")
    case True
    with a have "vsock_alloc_port (s_sock_type s) w = (rc1, w1)" by simp
    then show thesis by (rule alloc_port_cases [OF sock_invD(1) [OF inv]]) (rule that)
  next
    case False
    with a that [of "w_port_alloc_next w"] show thesis by simp
  qed
  define port where port: "port = (if svm_port svm = VMADDR_PORT_ANY then word_of_int rc1 else svm_port svm)"
  let ?k = "\<lparr>ci_type = s_sock_type s, ci_local = \<lparr>a_cid = 0, a_port = port\<rparr>, ci_peer = any_addr,
        ci_mask = {MASK_LOCAL_CID}\<rparr>"
  note go = run [unfolded bind_run [OF g a n port]]
  have i1: "sock_inv w1" "w_socks w1 sid = Some s" "table_ids w1 = table_ids w" "w_dev w1 = w_dev w"
    "key_of w1 = key_of w" "\<not> active (s_state s)"
    using inv g n by (simp_all add: table_ids_def key_of_def fun_eq_iff)
  show thesis
  proof (cases "svm_port svm = VMADDR_PORT_ANY \<and> rc1 < 0 \<or> uk_vsockets_FIND ?k w1 \<noteq> None")
    case True
    with go n show thesis by (intro err [of n]) (auto split: if_splits)
  next
    case free_port: False
    then have none: "uk_vsockets_FIND ?k w1 = None" by simp
    note ib = insert_bound [OF i1(1,2,6) none, unfolded i1(3-5)]
    obtain t where t0: "sock_put sid (bound_sock ?cid port s) (snd (uk_vsockets_INSERT sid (sock_put sid
          (s\<lparr>s_local_addr := \<lparr>a_cid = ?cid, a_port = port\<rparr>, s_peer_addr := any_addr\<rparr>) w1))) =
        (sock_put sid (bound_sock ?cid port s) w1)\<lparr>w_sockets := t\<rparr>"
      and t1: "sock_inv ((sock_put sid (bound_sock ?cid port s) w1)\<lparr>w_sockets := t\<rparr>)"
        "set (inorder t) = insert sid (set (table_ids w))"
        "\<forall>x\<in>set (table_ids w). key_of w x \<noteq> \<lparr>ci_type = s_sock_type s,
           ci_local = \<lparr>a_cid = ?cid, a_port = port\<rparr>, ci_peer = any_addr, ci_mask = {}\<rparr>"
      by (rule ib) (rule that)
    have t: "rc = 0" "w' = (sock_put sid (bound_sock ?cid port s) w1)\<lparr>w_sockets := t\<rparr>"
      using go free_port t0 by (auto split: if_splits)
    then have "sock_inv w'" using t1(1) by simp
    moreover
    have "w' = (sock_put sid (bound_sock ?cid port s) w)\<lparr>w_sockets := t, w_port_alloc_next := n\<rparr>"
      using t(2) n by (simp add: sock_put_def)
    moreover have "if svm_port svm = VMADDR_PORT_ANY then \<not> port_used w (s_sock_type s) port else port = svm_port svm"
      using free free_port by (auto simp: port)
    ultimately show thesis using t(1) t1(2,3) g(1,2) by (intro ok [of s n t port])
  qed
qed

end

section \<open>A socket whose address changed\<close>

lemma cmp_keys: "uk_vsock_sockaddr_cmp (key_of w a) (key_of w b) = sign_cmp (key_tuple (key_of w a)) (key_tuple (key_of w b))"
  by (simp add: cmp_exact)

lemma sorted_between:
  fixes f :: "'a \<Rightarrow> 'k::order"
  assumes sorted: "sorted_wrt (\<lambda>a b. f a < f b) (xs @ ys)"
    and lo: "xs \<noteq> [] \<Longrightarrow> f (last xs) < f z" and hi: "ys \<noteq> [] \<Longrightarrow> f z < f (hd ys)"
  shows "sorted_wrt (\<lambda>a b. f a < f b) (xs @ z # ys)"
proof -
  have "f x < f z" if "x \<in> set xs" for x
  proof (cases xs rule: rev_cases)
    case (snoc us v)
    with sorted that have "x = v \<or> f x < f v" by (auto simp: sorted_wrt_append)
    with lo snoc show ?thesis by (auto intro: less_trans)
  qed (use that in simp)
  moreover have "f z < f y" if "y \<in> set ys" for y
    using that hi sorted by (cases ys) (auto simp: sorted_wrt_append intro: less_trans)
  ultimately show ?thesis using sorted by (auto simp: sorted_wrt_append)
qed

text \<open>The table without the socket is still in order.\<close>

lemma table_split:
  assumes inv: "table_inv w" and mem: "sid \<in> set (table_ids w)"
    and same: "w_sockets w1 = w_sockets w" "w_dev w1 = w_dev w" "\<forall>x. x \<noteq> sid \<longrightarrow> w_socks w1 x = w_socks w x"
    and sock: "w_socks w1 sid \<noteq> None" "a_cid (ci_local (key_of w1 sid)) = d_cid (w_dev w1)"
  obtains xs ys where "table_ids w = xs @ sid # ys" and "sid \<notin> set (xs @ ys)"
    and "rb_next sid (w_sockets w) = Some (case ys of [] \<Rightarrow> None | z # _ \<Rightarrow> Some z)"
    and "rb_prev sid (w_sockets w) = Some (if xs = [] then None else Some (last xs))"
    and "sorted_wrt (\<lambda>a b. key_tuple (key_of w1 a) < key_tuple (key_of w1 b)) (xs @ ys)"
    and "\<forall>x\<in>set (table_ids w). w_socks w1 x \<noteq> None \<and> a_cid (ci_local (key_of w1 x)) = d_cid (w_dev w1)"
proof -
  let ?t = "w_sockets w"
  have dist: "distinct (inorder ?t)" using table_distinct [OF inv] by (simp add: table_ids_def)
  have mem': "sid \<in> set (inorder ?t)" using mem by (simp add: table_ids_def)
  obtain xs ys where split: "inorder ?t = xs @ sid # ys"
    and nb: "rb_next sid ?t = Some (case ys of [] \<Rightarrow> None | z # _ \<Rightarrow> Some z)"
      "rb_prev sid ?t = Some (if xs = [] then None else Some (last xs))"
    by (rule rb_neighbours [OF mem' dist])
  have out: "sid \<notin> set (xs @ ys)" using dist split by auto
  have key: "key_of w1 x = key_of w x" "w_socks w1 x = w_socks w x" if "x \<noteq> sid" for x
    using same(3) that by (simp_all add: key_of_def)
  have "sorted_wrt (\<lambda>a b. key_tuple (key_of w a) < key_tuple (key_of w b)) (xs @ ys)"
    using table_invD(2) [OF inv] split by (auto simp: table_ids_def sorted_wrt_append)
  then have "sorted_wrt (\<lambda>a b. key_tuple (key_of w1 a) < key_tuple (key_of w1 b)) (xs @ ys)"
    by (rule sorted_wrt_mono_rel [rotated]) (metis key(1) out)
  moreover have "w_socks w1 x \<noteq> None \<and> a_cid (ci_local (key_of w1 x)) = d_cid (w_dev w1)"
    if "x \<in> set (table_ids w)" for x
    using that table_invD(3,4) [OF inv, of x] key [of x] sock same(2) by (cases "x = sid") auto
  ultimately show thesis using that split nb out by (simp add: table_ids_def)
qed

lemma reinsert_table:
  assumes inv: "table_inv w" and mem: "sid \<in> set (table_ids w)"
    and same: "w_sockets w1 = w_sockets w" "w_dev w1 = w_dev w" "\<forall>x. x \<noteq> sid \<longrightarrow> w_socks w1 x = w_socks w x"
    and sock: "w_socks w1 sid \<noteq> None" "a_cid (ci_local (key_of w1 sid)) = d_cid (w_dev w1)"
    and fresh: "\<forall>x\<in>set (table_ids w) - {sid}. key_of w1 x \<noteq> key_of w1 sid"
  obtains t where "uk_vsockets_REINSERT sid w1 = Some (None, w1\<lparr>w_sockets := t\<rparr>)"
    and "set (inorder t) = set (table_ids w)" and "table_inv (w1\<lparr>w_sockets := t\<rparr>)"
proof -
  obtain xs ys where sp: "table_ids w = xs @ sid # ys" "sid \<notin> set (xs @ ys)"
    and nb: "rb_next sid (w_sockets w) = Some (case ys of [] \<Rightarrow> None | z # _ \<Rightarrow> Some z)"
      "rb_prev sid (w_sockets w) = Some (if xs = [] then None else Some (last xs))"
    and rest: "sorted_wrt (\<lambda>a b. key_tuple (key_of w1 a) < key_tuple (key_of w1 b)) (xs @ ys)"
    and others: "\<forall>x\<in>set (table_ids w). w_socks w1 x \<noteq> None \<and> a_cid (ci_local (key_of w1 x)) = d_cid (w_dev w1)"
    by (rule table_split [OF inv mem same sock]) (rule that)
  obtain n where n: "bal (w_sockets w) n" using table_invD(1) [OF inv] by blast
  define moved where "moved \<longleftrightarrow> xs \<noteq> [] \<and> 0 \<le> uk_vsock_sockaddr_cmp (key_of w1 (last xs)) (key_of w1 sid)
    \<or> ys \<noteq> [] \<and> 0 \<le> uk_vsock_sockaddr_cmp (key_of w1 sid) (key_of w1 (hd ys))"
  have run: "uk_vsockets_REINSERT sid w1 = (if moved then uk_vsockets_REMOVE sid w1 \<bind> (\<lambda>w. Some (uk_vsockets_INSERT sid w))
      else Some (None, w1))"
    using nb same(1) by (cases ys) (auto simp: uk_vsockets_REINSERT_def moved_def Let_def)
  show thesis
  proof (cases moved)
    case False
    have "sorted_wrt (\<lambda>a b. key_tuple (key_of w1 a) < key_tuple (key_of w1 b)) (xs @ sid # ys)"
      using False unfolding moved_def cmp_keys
      by (intro sorted_between [OF rest]) (auto simp: sign_cmp_def split: if_splits)
    then have "table_inv w1"
      using n others sp same(1) by (auto simp: table_inv_def table_ids_def)
    then have "table_inv (w1\<lparr>w_sockets := w_sockets w1\<rparr>)" by simp
    then show thesis using that [of "w_sockets w1"] run False same(1) [symmetric] by (simp add: table_ids_def)
  next
    case True
    have mem': "sid \<in> set (inorder (w_sockets w))" using mem by (simp add: table_ids_def)
    obtain t1 m xs' ys' where r: "rb_remove sid (w_sockets w) = Some t1" "bal t1 m" "m \<le> n"
        "inorder (w_sockets w) = xs' @ sid # ys'" "inorder t1 = xs' @ ys'"
      by (rule rb_remove_correct [OF n mem'])
    have "xs @ sid # ys = xs' @ sid # ys'" by (rule trans [OF sp(1) [unfolded table_ids_def, symmetric] r(4)])
    then have eq: "xs' = xs \<and> ys' = ys" using sp(2) by (subst (asm) append_Cons_eq_iff) auto
    let ?w = "w1\<lparr>w_sockets := t1\<rparr>"
    have k: "key_of ?w x = key_of w1 x" for x by (simp add: key_of_def)
    have tab: "table_inv ?w"
      using r eq others rest sp unfolding table_inv_def k by (auto simp: table_ids_def)
    have "w_socks ?w sid \<noteq> None" "a_cid (ci_local (key_of ?w sid)) = d_cid (w_dev ?w)"
      "\<forall>x\<in>set (table_ids ?w). key_of ?w x \<noteq> key_of ?w sid"
      using sock fresh r(5) eq sp by (auto simp: k table_ids_def)
    then obtain t where t: "uk_vsockets_INSERT sid ?w = (None, ?w\<lparr>w_sockets := t\<rparr>)"
      "set (inorder t) = insert sid (set (table_ids ?w))" "table_inv (?w\<lparr>w_sockets := t\<rparr>)"
      by (rule insert_table [OF tab])
    have "uk_vsockets_REMOVE sid w1 = Some ?w" using r(1) same(1) by (simp add: uk_vsockets_REMOVE_def)
    then show thesis using that [of t] t run True sp r(5) eq by (simp add: table_ids_def)
  qed
qed

end
