(* ===== verification/Vsock_Posix.thy ===== *)
theory Vsock_Posix
  imports Vsock_Preserve
begin

text \<open>
  The POSIX operations of the socket layer keep the invariant: listening, connecting with its undo,
  accepting, creating, options, shutdown and data transfer, again for every driver that fulfils the
  contract. \<open>connect\<close> and \<open>accept\<close> are also described in full (\<open>connect_bound\<close>, \<open>connect_ready\<close>,
  \<open>accept_cases\<close>), and the reading loop by the prefix of the received bytes that it takes.
\<close>

section \<open>Listening\<close>

context vsock_driver
begin

lemma bind_inv:
  assumes "sock_inv w" and "vsock_bind ops sid svm len w = Some (rc, w')"
  shows "sock_inv w'"
  by (rule bind_cases [OF assms]) (use assms in auto)

lemma listen_inv:
  assumes inv: "sock_inv w" and run: "vsock_listen ops sid backlog w = Some (rc, w')"
  shows "sock_inv w'"
proof -
  obtain s where s: "w_socks w sid = Some s" using run by (auto simp: vsock_listen_def returns)
  have upd: "sock_inv (sock_put sid (s1\<lparr>s_accept_queue_limit := n, s_state := st\<rparr>) w1)"
    "sock_inv (sock_put sid (s1\<lparr>s_accept_queue_limit := n\<rparr>) w1)"
    if "sock_inv w1" "w_socks w1 sid = Some s1" "active (s_state s1) = active st" for w1 s1 n st
    by (rule inv_flags [OF that(1,2)]; use that in \<open>simp add: uk_vsock_sockaddr_key_def\<close>)+
  consider "s_state s = UK_VSOCK_STATE_LISTENING" | "s_state s = UK_VSOCK_STATE_BOUND"
    | "s_state s = UK_VSOCK_STATE_READY" | "w' = w"
    using run s by (auto simp: vsock_listen_def returns split: if_splits)
  then show ?thesis
  proof cases
    case 1
    with run s upd(2) [OF inv s refl] show ?thesis by (auto simp: vsock_listen_def returns)
  next
    case 2
    with run s upd(1) [OF inv s] show ?thesis by (auto simp: vsock_listen_def returns)
  next
    case 3
    then obtain rc1 w1 where b: "vsock_bind ops sid \<lparr>svm_family = AF_VSOCK, svm_port = VMADDR_PORT_ANY,
        svm_cid = VMADDR_CID_ANY\<rparr> sizeof_svm w = Some (rc1, w1)"
      "rc1 = 0 \<Longrightarrow> \<exists>s1. w_socks w1 sid = Some s1 \<and> s_state s1 = UK_VSOCK_STATE_BOUND
         \<and> w' = sock_put sid (s1\<lparr>s_accept_queue_limit := backlog_limit backlog, s_state := UK_VSOCK_STATE_LISTENING\<rparr>) w1"
      "rc1 \<noteq> 0 \<Longrightarrow> w' = w1"
      using run s by (auto simp: vsock_listen_def returns split: if_splits)
    note i1 = bind_inv [OF inv b(1)]
    from b(2,3) i1 upd(1) [OF i1] show ?thesis by (cases "rc1 = 0") auto
  qed (use inv in simp)
qed

end

section \<open>Connecting\<close>

text \<open>The address of a socket in the table changes.\<close>

lemma inv_reinsert:
  assumes inv: "sock_inv w" and s: "w_socks w sid = Some s" "active (s_state s)"
    and cid: "a_cid (s_local_addr s') = d_cid (w_dev w)"
    and fresh: "\<forall>x\<in>set (table_ids w) - {sid}. key_of w x \<noteq> uk_vsock_sockaddr_key s'"
  obtains t where "uk_vsockets_REINSERT sid (sock_put sid s' w) = Some (None, (sock_put sid s' w)\<lparr>w_sockets := t\<rparr>)"
    and "\<And>s''. active (s_state s'') \<Longrightarrow> wf_sock s'' \<Longrightarrow> uk_vsock_sockaddr_key s'' = uk_vsock_sockaddr_key s' \<Longrightarrow>
      sock_inv ((sock_put sid s'' w)\<lparr>w_sockets := t\<rparr>)"
    and "set (inorder t) = set (table_ids w)"
proof -
  have mem: "sid \<in> set (table_ids w)" using sock_invD(4) [OF inv s(1)] s(2) by simp
  have same: "w_sockets (sock_put sid s' w) = w_sockets w" "w_dev (sock_put sid s' w) = w_dev w"
    "\<forall>x. x \<noteq> sid \<longrightarrow> w_socks (sock_put sid s' w) x = w_socks w x" by simp_all
  have "w_socks (sock_put sid s' w) sid \<noteq> None"
    "a_cid (ci_local (key_of (sock_put sid s' w) sid)) = d_cid (w_dev (sock_put sid s' w))"
    "\<forall>x\<in>set (table_ids w) - {sid}. key_of (sock_put sid s' w) x \<noteq> key_of (sock_put sid s' w) sid"
    using cid fresh by (simp_all add: key_of_put uk_vsock_sockaddr_key_def)
  then obtain t where t: "uk_vsockets_REINSERT sid (sock_put sid s' w) = Some (None, (sock_put sid s' w)\<lparr>w_sockets := t\<rparr>)"
    "set (inorder t) = set (table_ids w)" "table_inv ((sock_put sid s' w)\<lparr>w_sockets := t\<rparr>)"
    by (rule reinsert_table [OF sock_invD(1) [OF inv] mem same])
  moreover have "set (inorder t) = insert sid (set (table_ids w))" using t(2) mem by auto
  ultimately show thesis by (intro that [OF t(1)] inv_entry [OF inv s(1) t(3)])
qed

text \<open>Addresses that no other socket of the table has.\<close>

definition conn_free :: "vsock_world \<Rightarrow> nat \<Rightarrow> int \<Rightarrow> uk_vsockaddr \<Rightarrow> uk_vsockaddr \<Rightarrow> bool" where
  "conn_free w sid ty local peer \<longleftrightarrow> (\<forall>x\<in>set (table_ids w) - {sid}.
     key_of w x \<noteq> \<lparr>ci_type = ty, ci_local = local, ci_peer = peer, ci_mask = {}\<rparr>)"

lemma conn_free_key:
  "conn_free w sid (s_sock_type s) (s_local_addr s) (s_peer_addr s) \<longleftrightarrow>
     (\<forall>x\<in>set (table_ids w) - {sid}. key_of w x \<noteq> uk_vsock_sockaddr_key s)"
  by (simp add: conn_free_def uk_vsock_sockaddr_key_def)

lemma conn_free_self:
  assumes inv: "sock_inv w" and s: "w_socks w sid = Some s" "active (s_state s)"
  shows "conn_free w sid (s_sock_type s) (s_local_addr s) (s_peer_addr s)"
proof -
  have mem: "sid \<in> set (table_ids w)" using sock_invD(4) [OF inv s(1)] s(2) by simp
  show ?thesis unfolding conn_free_key
  proof (rule ballI, rule notI)
    fix x assume x: "x \<in> set (table_ids w) - {sid}" "key_of w x = uk_vsock_sockaddr_key s"
    then have "x = sid" by (intro table_key_inj [OF sock_invD(1) [OF inv] _ mem]) (simp_all add: key_of_eq [OF s(1)])
    with x(1) show False by simp
  qed
qed

lemma conn_free_core:
  assumes "core w' = core w" and "table_inv w"
  shows "conn_free w' sid = conn_free w sid"
  using core_fields(7) [OF assms(1)] core_key [OF assms(1)] table_invD(3) [OF assms(2)]
  by (simp add: conn_free_def fun_eq_iff)

lemma active_cid:
  assumes inv: "sock_inv w" and s: "w_socks w sid = Some s" "active (s_state s)"
  shows "a_cid (s_local_addr s) = d_cid (w_dev w)"
  using table_invD(4) [OF sock_invD(1) [OF inv], of sid] sock_invD(4) [OF inv s(1)] s(2) key_of_eq [OF s(1)]
  by (simp add: uk_vsock_sockaddr_key_def)

lemma connect_undo_bound:
  assumes inv: "sock_inv w" and s: "w_socks w sid = Some s" "active (s_state s)"
    and free: "conn_free w sid (s_sock_type s) (s_local_addr s) old_peer"
  obtains t where "connect_undo sid UK_VSOCK_STATE_BOUND old_peer w =
        Some ((sock_put sid (s\<lparr>s_peer_addr := old_peer, s_state := UK_VSOCK_STATE_BOUND\<rparr>) w)\<lparr>w_sockets := t\<rparr>)"
    and "sock_inv ((sock_put sid (s\<lparr>s_peer_addr := old_peer, s_state := UK_VSOCK_STATE_BOUND\<rparr>) w)\<lparr>w_sockets := t\<rparr>)"
    and "set (inorder t) = set (table_ids w)"
proof -
  let ?s = "s\<lparr>s_peer_addr := old_peer\<rparr>"
  have cid: "a_cid (s_local_addr ?s) = d_cid (w_dev w)" using active_cid [OF inv s] by simp
  have fresh: "\<forall>x\<in>set (table_ids w) - {sid}. key_of w x \<noteq> uk_vsock_sockaddr_key ?s"
    using free conn_free_key [of w sid ?s] by simp
  obtain t where t: "uk_vsockets_REINSERT sid (sock_put sid ?s w) = Some (None, (sock_put sid ?s w)\<lparr>w_sockets := t\<rparr>)"
    "\<And>s''. active (s_state s'') \<Longrightarrow> wf_sock s'' \<Longrightarrow> uk_vsock_sockaddr_key s'' = uk_vsock_sockaddr_key ?s \<Longrightarrow>
      sock_inv ((sock_put sid s'' w)\<lparr>w_sockets := t\<rparr>)"
    "set (inorder t) = set (table_ids w)"
    by (rule inv_reinsert [OF inv s cid fresh]) (rule that)
  show thesis
  proof (rule that [of t])
    show "connect_undo sid UK_VSOCK_STATE_BOUND old_peer w =
        Some ((sock_put sid (s\<lparr>s_peer_addr := old_peer, s_state := UK_VSOCK_STATE_BOUND\<rparr>) w)\<lparr>w_sockets := t\<rparr>)"
      using s(1) t(1) by (simp add: connect_undo_def sock_upd_def sock_put_sockets)
    show "sock_inv ((sock_put sid (s\<lparr>s_peer_addr := old_peer, s_state := UK_VSOCK_STATE_BOUND\<rparr>) w)\<lparr>w_sockets := t\<rparr>)"
      using sock_invD(2) [OF inv s(1)] by (intro t(2)) (simp_all add: wf_sock_def uk_vsock_sockaddr_key_def)
  qed (rule t(3))
qed

lemma connect_undo_ready:
  assumes inv: "sock_inv w" and s: "w_socks w sid = Some s" "active (s_state s)"
  obtains t where "connect_undo sid UK_VSOCK_STATE_READY old_peer w =
        Some ((sock_put sid (s\<lparr>s_local_addr := any_addr, s_peer_addr := old_peer, s_state := UK_VSOCK_STATE_READY\<rparr>) w)
          \<lparr>w_sockets := t\<rparr>)"
    and "sock_inv ((sock_put sid (s\<lparr>s_local_addr := any_addr, s_peer_addr := old_peer, s_state := UK_VSOCK_STATE_READY\<rparr>) w)
          \<lparr>w_sockets := t\<rparr>)"
    and "inorder t = remove1 sid (table_ids w)"
proof -
  let ?s = "s\<lparr>s_local_addr := any_addr, s_peer_addr := old_peer, s_state := UK_VSOCK_STATE_READY\<rparr>"
  obtain t where t: "uk_vsockets_REMOVE sid w = Some (w\<lparr>w_sockets := t\<rparr>)"
    "\<And>s'. \<not> active (s_state s') \<Longrightarrow> wf_sock s' \<Longrightarrow> sock_inv (sock_put sid s' (w\<lparr>w_sockets := t\<rparr>))"
    "inorder t = remove1 sid (table_ids w)"
    by (rule inv_remove [OF inv s]) (rule that)
  show thesis
  proof (rule that [of t])
    show "connect_undo sid UK_VSOCK_STATE_READY old_peer w = Some ((sock_put sid ?s w)\<lparr>w_sockets := t\<rparr>)"
      using s(1) t(1) by (simp add: connect_undo_def sock_upd_def sock_put_sockets)
    show "sock_inv ((sock_put sid ?s w)\<lparr>w_sockets := t\<rparr>)"
      using sock_invD(2) [OF inv s(1)] t(2) [of ?s] by (simp add: wf_sock_def sock_put_sockets)
  qed (rule t(3))
qed

definition wait_sock :: "uk_vsockaddr \<Rightarrow> uk_vsockaddr \<Rightarrow> virtio_vsock \<Rightarrow> virtio_vsock" where
  "wait_sock local peer s = s\<lparr>s_peer_addr := peer, s_local_addr := local, s_state := UK_VSOCK_STATE_WAIT_CONNECT\<rparr>"

text \<open>The state of the world when the connection request is sent.\<close>

definition wait_world where
  "wait_world sid local peer s t n w = (sock_put sid (wait_sock local peer s) w)\<lparr>w_sockets := t, w_port_alloc_next := n\<rparr>"

definition connect_finish where
  "connect_finish ops sid old_state old_peer w = op_connect ops sid w \<bind> (\<lambda>(rc, w).
     (if rc \<noteq> 0 \<and> rc \<noteq> - EINPROGRESS then connect_undo sid old_state old_peer w else Some w) \<bind>
       (\<lambda>w. Some (rc, w)))"

lemma sock_put_port: "sock_put sid s (w\<lparr>w_port_alloc_next := n\<rparr>) = (sock_put sid s w)\<lparr>w_port_alloc_next := n\<rparr>"
  by (simp add: sock_put_def)

lemma port_used_put:
  assumes "sid \<notin> set (table_ids w)"
  shows "port_used (sock_put sid s w) ty port = port_used w ty port"
  unfolding port_used_def using assms by (intro bex_cong) (auto simp: key_of_put)

lemma addr_upd: "(a :: uk_vsockaddr)\<lparr>a_cid := c, a_port := p\<rparr> = \<lparr>a_cid = c, a_port = p\<rparr>"
  by (cases a) simp

lemma wf_wait_sock [simp]: "wf_sock (wait_sock local peer s) = wf_sock s"
  by (simp add: wait_sock_def wf_sock_def)

context vsock_driver
begin

lemma connect_bound:
  assumes inv: "sock_inv w" and s: "w_socks w sid = Some s" "s_state s = UK_VSOCK_STATE_BOUND"
    and svm: "svm_family svm = AF_VSOCK" "w_main_dev w"
    and free: "conn_free w sid (s_sock_type s) (s_local_addr s) \<lparr>a_cid = svm_cid svm, a_port = svm_port svm\<rparr>"
  obtains t where "vsock_connect ops sid svm sizeof_svm w = connect_finish ops sid UK_VSOCK_STATE_BOUND (s_peer_addr s)
      (wait_world sid (s_local_addr s) \<lparr>a_cid = svm_cid svm, a_port = svm_port svm\<rparr> s t (w_port_alloc_next w) w)"
    and "sock_inv (wait_world sid (s_local_addr s) \<lparr>a_cid = svm_cid svm, a_port = svm_port svm\<rparr> s t (w_port_alloc_next w) w)"
    and "set (inorder t) = insert sid (set (table_ids w))"
proof -
  let ?peer = "\<lparr>a_cid = svm_cid svm, a_port = svm_port svm\<rparr>"
  let ?s = "s\<lparr>s_peer_addr := ?peer\<rparr>" and ?s' = "wait_sock (s_local_addr s) ?peer s"
  have act: "active (s_state s)" using s(2) by simp
  have mem: "sid \<in> set (table_ids w)" using sock_invD(4) [OF inv s(1)] act by simp
  have cid: "a_cid (s_local_addr ?s) = d_cid (w_dev w)" using active_cid [OF inv s(1) act] by simp
  have fresh: "\<forall>x\<in>set (table_ids w) - {sid}. key_of w x \<noteq> uk_vsock_sockaddr_key ?s"
    using free conn_free_key [of w sid ?s] by simp
  obtain t where t: "uk_vsockets_REINSERT sid (sock_put sid ?s w) = Some (None, (sock_put sid ?s w)\<lparr>w_sockets := t\<rparr>)"
    "\<And>s''. active (s_state s'') \<Longrightarrow> wf_sock s'' \<Longrightarrow> uk_vsock_sockaddr_key s'' = uk_vsock_sockaddr_key ?s \<Longrightarrow>
      sock_inv ((sock_put sid s'' w)\<lparr>w_sockets := t\<rparr>)"
    "set (inorder t) = set (table_ids w)"
    by (rule inv_reinsert [OF inv s(1) act cid fresh]) (rule that)
  have s': "?s' = s\<lparr>s_peer_addr := ?peer, s_state := UK_VSOCK_STATE_WAIT_CONNECT\<rparr>" by (simp add: wait_sock_def)
  have eq: "wait_world sid (s_local_addr s) ?peer s t (w_port_alloc_next w) w = (sock_put sid ?s' w)\<lparr>w_sockets := t\<rparr>"
    by (simp add: wait_world_def sock_put_def)
  show thesis
  proof (rule that [of t])
    show "vsock_connect ops sid svm sizeof_svm w = connect_finish ops sid UK_VSOCK_STATE_BOUND (s_peer_addr s)
        (wait_world sid (s_local_addr s) ?peer s t (w_port_alloc_next w) w)"
      unfolding eq s' using s svm t(1)
      by (simp add: vsock_connect_def sock_get_def sock_upd_def Let_def connect_finish_def sock_put_sockets
          case_prod_unfold cong: if_cong)
    show "sock_inv (wait_world sid (s_local_addr s) ?peer s t (w_port_alloc_next w) w)"
      unfolding eq using sock_invD(2) [OF inv s(1)]
      by (intro t(2)) (simp_all, simp_all add: wait_sock_def uk_vsock_sockaddr_key_def)
  qed (use t(3) mem in auto)
qed

lemma connect_ready:
  assumes inv: "sock_inv w" and s: "w_socks w sid = Some s" "s_state s = UK_VSOCK_STATE_READY"
    and svm: "svm_family svm = AF_VSOCK" "w_main_dev w"
  obtains (fail) rc n where "rc < 0" and "vsock_connect ops sid svm sizeof_svm w = Some (rc,
      (sock_put sid (s\<lparr>s_local_addr := (s_local_addr s)\<lparr>a_cid := d_cid (w_dev w)\<rparr>, s_peer_addr := any_addr\<rparr>) w)
        \<lparr>w_port_alloc_next := n\<rparr>)"
  | (go) port t n where "vsock_connect ops sid svm sizeof_svm w = connect_finish ops sid UK_VSOCK_STATE_READY (s_peer_addr s)
      (wait_world sid \<lparr>a_cid = d_cid (w_dev w), a_port = port\<rparr> \<lparr>a_cid = svm_cid svm, a_port = svm_port svm\<rparr> s t n w)"
    and "sock_inv (wait_world sid \<lparr>a_cid = d_cid (w_dev w), a_port = port\<rparr> \<lparr>a_cid = svm_cid svm, a_port = svm_port svm\<rparr> s t n w)"
    and "set (inorder t) = insert sid (set (table_ids w))" and "\<not> port_used w (s_sock_type s) port"
proof -
  let ?peer = "\<lparr>a_cid = svm_cid svm, a_port = svm_port svm\<rparr>"
  let ?s1 = "s\<lparr>s_peer_addr := ?peer, s_local_addr := (s_local_addr s)\<lparr>a_cid := d_cid (w_dev w)\<rparr>\<rparr>"
  let ?w1 = "sock_put sid ?s1 w"
  have nact: "\<not> active (s_state s)" using s(2) by simp
  have inv1: "sock_inv ?w1"
    using sock_invD(2) [OF inv s(1)] nact by (intro inv_put [OF inv s(1)]) (simp_all add: wf_sock_def)
  obtain rc w2 where a: "vsock_alloc_port (s_sock_type s) ?w1 = (rc, w2)" by fastforce
  obtain n where n: "w2 = ?w1\<lparr>w_port_alloc_next := n\<rparr>"
    and free: "0 \<le> rc \<Longrightarrow> \<not> port_used ?w1 (s_sock_type s) (word_of_int rc)"
    by (rule alloc_port_cases [OF sock_invD(1) [OF inv1] a]) (rule that)
  have run: "vsock_connect ops sid svm sizeof_svm w = (if rc < 0
      then Some (rc, (sock_put sid (s\<lparr>s_local_addr := (s_local_addr s)\<lparr>a_cid := d_cid (w_dev w)\<rparr>, s_peer_addr := any_addr\<rparr>) w)
        \<lparr>w_port_alloc_next := n\<rparr>)
      else connect_finish ops sid UK_VSOCK_STATE_READY (s_peer_addr s)
        (sock_put sid (wait_sock \<lparr>a_cid = d_cid (w_dev w), a_port = word_of_int rc\<rparr> ?peer s)
          (snd (uk_vsockets_INSERT sid (sock_put sid (s\<lparr>s_peer_addr := ?peer,
             s_local_addr := \<lparr>a_cid = d_cid (w_dev w), a_port = word_of_int rc\<rparr>\<rparr>) w2)))))"
    using s svm a n
    by (simp add: vsock_connect_def sock_get_def sock_upd_def Let_def get_cid connect_finish_def wait_sock_def addr_upd sock_put_port
        case_prod_unfold cong: if_cong)
  show thesis
  proof (cases "rc < 0")
    case True
    then show thesis using fail run by simp
  next
    case False
    let ?local = "\<lparr>a_cid = d_cid (w_dev w), a_port = word_of_int rc\<rparr>"
    let ?s3 = "s\<lparr>s_peer_addr := ?peer, s_local_addr := ?local\<rparr>"
    have i2: "sock_inv w2" "w_socks w2 sid = Some ?s1" "table_ids w2 = table_ids w" "w_dev w2 = w_dev w"
      using inv1 n by (simp_all add: table_ids_def)
    have unused: "\<not> port_used w2 (s_sock_type s) (word_of_int rc)" using free False n by simp
    have fresh: "\<forall>x\<in>set (table_ids w2). key_of w2 x \<noteq> uk_vsock_sockaddr_key ?s3"
      using unused by (intro fresh_key) (simp add: uk_vsock_sockaddr_key_def)
    have n1: "\<not> active (s_state ?s1)" and cid: "a_cid (s_local_addr ?s3) = d_cid (w_dev w2)"
      using nact i2(4) by simp_all
    obtain t where t: "uk_vsockets_INSERT sid (sock_put sid ?s3 w2) = (None, (sock_put sid ?s3 w2)\<lparr>w_sockets := t\<rparr>)"
      "\<And>s''. active (s_state s'') \<Longrightarrow> wf_sock s'' \<Longrightarrow> uk_vsock_sockaddr_key s'' = uk_vsock_sockaddr_key ?s3 \<Longrightarrow>
        sock_inv ((sock_put sid s'' w2)\<lparr>w_sockets := t\<rparr>)"
      "set (inorder t) = insert sid (set (table_ids w2))"
      by (rule inv_insert [OF i2(1,2) n1 cid fresh]) (rule that)
    have eq: "wait_world sid ?local ?peer s t n w = (sock_put sid (wait_sock ?local ?peer s) w2)\<lparr>w_sockets := t\<rparr>"
      by (simp add: wait_world_def n sock_put_def)
    have "vsock_connect ops sid svm sizeof_svm w = connect_finish ops sid UK_VSOCK_STATE_READY (s_peer_addr s)
        (wait_world sid ?local ?peer s t n w)"
      unfolding eq using run False t(1) by (simp add: sock_put_sockets)
    moreover have "sock_inv (wait_world sid ?local ?peer s t n w)"
      unfolding eq using sock_invD(2) [OF inv s(1)]
      by (intro t(2)) (simp_all, simp_all add: wait_sock_def uk_vsock_sockaddr_key_def)
    moreover have "\<not> port_used w (s_sock_type s) (word_of_int rc)"
      using unused sock_invD(4) [OF inv s(1)] nact port_used_put [of sid w] by (simp add: n)
    ultimately show thesis using t(3) i2(3) by (intro go) simp_all
  qed
qed

end

lemma wait_world_simps [simp]:
  "w_socks (wait_world sid local peer s t n w) = (w_socks w)(sid \<mapsto> wait_sock local peer s)"
  "w_dev (wait_world sid local peer s t n w) = w_dev w"
  "w_main_dev (wait_world sid local peer s t n w) = w_main_dev w"
  "w_events (wait_world sid local peer s t n w) = w_events w"
  "table_ids (wait_world sid local peer s t n w) = inorder t"
  by (simp_all add: wait_world_def table_ids_def)

lemma wait_sock_simps [simp]:
  "s_state (wait_sock local peer s) = UK_VSOCK_STATE_WAIT_CONNECT" "s_local_addr (wait_sock local peer s) = local"
  "s_peer_addr (wait_sock local peer s) = peer" "s_sock_type (wait_sock local peer s) = s_sock_type s"
  by (simp_all add: wait_sock_def)

lemma conn_free_wait:
  assumes "set (inorder t) = insert sid (set (table_ids w))"
  shows "conn_free (wait_world sid local peer s t n w) sid = conn_free w sid"
  using assms by (auto simp: conn_free_def fun_eq_iff key_of_def split: if_splits)

context vsock_driver
begin

lemma connect_finish_inv:
  assumes inv: "sock_inv w" and s: "w_socks w sid = Some s" "active (s_state s)"
    and old: "old_state = UK_VSOCK_STATE_READY \<or> old_state = UK_VSOCK_STATE_BOUND
      \<and> conn_free w sid (s_sock_type s) (s_local_addr s) old_peer"
    and run: "connect_finish ops sid old_state old_peer w = Some (rc, w')"
  shows "sock_inv w'"
proof -
  obtain w1 where w1: "op_connect ops sid w = Some (rc, w1)"
    "(if rc \<noteq> 0 \<and> rc \<noteq> - EINPROGRESS then connect_undo sid old_state old_peer w1 else Some w1) = Some w'"
    using run unfolding connect_finish_def by (rule bind_pairE) (auto simp: returns)
  have c: "core w1 = core w" by (rule connect_core [OF w1(1)])
  note inv1 = sock_inv_core [OF c inv]
  obtain s1 where s1: "w_socks w1 sid = Some s1" "uk_vsock.truncate s1 = uk_vsock.truncate s"
    by (rule core_sock [OF c s(1)])
  note f = truncate_fields [OF s1(2)]
  have act: "active (s_state s1)" using s(2) f by simp
  show ?thesis
  proof (cases "rc \<noteq> 0 \<and> rc \<noteq> - EINPROGRESS")
    case False
    with w1(2) inv1 show ?thesis by simp
  next
    case True
    then have undo: "connect_undo sid old_state old_peer w1 = Some w'" using w1(2) by simp
    show ?thesis
    proof (cases "old_state = UK_VSOCK_STATE_READY")
      case True
      show ?thesis
        by (rule connect_undo_ready [OF inv1 s1(1) act, of old_peer]) (use True undo in simp)
    next
      case False
      with old have b: "old_state = UK_VSOCK_STATE_BOUND"
        "conn_free w1 sid (s_sock_type s1) (s_local_addr s1) old_peer"
        using conn_free_core [OF c sock_invD(1) [OF inv]] f by simp_all
      show ?thesis
        by (rule connect_undo_bound [OF inv1 s1(1) act b(2)]) (use b(1) undo in simp)
    qed
  qed
qed

lemma connect_guard:
  assumes "vsock_connect ops sid svm len w = Some (rc, w')" and "\<not> (rc < 0 \<and> w' = w)"
    and "w_socks w sid = Some s"
  shows "len = sizeof_svm \<and> svm_family svm = AF_VSOCK \<and> w_main_dev w
    \<and> (s_state s = UK_VSOCK_STATE_BOUND \<or> s_state s = UK_VSOCK_STATE_READY)"
  using assms by (auto simp: vsock_connect_def sock_get_def Let_def split: if_splits)

lemma connect_inv:
  assumes inv: "sock_inv w" and s: "w_socks w sid = Some s"
    and free: "s_state s = UK_VSOCK_STATE_BOUND \<Longrightarrow>
      conn_free w sid (s_sock_type s) (s_local_addr s) \<lparr>a_cid = svm_cid svm, a_port = svm_port svm\<rparr>"
    and run: "vsock_connect ops sid svm len w = Some (rc, w')"
  shows "sock_inv w'"
proof (cases "rc < 0 \<and> w' = w")
  case False
  note g = connect_guard [OF run False s]
  note run' = run [unfolded g [THEN conjunct1]]
  let ?peer = "\<lparr>a_cid = svm_cid svm, a_port = svm_port svm\<rparr>"
  have fam: "svm_family svm = AF_VSOCK" "w_main_dev w" using g by simp_all
  from g consider "s_state s = UK_VSOCK_STATE_BOUND" | "s_state s = UK_VSOCK_STATE_READY" by blast
  then show ?thesis
  proof cases
    case 1
    obtain t where t: "vsock_connect ops sid svm sizeof_svm w = connect_finish ops sid UK_VSOCK_STATE_BOUND (s_peer_addr s)
        (wait_world sid (s_local_addr s) ?peer s t (w_port_alloc_next w) w)"
      "sock_inv (wait_world sid (s_local_addr s) ?peer s t (w_port_alloc_next w) w)"
      "set (inorder t) = insert sid (set (table_ids w))"
      by (rule connect_bound [OF inv s 1 fam free [OF 1]]) (rule that)
    have "active (s_state s)" using 1 by simp
    then have "conn_free (wait_world sid (s_local_addr s) ?peer s t (w_port_alloc_next w) w) sid
        (s_sock_type s) (s_local_addr s) (s_peer_addr s)"
      using conn_free_self [OF inv s] conn_free_wait [OF t(3)] by simp
    then show ?thesis
      using run' [unfolded t(1)]
      by (intro connect_finish_inv [OF t(2), of sid "wait_sock (s_local_addr s) ?peer s"]) simp_all
  next
    case 2
    from inv s 2 fam show ?thesis
    proof (cases rule: connect_ready)
      case (fail rc1 n)
      have "sock_inv (sock_put sid (s\<lparr>s_local_addr := (s_local_addr s)\<lparr>a_cid := d_cid (w_dev w)\<rparr>,
          s_peer_addr := any_addr\<rparr>) w)"
        using sock_invD(2) [OF inv s] 2 by (intro inv_put [OF inv s]) (simp_all add: wf_sock_def)
      with fail run' show ?thesis by simp
    next
      case (go port t n)
      from run' [unfolded go(1)] show ?thesis
        by (intro connect_finish_inv [OF go(2), of sid "wait_sock \<lparr>a_cid = d_cid (w_dev w), a_port = port\<rparr> ?peer s"])
          simp_all
    qed
  qed
qed (use inv in simp)

end

section \<open>Accepting\<close>

definition pop_accept :: "virtio_vsock_accept_entry list \<Rightarrow> virtio_vsock \<Rightarrow> virtio_vsock" where
  "pop_accept q l = l\<lparr>s_accept_queue := q, s_accept_queue_length := s_accept_queue_length l - 1\<rparr>"

lemma pop_accept_inv:
  assumes inv: "sock_inv w" and l: "w_socks w sid = Some l" and q: "s_accept_queue l = e # q"
  shows "sock_inv (sock_put sid (pop_accept q l) w)"
  using sock_invD(2) [OF inv l] q
  by (intro inv_put [OF inv l]) (simp_all add: pop_accept_def wf_sock_def uk_vsock_sockaddr_key_def)

context vsock_driver
begin

lemma accept_cases:
  assumes inv: "sock_inv w" and run: "vsock_accept4 ops ps sid addr addr_len w = Some (r, w')"
  obtains (refused) e where "r = Inl e" and "w' = w"
    | (failed) l entry q rc where "w_socks w sid = Some l" and "s_state l = UK_VSOCK_STATE_LISTENING"
        and "s_accept_queue l = entry # q" and "r = Inl rc" and "rc \<noteq> 0"
        and "core w' = core (sock_put sid (pop_accept q l) w)"
    | (accepted) l entry q s w2 s2 w3 copied where "w_socks w sid = Some l"
        and "s_state l = UK_VSOCK_STATE_LISTENING" and "s_accept_queue l = entry # q"
        and "r = Inr (w_next_sock w, copied)" and "fresh_sock (s_sock_type l) s"
        and "s_local_addr s = \<lparr>a_cid = d_cid (w_dev w), a_port = a_port (s_local_addr l)\<rparr>"
        and "s_peer_addr s = ae_peer entry"
        and "core w2 = core (add_sock s (sock_put sid (pop_accept q l) w))"
        and "w_socks w2 (w_next_sock w) = Some s2" and "uk_vsock.truncate s2 = uk_vsock.truncate s"
        and "w3 = snd (uk_vsockets_INSERT (w_next_sock w)
               (sock_put (w_next_sock w) (s2\<lparr>s_state := UK_VSOCK_STATE_OPEN\<rparr>) w2))"
        and "w' = (if q = [] then w3\<lparr>w_events := (w_events w3)(ps := w_events w3 ps AND NOT EPOLLIN)\<rparr> else w3)"
proof (cases "\<exists>e. r = Inl e \<and> w' = w")
  case True
  then show thesis using refused by blast
next
  case False
  then obtain l entry q where l: "w_socks w sid = Some l" "s_state l = UK_VSOCK_STATE_LISTENING"
      "s_accept_queue l = entry # q"
    using run by (auto simp: vsock_accept4_def returns split: if_splits list.splits)
  let ?w = "sock_put sid (pop_accept q l) w" and ?new = "w_next_sock w"
  obtain rc out w1 where a: "op_accept ops sid entry ?w = Some (rc, out, w1)"
    using run l False by (auto simp: vsock_accept4_def returns Let_def pop_accept_def split: if_splits)
  let ?w2 = "op_free_accept_entry ops sid entry w1"
  have sid: "w_socks ?w sid = Some (pop_accept q l)" by simp
  note acc = accept_core [OF a sid]
  show thesis
  proof (cases "rc = 0")
    case rc: False
    then have "r = Inl rc" "w' = ?w2"
      using run l a False by (auto simp: vsock_accept4_def returns Let_def pop_accept_def split: if_splits)
    with acc rc show thesis by (intro failed [OF l]) (simp_all add: free_core)
  next
    case True
    with acc obtain s where s: "out = Some ?new" "fresh_sock (s_sock_type l) s"
      "s_local_addr s = \<lparr>a_cid = d_cid (w_dev w), a_port = a_port (s_local_addr l)\<rparr>"
      "s_peer_addr s = ae_peer entry" "core w1 = core (add_sock s ?w)"
      by (auto simp: pop_accept_def)
    then have c2: "core ?w2 = core (add_sock s ?w)" by (simp add: free_core)
    have new: "w_socks (add_sock s ?w) ?new = Some s" by (simp add: add_sock_def)
    obtain s2 where s2: "w_socks ?w2 ?new = Some s2" "uk_vsock.truncate s2 = uk_vsock.truncate s"
      by (rule core_sock [OF c2 new])
    let ?w3 = "snd (uk_vsockets_INSERT ?new (sock_put ?new (s2\<lparr>s_state := UK_VSOCK_STATE_OPEN\<rparr>) ?w2))"
    have ne: "sid \<noteq> ?new" using sock_invD(3) [OF inv l(1)] by simp
    then have "w_socks (add_sock s ?w) sid = Some (pop_accept q l)" by (simp add: add_sock_def)
    from core_sock [OF c2 this] obtain l2 where l2: "w_socks ?w2 sid = Some l2"
      "uk_vsock.truncate l2 = uk_vsock.truncate (pop_accept q l)" .
    then have q: "s_accept_queue l2 = q" using truncate_fields(9) [OF l2(2)] by (simp add: pop_accept_def)
    have "(\<exists>copied. r = Inr (?new, copied)) \<and>
        w' = (if q = [] then ?w3\<lparr>w_events := (w_events ?w3)(ps := w_events ?w3 ps AND NOT EPOLLIN)\<rparr> else ?w3)"
      using run l a True s(1) s2(1) l2(1) q ne False
      by (auto simp: vsock_accept4_def returns Let_def pop_accept_def split: if_splits)
    then show thesis by (elim conjE exE) (rule accepted [OF l _ s(2-4) c2 s2 refl])
  qed
qed

lemma accept_inv:
  assumes inv: "sock_inv w" and run: "vsock_accept4 ops ps sid addr addr_len w = Some (r, w')"
    and free: "\<And>l e q. w_socks w sid = Some l \<Longrightarrow> s_accept_queue l = e # q \<Longrightarrow> conn_free w (w_next_sock w)
      (s_sock_type l) \<lparr>a_cid = d_cid (w_dev w), a_port = a_port (s_local_addr l)\<rparr> (ae_peer e)"
  shows "sock_inv w'"
  using inv run
proof (cases rule: accept_cases)
  case (refused e)
  with inv show ?thesis by simp
next
  case (failed l entry q rc)
  from sock_inv_core [OF failed(6) pop_accept_inv [OF inv failed(1,3)]] show ?thesis .
next
  case (accepted l entry q s w2 s2 w3 copied)
  let ?w = "sock_put sid (pop_accept q l) w" and ?new = "w_next_sock w"
  let ?s = "s2\<lparr>s_state := UK_VSOCK_STATE_OPEN\<rparr>"
  note f = fresh_sockD [OF accepted(5)] and tf = truncate_fields [OF accepted(10)]
  have inv2: "sock_inv w2"
    by (rule sock_inv_core [OF accepted(8) inv_add [OF pop_accept_inv [OF inv accepted(1,3)] f(1,2)]])
  have nact: "\<not> active (s_state s2)" using tf f by simp
  have dev: "d_cid (w_dev w2) = d_cid (w_dev w)"
    using core_fields(5) [OF accepted(8)] by (simp add: add_sock_def)
  have cid: "a_cid (s_local_addr ?s) = d_cid (w_dev w2)" using tf(6) accepted(6) dev by simp
  have ids: "table_ids w2 = table_ids w" using core_fields(7) [OF accepted(8)] by (simp add: add_sock_def table_ids_def)
  have key: "key_of w2 x = key_of w x \<and> x \<noteq> ?new" if "x \<in> set (table_ids w)" for x
  proof -
    have "w_socks w x \<noteq> None" by (rule table_invD(3) [OF sock_invD(1) [OF inv] that])
    then obtain sx where sx: "w_socks w x = Some sx" by blast
    then have ne: "x \<noteq> ?new" using sock_invD(3) [OF inv sx] by simp
    then have "w_socks (add_sock s ?w) x \<noteq> None" using sx by (simp add: add_sock_def)
    from core_key [OF accepted(8) this] ne sx accepted(1) show ?thesis
      by (auto simp: add_sock_def key_of_def pop_accept_def uk_vsock_sockaddr_key_def)
  qed
  have "uk_vsock_sockaddr_key ?s = \<lparr>ci_type = s_sock_type l, ci_local =
      \<lparr>a_cid = d_cid (w_dev w), a_port = a_port (s_local_addr l)\<rparr>, ci_peer = ae_peer entry, ci_mask = {}\<rparr>"
    using tf accepted(6,7) f(3) by (simp add: uk_vsock_sockaddr_key_def)
  then have fresh: "\<forall>x\<in>set (table_ids w2). key_of w2 x \<noteq> uk_vsock_sockaddr_key ?s"
    using free [OF accepted(1,3)] key unfolding ids conn_free_def by auto
  obtain t where t: "uk_vsockets_INSERT ?new (sock_put ?new ?s w2) = (None, (sock_put ?new ?s w2)\<lparr>w_sockets := t\<rparr>)"
    "\<And>s''. active (s_state s'') \<Longrightarrow> wf_sock s'' \<Longrightarrow> uk_vsock_sockaddr_key s'' = uk_vsock_sockaddr_key ?s \<Longrightarrow>
      sock_inv ((sock_put ?new s'' w2)\<lparr>w_sockets := t\<rparr>)"
    "set (inorder t) = insert ?new (set (table_ids w2))"
    by (rule inv_insert [OF inv2 accepted(9) nact cid fresh]) (rule that)
  have "sock_inv w3"
    unfolding accepted(11) t(1) snd_conv using sock_invD(2) [OF inv2 accepted(9)]
    by (intro t(2)) (simp_all add: wf_sock_def)
  then show ?thesis using accepted(12) by (simp split: if_splits)
qed

end

section \<open>Creation, options and shutdown\<close>

context vsock_driver
begin

lemma create_inv:
  assumes inv: "sock_inv w" and run: "vsock_create ops family type protocol w = Some (r, w')"
  shows "sock_inv w'"
proof (cases "w_main_dev w")
  case True
  with run obtain rc out where c: "op_create ops type protocol w = Some (rc, out, w')"
    by (auto simp: vsock_create_def returns split: if_splits)
  show ?thesis
  proof (cases "rc = 0")
    case True
    with create_core [OF c] obtain s where s: "fresh_sock type s" "core w' = core (add_sock s w)" by auto
    from sock_inv_core [OF s(2) inv_add [OF inv fresh_sockD(1,2) [OF s(1)]]] show ?thesis .
  next
    case False
    with create_core [OF c] sock_inv_core [OF _ inv] show ?thesis by simp
  qed
qed (use run inv in \<open>simp add: vsock_create_def\<close>)

lemma shutdown_inv:
  assumes inv: "sock_inv w" and run: "vsock_shutdown ops sid how w = Some (rc, w')"
  shows "sock_inv w'"
proof -
  consider "w' = w" | rc1 w1 rx tx where "op_shutdown ops sid rx tx w = Some (rc1, w1)"
      "w' = w1 \<or> uk_vsock_conn_shutdown ops sid rx tx w1 = Some (rc, w')"
    using run by (auto simp: vsock_shutdown_def returns Let_def split: if_splits)
  then show ?thesis
  proof cases
    case 2
    from sock_inv_core [OF shutdown_core [OF 2(1)] inv] have "sock_inv w1" .
    with 2(2) conn_shutdown_inv show ?thesis by blast
  qed (use inv in simp)
qed

end

lemma getsockopt_inv:
  assumes inv: "sock_inv w" and run: "vsock_getsockopt sid level optname optlen w = Some (rc, out, w')"
  shows "sock_inv w'"
proof -
  obtain s where s: "w_socks w sid = Some s" using run by (auto simp: vsock_getsockopt_def returns)
  have "sock_inv (sock_put sid (s\<lparr>s_so_error := 0\<rparr>) w)"
    by (rule inv_flags [OF inv s]) (simp_all add: uk_vsock_sockaddr_key_def)
  with run s inv show ?thesis
    by (auto simp: vsock_getsockopt_def sock_get_def case_prod_beta split: if_splits)
qed

lemma poll_setup_inv:
  assumes inv: "sock_inv w" and run: "vsock_poll_setup ps sid w = Some w'"
  shows "sock_inv w'"
proof -
  obtain s where s: "w_socks w sid = Some s" "w' = sock_put sid (s\<lparr>s_posix_sock := Some ps\<rparr>) w"
    using run by (auto simp: vsock_poll_setup_def returns)
  show ?thesis unfolding s(2) by (rule inv_flags [OF inv s(1)]) (simp_all add: uk_vsock_sockaddr_key_def)
qed

section \<open>Data transfer\<close>

text \<open>A read takes a prefix of the received bytes; an empty element of the vector ends it.\<close>

definition taken :: "nat list \<Rightarrow> nat \<Rightarrow> nat" where
  "taken iov n = min (sum_list (takeWhile (\<lambda>l. l \<noteq> 0) iov)) n"

lemma taken_Cons:
  "taken (len # iov) n = (if len = 0 \<or> n = 0 then 0 else min len n + taken iov (n - min len n))"
  by (auto simp: taken_def)

context vsock_driver
begin

lemma write_loop_inv:
  assumes "sock_inv w" and "write_loop ops ps sid iov n w = Some (rc, w')"
  shows "sock_inv w'"
  using assms
proof (induction iov arbitrary: n w)
  case (Cons buf iov)
  obtain res w1 where s: "op_send ops sid buf w = Some (res, w1)"
    using Cons.prems(2) by (auto simp: returns)
  have inv: "sock_inv w1" by (rule sock_inv_core [OF send_core [OF s] Cons.prems(1)])
  show ?case
  proof (cases "0 < res")
    case True
    with Cons.prems(2) s have "write_loop ops ps sid iov (n + res) w1 = Some (rc, w')" by simp
    with inv show ?thesis by (rule Cons.IH)
  next
    case False
    with Cons.prems(2) s inv show ?thesis by (auto simp: returns split: if_splits)
  qed
qed simp

lemma write_inv:
  assumes "sock_inv w" and "vsock_write ops ps sid iov w = Some (rc, w')"
  shows "sock_inv w'"
  using assms write_loop_inv [OF assms(1)] by (auto simp: vsock_write_def returns split: if_splits)

lemma sendto_inv:
  assumes "sock_inv w" and "vsock_sendto ops ps sid buf dest w = Some (rc, w')"
  shows "sock_inv w'"
  using assms sock_inv_core [OF send_core assms(1)]
  by (auto simp: vsock_sendto_def returns split: if_splits)

lemma credit_notify_core: "credit_notify ops sid w = Some w' \<Longrightarrow> core w' = core w"
  by (auto simp: credit_notify_def returns credit_core split: if_splits)

lemma read_loop_spec:
  assumes "w_socks w sid = Some s" and "wf_buffer (s_rx s)"
    and "read_loop ops sid iov out w = Some (ret, out', w')"
  shows "\<exists>rx. out' = out @ take (taken iov (b_count (s_rx s))) (contents (s_rx s))
    \<and> ret = (if out' \<noteq> [] \<or> iov = [] \<or> s_rx_shutdown s then int (length out') else - EAGAIN)
    \<and> wf_buffer rx \<and> contents rx = drop (taken iov (b_count (s_rx s))) (contents (s_rx s))
    \<and> b_capacity rx = b_capacity (s_rx s)
    \<and> b_total_processed rx = b_total_processed (s_rx s) + of_nat (taken iov (b_count (s_rx s)))
    \<and> core w' = core (sock_put sid (s\<lparr>s_rx := rx\<rparr>) w)"
  using assms
proof (induction iov arbitrary: out s w)
  case Nil
  then show ?case by (intro exI [of _ "s_rx s"]) (auto simp: taken_def sock_put_idem)
next
  case (Cons len iov)
  let ?b = "s_rx s"
  let ?n = "b_count ?b" and ?k = "min len (b_count ?b)"
  note rd = buffer_read_contents [OF Cons.prems(2), of len]
  show ?case
  proof (cases "len = 0 \<or> ?n = 0")
    case True
    then have "take len (contents ?b) = []" using contents_length [of ?b] by (auto simp del: contents_length)
    with Cons.prems rd have "ret = (if out = [] then (if \<not> s_rx_shutdown s then - EAGAIN else 0) else int (length out))"
      "out' = out" "w' = w" by (auto simp: sock_get_def)
    with True Cons.prems show ?thesis
      by (intro exI [of _ ?b]) (simp add: taken_Cons sock_put_idem)
  next
    case False
    obtain b where b: "uk_vsock_buffer_consume ?b ?k = Some b" "wf_buffer b" "contents b = drop ?k (contents ?b)"
      "b_capacity b = b_capacity ?b" "b_total_processed b = b_total_processed ?b + of_nat ?k"
      using buffer_consume_contents [OF Cons.prems(2), of ?k] by auto
    let ?w = "sock_put sid (s\<lparr>s_rx := b\<rparr>) w" and ?bytes = "take len (contents ?b)"
    have ne: "?bytes \<noteq> []" using False by (metis contents_length length_0_conv take_eq_Nil)
    obtain w1 where w1: "credit_notify ops sid ?w = Some w1" "read_loop ops sid iov (out @ ?bytes) w1 = Some (ret, out', w')"
      using Cons.prems rd ne b(1) by (auto simp: returns min.commute)
    note c = credit_notify_core [OF w1(1)]
    obtain s1 where s1: "w_socks w1 sid = Some s1" "uk_vsock.truncate s1 = uk_vsock.truncate (s\<lparr>s_rx := b\<rparr>)"
      by (rule core_sock [OF c, of sid "s\<lparr>s_rx := b\<rparr>"]) simp_all
    note f = truncate_fields [OF s1(2)]
    have n1: "b_count (s_rx s1) = ?n - ?k" using b(3) f(8) contents_length [of b] by simp
    have "wf_buffer (s_rx s1)" using b(2) f(8) by simp
    from Cons.IH [OF s1(1) this w1(2)] obtain rx where rx:
      "out' = (out @ ?bytes) @ take (taken iov (?n - ?k)) (drop ?k (contents ?b))"
      "ret = int (length out')" "wf_buffer rx" "contents rx = drop (taken iov (?n - ?k)) (drop ?k (contents ?b))"
      "b_capacity rx = b_capacity ?b"
      "b_total_processed rx = b_total_processed ?b + of_nat ?k + of_nat (taken iov (?n - ?k))"
      "core w' = core (sock_put sid (s1\<lparr>s_rx := rx\<rparr>) w1)"
      using ne f b n1 by (auto simp: Cons.prems)
    have t: "taken (len # iov) ?n = ?k + taken iov (?n - ?k)" using False by (simp add: taken_Cons)
    have "core w' = core (sock_put sid (s\<lparr>s_rx := rx\<rparr>) ?w)"
      unfolding rx(7) using f by (intro core_put c) (simp add: uk_vsock.truncate_def)
    moreover have "?bytes = take ?k (contents ?b)" by (simp add: min_def)
    ultimately show ?thesis
      using rx ne unfolding t by (intro exI [of _ rx]) (auto simp: take_add add.commute)
  qed
qed

lemma read_loop_inv:
  assumes inv: "sock_inv w" and run: "read_loop ops sid iov out w = Some (ret, out', w')"
  shows "sock_inv w'"
proof (cases "iov = []")
  case False
  then obtain s where s: "w_socks w sid = Some s" using run by (cases iov) (auto simp: returns)
  have wf: "wf_buffer (s_rx s)" using sock_invD(2) [OF inv s] by (simp add: wf_sock_def)
  obtain rx where "wf_buffer rx" "core w' = core (sock_put sid (s\<lparr>s_rx := rx\<rparr>) w)"
    using read_loop_spec [OF s wf run] by blast
  with sock_inv_core inv_rx [OF inv s] show ?thesis by blast
qed (use assms in simp)

lemma read_inv:
  assumes inv: "sock_inv w" and run: "vsock_read ops ps sid iov w = Some (ret, out, w')"
  shows "sock_inv w'"
  using assms read_loop_inv [OF inv]
  by (auto simp: vsock_read_def read_finish_def returns split: if_splits)

lemma recvfrom_inv:
  assumes inv: "sock_inv w" and run: "vsock_recvfrom ops ps sid len from w = Some (ret, out, w')"
  shows "sock_inv w'"
proof (cases "from")
  case False
  then obtain s where s: "w_socks w sid = Some s" using run by (auto simp: vsock_recvfrom_def returns)
  have wf: "wf_buffer (s_rx s)" using sock_invD(2) [OF inv s] by (simp add: wf_sock_def)
  have nxt: "sock_inv w1" if "uk_vsock_buffer_consume (s_rx s) (length (take len (contents (s_rx s)))) = Some b"
    "credit_notify ops sid (sock_put sid (s\<lparr>s_rx := b\<rparr>) w) = Some w1" for b w1
    using that buffer_consume_contents [OF wf, of "length (take len (contents (s_rx s)))"]
      sock_inv_core [OF credit_notify_core [OF that(2)]] inv_rx [OF inv s, of b] by simp
  show ?thesis
    using run False s inv buffer_read_contents [OF wf, of len] nxt
    by (auto simp: vsock_recvfrom_def read_finish_def returns split: if_splits)
qed (use run inv in \<open>simp add: vsock_recvfrom_def\<close>)

end

end
