(* ===== verification/Vsock_Term.thy ===== *)
theory Vsock_Term
  imports Vsock_Posix
begin

text \<open>
  The end of all connections on a transport reset (\<open>uk_vsockets_term\<close>): the loop over the tree takes
  the successor of a socket before it closes the socket. It keeps the invariant, and for a driver
  whose resets return (\<open>vsock_driver_live\<close>) it terminates, closes every socket whose reset could be
  sent, and leaves the others in the table.
\<close>

section \<open>The invariant\<close>

context vsock_driver
begin

lemma term_loop_inv:
  assumes "sock_inv w" and "term_loop ops cur ret w = Some r"
  shows "sock_inv (snd r)"
proof -
  have "sock_inv w \<longrightarrow> sock_inv (snd r)"
    using _ assms(2)
  proof (rule term_loop.raw_induct [where P = "\<lambda>ops' cur ret w r. ops' = ops \<longrightarrow> sock_inv w \<longrightarrow> sock_inv (snd r)", THEN mp])
    fix loop ops' cur ret w r
    assume IH: "\<And>ops' cur ret w r. loop ops' cur ret w = Some r \<Longrightarrow> ops' = ops \<longrightarrow> sock_inv w \<longrightarrow> sock_inv (snd r)"
      and run: "(case cur of None \<Rightarrow> Some (ret, w) | Some sid \<Rightarrow> rb_next sid (w_sockets w) \<bind>
        (\<lambda>tmp. term_body ops' sid ret w \<bind> (\<lambda>r. loop ops' tmp (fst r) (snd r)))) = Some r"
    show "ops' = ops \<longrightarrow> sock_inv w \<longrightarrow> sock_inv (snd r)"
    proof (intro impI, cases cur)
      fix sid assume a: "ops' = ops" "sock_inv w" "cur = Some sid"
      then obtain tmp rc w1 where b: "term_body ops sid ret w = Some (rc, w1)" "loop ops tmp rc w1 = Some r"
        using run by (auto simp: returns)
      have "sock_inv w1" using b(1) a(2) close_inv [OF a(2)] by (auto simp: term_body_def returns split: if_splits)
      with IH [OF b(2)] show "sock_inv (snd r)" by simp
    qed (use run in auto)
  qed simp
  with assms(1) show ?thesis by simp
qed

lemma term_inv:
  assumes "sock_inv w" and "uk_vsockets_term ops w = Some (ret, w')"
  shows "sock_inv w'"
  using term_loop_inv [OF assms(1) assms(2) [unfolded uk_vsockets_term_def]] by simp

end

section \<open>A driver whose resets return\<close>

text \<open>
  A driver whose resets return: \<open>good\<close> is what it needs for that. It does not depend on the sockets
  and their events, and resets keep it.
\<close>

locale vsock_driver_live = vsock_driver +
  fixes good :: "vsock_world \<Rightarrow> bool"
  assumes good_frame: "good (w\<lparr>w_socks := x, w_sockets := t, w_events := e\<rparr>) = good w"
    and reset_live: "good w \<Longrightarrow> w_socks w sid = Some s \<Longrightarrow> \<exists>rc w'. op_reset ops sid w = Some (rc, w') \<and> good w'"
    and free_live: "good w \<Longrightarrow> good (op_free_accept_entry ops sid entry w)"
begin

lemma good_put [simp]: "good (sock_put sid s w) = good w"
  using good_frame [of "w_events w" "w_sockets w" "(w_socks w)(sid \<mapsto> s)" w] by (simp add: sock_put_def)

lemma good_sockets [simp]: "good (w\<lparr>w_sockets := t\<rparr>) = good w"
  using good_frame [of "w_events w" t "w_socks w" w] by simp

lemma good_events [simp]: "good (w\<lparr>w_events := e\<rparr>) = good w"
  using good_frame [of e "w_sockets w" "w_socks w" w] by simp

lemma drain_live:
  assumes "good w" and "w_socks w sid = Some s"
  shows "\<exists>w'. drain_loop ops sid es w = Some w' \<and> good w'"
  using assms
proof (induction es arbitrary: w s)
  case (Cons e es)
  let ?w1 = "sock_put sid (s\<lparr>s_accept_queue := es\<rparr>) w"
  let ?w2 = "op_free_accept_entry ops sid e ?w1"
  obtain s2 where s2: "w_socks ?w2 sid = Some s2"
    by (rule core_sock [OF free_core, of ?w1 sid "s\<lparr>s_accept_queue := es\<rparr>"]) simp_all
  let ?s3 = "s2\<lparr>s_accept_queue_length := s_accept_queue_length s2 - 1\<rparr>"
  have g: "good (sock_put sid ?s3 ?w2)" using Cons.prems free_live by simp
  have "w_socks (sock_put sid ?s3 ?w2) sid = Some ?s3" by simp
  from Cons.IH [OF g this] show ?case using Cons.prems(2) s2 by (simp add: sock_upd_def)
qed simp

lemma close_last_live:
  assumes good: "good w1" and c1: "core w1 = core w" and inv: "sock_inv w" and s: "w_socks w sid = Some s"
    and act: "active (s_state s)" and p: "s_posix_sock s = Some p" and dev: "w_main_dev w"
  shows "\<exists>rc w'. (if s_state s = UK_VSOCK_STATE_WAIT_CONNECT then uk_vsockets_REMOVE sid w1 \<bind> close_finish sid
      else dev_call (uk_vsock_drain_accept_queue ops sid) w1 \<bind>
        (\<lambda>w. uk_vsockets_REMOVE sid w \<bind> close_finish sid)) = Some (rc, w') \<and> good w'"
proof -
  have last: "\<exists>rc w'. uk_vsockets_REMOVE sid w2 \<bind> close_finish sid = Some (rc, w') \<and> good w'"
    if a: "good w2" "core w2 = core (sock_put sid s2 w)" "sock_inv (sock_put sid s2 w)" "active (s_state s2)"
      "s_posix_sock s2 = Some p" for w2 s2
  proof -
    have inv2: "sock_inv w2" by (rule sock_inv_core [OF a(2,3)])
    obtain s3 where s3: "w_socks w2 sid = Some s3" "uk_vsock.truncate s3 = uk_vsock.truncate s2"
      by (rule core_sock [OF a(2), of sid s2]) simp_all
    note f = truncate_fields [OF s3(2)]
    have "active (s_state s3)" using a(4) f by simp
    from inv_remove [OF inv2 s3(1) this] obtain t where t: "uk_vsockets_REMOVE sid w2 = Some (w2\<lparr>w_sockets := t\<rparr>)" .
    have "w_socks (w2\<lparr>w_sockets := t\<rparr>) sid = Some s3" using s3(1) by simp
    from close_finish_eq [OF this] f a(5) t a(1) show ?thesis by auto
  qed
  obtain s1 where s1: "w_socks w1 sid = Some s1" "uk_vsock.truncate s1 = uk_vsock.truncate s"
    by (rule core_sock [OF c1 s])
  show ?thesis
  proof (cases "s_state s = UK_VSOCK_STATE_WAIT_CONNECT")
    case True
    have "sock_put sid s w = w" using s by (simp add: sock_put_def fun_upd_idem)
    then show ?thesis using True last [of w1 s] good c1 inv act p by simp
  next
    case False
    obtain w2 where w2: "drain_loop ops sid (s_accept_queue s1) w1 = Some w2" "good w2"
      using drain_live [OF good s1(1)] by blast
    have wf: "wf_sock s" by (rule sock_invD(2) [OF inv s])
    note f = truncate_fields [OF s1(2)]
    have "core w2 = core (sock_put sid (drained s) w)"
      unfolding drain_core [OF s1(1) w2(1) refl]
      using f wf False c1 by (intro core_put) (simp_all add: drained_def wf_sock_def uk_vsock.truncate_def)
    moreover have "sock_inv (sock_put sid (drained s) w)"
      by (rule inv_put [OF inv s])
        (use wf in \<open>simp_all add: drained_def wf_sock_def uk_vsock_sockaddr_key_def\<close>)
    moreover have "dev_call (uk_vsock_drain_accept_queue ops sid) w1 = Some w2"
      using core_fields(4) [OF c1] dev w2(1) s1(1) by (simp add: dev_call_def uk_vsock_drain_accept_queue_def sock_get_def)
    ultimately show ?thesis using False last [of w2 "drained s"] w2(2) act p by simp
  qed
qed

lemma close_force_live:
  assumes good: "good w" and inv: "sock_inv w" and s: "w_socks w sid = Some s"
    and act: "active (s_state s)" and p: "s_posix_sock s = Some p" and dev: "w_main_dev w"
  shows "\<exists>rc w'. uk_vsock_close ops sid True w = Some (rc, w') \<and> good w'"
proof -
  obtain rc w1 where r: "op_reset ops sid w = Some (rc, w1)" "good w1" using reset_live [OF good s] by blast
  note c1 = reset_core [OF r(1)]
  show ?thesis
  proof (cases "rc = 0")
    case True
    then have reset: "(if True then dev_call (op_reset ops sid) w else Some (0, w)) = Some (0, w1)"
      using r(1) dev by (simp add: dev_call_def)
    from close_last_live [OF r(2) c1 inv s act p dev] show ?thesis
      unfolding close_split [OF c1 s reset act] by simp
  next
    case False
    with r dev show ?thesis by (simp add: uk_vsock_close_def dev_call_def)
  qed
qed

lemma close_force_step:
  assumes good: "good w" and inv: "sock_inv w" and s: "w_socks w sid = Some s"
    and act: "active (s_state s)" and p: "s_posix_sock s = Some p" and dev: "w_main_dev w"
  obtains rc w' where "uk_vsock_close ops sid True w = Some (rc, w')" and "good w'" and "sock_inv w'"
    and "w_main_dev w'" and "d_cid (w_dev w') = d_cid (w_dev w)"
    and "\<forall>x. x \<noteq> sid \<longrightarrow> map_option uk_vsock.truncate (w_socks w' x) = map_option uk_vsock.truncate (w_socks w x)"
    and "if rc = 0 then table_ids w' = remove1 sid (table_ids w)
           \<and> (\<exists>s'. w_socks w' sid = Some s' \<and> s_state s' = UK_VSOCK_STATE_CLOSED)
         else table_ids w' = table_ids w"
proof -
  obtain rc w' where r: "uk_vsock_close ops sid True w = Some (rc, w')" "good w'"
    using close_force_live [OF assms] by blast
  note inv' = close_inv [OF inv s r(1)]
  from inv s r(1) show thesis
  proof (cases rule: close_cases)
    case err
    note f = core_fields [OF err(2)]
    from err f dev core_socks [OF err(2)] show thesis by (intro that [OF r inv']) simp_all
  next
    case idle
    with act show thesis by simp
  next
    case (closed t p')
    note f = core_fields [OF closed(5)]
    have s': "w_socks (closed_world sid s t p' w) sid = Some (close_sock (drained s))"
      by (simp add: closed_world_def)
    obtain s2 where s2: "w_socks w' sid = Some s2" "uk_vsock.truncate s2 = uk_vsock.truncate (close_sock (drained s))"
      by (rule core_sock [OF closed(5) s'])
    have "s_state s2 = UK_VSOCK_STATE_CLOSED" using truncate_fields(1) [OF s2(2)] by (simp add: close_sock_def)
    moreover have "table_ids w' = remove1 sid (table_ids w)" "w_main_dev w'" "d_cid (w_dev w') = d_cid (w_dev w)"
      using f closed(6) dev by (simp_all add: closed_world_def table_ids_def)
    moreover have "map_option uk_vsock.truncate (w_socks w' x) = map_option uk_vsock.truncate (w_socks w x)"
      if "x \<noteq> sid" for x using core_socks [OF closed(5), of x] that by (simp add: closed_world_def)
    ultimately show thesis using closed(1) s2(1) by (intro that [OF r inv']) auto
  qed
qed

lemma term_affects_active:
  assumes inv: "sock_inv w" and s: "w_socks w sid = Some s" "active (s_state s)"
    and cid: "d_cid (w_dev w) \<noteq> UK_VSOCK_CID_ANY"
  shows "term_affects s"
proof -
  have "sid \<in> set (table_ids w)" using sock_invD(4) [OF inv s(1)] s(2) by simp
  from table_invD(4) [OF sock_invD(1) [OF inv] this] key_of_eq [OF s(1)]
  have "a_cid (s_local_addr s) = d_cid (w_dev w)" by (simp add: uk_vsock_sockaddr_key_def)
  with cid s(2) show ?thesis by (cases "s_state s") (simp_all add: term_affects_def)
qed

lemma term_loop_live:
  assumes "sock_inv w" and "good w" and "w_main_dev w" and "d_cid (w_dev w) \<noteq> UK_VSOCK_CID_ANY"
    and "table_ids w = xs @ ys" and "\<forall>x\<in>set ys. \<exists>s p. w_socks w x = Some s \<and> s_posix_sock s = Some p"
  shows "\<exists>ret' w' ks. term_loop ops (case ys of [] \<Rightarrow> None | y # _ \<Rightarrow> Some y) ret w = Some (ret', w')
    \<and> sock_inv w' \<and> good w' \<and> table_ids w' = xs @ ks \<and> set ks \<subseteq> set ys \<and> (ret' = 0 \<longleftrightarrow> ret = 0 \<and> ks = [])
    \<and> (\<forall>x. x \<notin> set ys \<longrightarrow> map_option uk_vsock.truncate (w_socks w' x) = map_option uk_vsock.truncate (w_socks w x))
    \<and> (\<forall>x\<in>set ys - set ks. \<exists>s. w_socks w' x = Some s \<and> s_state s = UK_VSOCK_STATE_CLOSED)"
  using assms
proof (induction ys arbitrary: w xs ret)
  case Nil
  then show ?case by (intro exI [of _ ret] exI [of _ w] exI [of _ "[]"]) (simp add: term_loop.simps)
next
  case (Cons y ys)
  note inv = Cons.prems(1) and tab = sock_invD(1) [OF Cons.prems(1)]
  have dist: "distinct (xs @ y # ys)" using table_distinct [OF tab] Cons.prems(5) by simp
  obtain s p where s: "w_socks w y = Some s" "s_posix_sock s = Some p" using Cons.prems(6) by auto
  have act: "active (s_state s)" using sock_invD(4) [OF inv s(1)] Cons.prems(5) by simp
  have nxt: "rb_next y (w_sockets w) = Some (case ys of [] \<Rightarrow> None | z # _ \<Rightarrow> Some z)"
    using Cons.prems(5) by (intro rb_next_at [OF _ dist]) (simp add: table_ids_def)
  obtain rc w1 where c: "uk_vsock_close ops y True w = Some (rc, w1)" "good w1" "sock_inv w1"
    "w_main_dev w1" "d_cid (w_dev w1) = d_cid (w_dev w)"
    "\<forall>x. x \<noteq> y \<longrightarrow> map_option uk_vsock.truncate (w_socks w1 x) = map_option uk_vsock.truncate (w_socks w x)"
    "if rc = 0 then table_ids w1 = remove1 y (table_ids w)
           \<and> (\<exists>s'. w_socks w1 y = Some s' \<and> s_state s' = UK_VSOCK_STATE_CLOSED)
         else table_ids w1 = table_ids w"
    by (rule close_force_step [OF Cons.prems(2) inv s(1) act s(2) Cons.prems(3)]) (rule that)
  have step: "term_loop ops (Some y) ret w =
      term_loop ops (case ys of [] \<Rightarrow> None | z # _ \<Rightarrow> Some z) (if rc \<noteq> 0 then rc else ret) w1"
    using nxt s(1) c(1) term_affects_active [OF inv s(1) act Cons.prems(4)]
    by (subst term_loop.simps) (simp add: term_body_def sock_get_def)
  have rest: "\<forall>x\<in>set ys. \<exists>s p. w_socks w1 x = Some s \<and> s_posix_sock s = Some p"
  proof
    fix x assume x: "x \<in> set ys"
    then obtain sx px where sx: "w_socks w x = Some sx" "s_posix_sock sx = Some px" using Cons.prems(6) by auto
    have "x \<noteq> y" using x dist by auto
    with c(6) sx(1) obtain s1 where s1: "w_socks w1 x = Some s1" "uk_vsock.truncate s1 = uk_vsock.truncate sx" by force
    with sx(2) truncate_fields(12) [OF s1(2)] show "\<exists>s p. w_socks w1 x = Some s \<and> s_posix_sock s = Some p" by simp
  qed
  have cid: "d_cid (w_dev w1) \<noteq> UK_VSOCK_CID_ANY" using c(5) Cons.prems(4) by simp
  show ?case
  proof (cases "rc = 0")
    case True
    have ids: "table_ids w1 = xs @ ys" using True c(7) Cons.prems(5) dist by (simp add: remove1_append)
    from Cons.IH [OF c(3,2,4) cid ids rest, of ret] step True obtain ret' w' ks where k:
      "term_loop ops (Some y) ret w = Some (ret', w')" "sock_inv w'" "good w'" "table_ids w' = xs @ ks"
      "set ks \<subseteq> set ys" "ret' = 0 \<longleftrightarrow> ret = 0 \<and> ks = []"
      "\<forall>x. x \<notin> set ys \<longrightarrow> map_option uk_vsock.truncate (w_socks w' x) = map_option uk_vsock.truncate (w_socks w1 x)"
      "\<forall>x\<in>set ys - set ks. \<exists>s. w_socks w' x = Some s \<and> s_state s = UK_VSOCK_STATE_CLOSED"
      by auto
    obtain sy where sy: "w_socks w1 y = Some sy" "s_state sy = UK_VSOCK_STATE_CLOSED" using True c(7) by auto
    have "y \<notin> set ys" using dist by simp
    with k(7) sy(1) obtain sy' where "w_socks w' y = Some sy'" "uk_vsock.truncate sy' = uk_vsock.truncate sy" by force
    then have "\<exists>s. w_socks w' y = Some s \<and> s_state s = UK_VSOCK_STATE_CLOSED"
      using sy(2) truncate_fields(1) by metis
    then show ?thesis using k c(6) by (intro exI [of _ ret'] exI [of _ w'] exI [of _ ks]) auto
  next
    case False
    have ids: "table_ids w1 = (xs @ [y]) @ ys" using False c(7) Cons.prems(5) by simp
    from Cons.IH [OF c(3,2,4) cid ids rest, of rc] step False obtain ret' w' ks where k:
      "term_loop ops (Some y) ret w = Some (ret', w')" "sock_inv w'" "good w'" "table_ids w' = xs @ y # ks"
      "set ks \<subseteq> set ys" "ret' \<noteq> 0"
      "\<forall>x. x \<notin> set ys \<longrightarrow> map_option uk_vsock.truncate (w_socks w' x) = map_option uk_vsock.truncate (w_socks w1 x)"
      "\<forall>x\<in>set ys - set ks. \<exists>s. w_socks w' x = Some s \<and> s_state s = UK_VSOCK_STATE_CLOSED"
      by auto
    then show ?thesis using c(6) by (intro exI [of _ ret'] exI [of _ w'] exI [of _ "y # ks"]) auto
  qed
qed

lemma term_live:
  assumes "sock_inv w" and "good w" and "w_main_dev w" and "d_cid (w_dev w) \<noteq> UK_VSOCK_CID_ANY"
    and "\<forall>x\<in>set (table_ids w). \<exists>s p. w_socks w x = Some s \<and> s_posix_sock s = Some p"
  shows "\<exists>ret w'. uk_vsockets_term ops w = Some (ret, w') \<and> sock_inv w' \<and> good w'
    \<and> set (table_ids w') \<subseteq> set (table_ids w) \<and> (ret = 0 \<longleftrightarrow> table_ids w' = [])
    \<and> (\<forall>x\<in>set (table_ids w) - set (table_ids w'). \<exists>s. w_socks w' x = Some s \<and> s_state s = UK_VSOCK_STATE_CLOSED)"
proof -
  have "rb_min (w_sockets w) = (case table_ids w of [] \<Rightarrow> None | y # _ \<Rightarrow> Some y)"
    by (simp add: rb_min_inorder table_ids_def)
  with term_loop_live [of w "[]" "table_ids w" 0] assms show ?thesis by (auto simp: uk_vsockets_term_def)
qed

end

end
