(* ===== verification/Virtio_Vsock.thy ===== *)
theory Virtio_Vsock
  imports Vsock_Term
begin

text \<open>
  The transmit side of the virtio socket driver (\<open>drivers/virtio/vsock/virtio_vsock.c\<close>): the raw
  packet transmission with reclaiming and retry, the packets of the protocol, and the operations
  of the driver table \<open>virtio_vsockdev_ops\<close> that the socket layer calls. The receive side is in the
  theory \<open>Virtio_Vsock_Rx\<close>.

  The retry loop runs until the device frees a descriptor; it is a partial function, and \<open>None\<close> is
  the outcome that it never returns.

  The lemmas show what transmission leaves as it is (\<open>tx_frame\<close>), and that the driver fulfils the
  contract \<open>vsock_driver\<close> that the socket layer relies on.
\<close>

section \<open>Credit\<close>

definition virtio_vsock_peer_rx_free :: "virtio_vsock \<Rightarrow> u32" where
  "virtio_vsock_peer_rx_free vs = v_peer_buf_alloc vs - (v_tx_count vs - v_peer_fwd_count vs)"

section \<open>Packet buffers\<close>

text \<open>\<open>uk_netbuf_alloc_buf(drv_alloc, buflen, 8, headroom, 0, NULL)\<close>, with the packets in use counted.\<close>

definition drv_netbuf_alloc :: "nat \<Rightarrow> nat \<Rightarrow> vsock_world \<Rightarrow> (uk_netbuf option \<times> vsock_world) option" where
  "drv_netbuf_alloc buflen headroom w = do {
     (pkt, a) \<leftarrow> uk_netbuf_alloc_buf (w_alloc w) buflen 8 headroom 0;
     Some (pkt, w\<lparr>w_alloc := a,
                  w_live_netbufs := w_live_netbufs w + (case pkt of None \<Rightarrow> 0 | Some _ \<Rightarrow> 1)\<rparr>)
   }"

definition drv_netbuf_free :: "uk_netbuf \<Rightarrow> vsock_world \<Rightarrow> vsock_world option" where
  "drv_netbuf_free pkt w = do {
     rest \<leftarrow> uk_netbuf_free [pkt];
     Some (w\<lparr>w_live_netbufs := w_live_netbufs w - (1 - length rest)\<rparr>)
   }"

section \<open>Transmission\<close>

definition put_tx :: "uk_netbuf virtio_vsockdev_queue \<Rightarrow> vsock_world \<Rightarrow> vsock_world" where
  "put_tx q w = w\<lparr>w_dev := (w_dev w)\<lparr>d_tx := q\<rparr>\<rparr>"

lemma dequeue_progress:
  assumes "virtqueue_buffer_dequeue vq = Some (rc, pkt, len, vq')" and "\<not> rc < 0"
  shows "unat (vu_idx vq' - vq_last_used_desc_idx vq') < unat (vu_idx vq - vq_last_used_desc_idx vq)"
proof -
  have data: "vu_idx vq - vq_last_used_desc_idx vq \<noteq> 0"
    using assms by (auto simp: virtqueue_buffer_dequeue_def virtqueue_hasdata_def split: if_splits)
  have "vu_idx vq' = vu_idx vq" "vq_last_used_desc_idx vq' = vq_last_used_desc_idx vq + 1"
    using assms
    by (auto simp: virtqueue_buffer_dequeue_def virtqueue_detach_desc_def Let_def
        split: if_splits bind_splits)
  then show ?thesis using unat_minus_one [OF data] data
    by (simp add: algebra_simps unat_gt_0)
qed

text \<open>The loop of \<open>virtio_vsockdev_xmit_free\<close> over the packets that the device has sent.\<close>

function xmit_free_loop ::
    "uk_netbuf virtqueue_vring \<Rightarrow> nat \<Rightarrow> (uk_netbuf virtqueue_vring \<times> nat) option" where
  "xmit_free_loop vq live = (case virtqueue_buffer_dequeue vq of
     None \<Rightarrow> None
   | Some (rc, pkt, len, vq') \<Rightarrow>
       if rc < 0 then (if rc = - ENOMSG then Some (vq', live) else None)
       else (case pkt of
         None \<Rightarrow> None
       | Some p \<Rightarrow> (case uk_netbuf_free [p] of
           None \<Rightarrow> None
         | Some rest \<Rightarrow> xmit_free_loop vq' (live - (1 - length rest)))))"
  by pat_completeness auto

termination xmit_free_loop
  by (relation "measure (\<lambda>(vq, live). unat (vu_idx vq - vq_last_used_desc_idx vq))")
    (auto dest: dequeue_progress)

declare xmit_free_loop.simps [simp del]

definition virtio_vsockdev_xmit_free :: "vsock_world \<Rightarrow> vsock_world option" where
  "virtio_vsockdev_xmit_free w = do {
     let q = d_tx (w_dev w);
     (vq, live) \<leftarrow> xmit_free_loop (q_vq q) (w_live_netbufs w);
     Some ((put_tx (q\<lparr>q_vq := vq\<rparr>) w)\<lparr>w_live_netbufs := live\<rparr>)
   }"

definition virtio_vsockdev_xmit :: "uk_netbuf \<Rightarrow> vsock_world \<Rightarrow> (int \<times> vsock_world) option" where
  "virtio_vsockdev_xmit pkt w = do {
     w \<leftarrow> virtio_vsockdev_xmit_free w;
     let q = d_tx (w_dev w);
     (rc, sg) \<leftarrow> uk_sglist_append (w_v2p w) (uk_sglist_reset (q_sg q))
                  (nb_base pkt + nb_data pkt) (unat (nb_len pkt));
     let q = q\<lparr>q_sg := sg\<rparr>;
     if rc \<noteq> 0 then Some (rc, put_tx q w)
     else do {
       (rc, vq) \<leftarrow> virtqueue_buffer_enqueue (q_vq q) pkt sg (sg_nseg sg) 0;
       let q = q\<lparr>q_vq := vq\<rparr>;
       if rc \<ge> 0 then Some (0, put_tx (q\<lparr>q_vq := snd (virtqueue_host_notify vq)\<rparr>) w)
       else if rc = - ENOSPC then Some (- EAGAIN, put_tx q w)
       else Some (rc, put_tx q w)
     }
   }"

text \<open>\<open>uk_sched_yield\<close>: the device works on the transmit queue meanwhile.\<close>

definition uk_sched_yield :: "vsock_world \<Rightarrow> vsock_world" where
  "uk_sched_yield w = (
     let q = d_tx (w_dev w) in
     (put_tx (q\<lparr>q_vq := w_host w (w_time w) (q_vq q)\<rparr>) w)\<lparr>w_time := Suc (w_time w)\<rparr>)"

partial_function (option) virtio_vsockdev_xmit_retry ::
    "uk_netbuf \<Rightarrow> vsock_world \<Rightarrow> (int \<times> vsock_world) option" where
  "virtio_vsockdev_xmit_retry pkt w =
     virtio_vsockdev_xmit pkt w \<bind> (\<lambda>r.
       if fst r = - EAGAIN then virtio_vsockdev_xmit_retry pkt (uk_sched_yield (snd r))
       else Some r)"

section \<open>Control packets\<close>

text \<open>
  What all control packets have in common: a packet of the size of the header is allocated, its
  header is written, it is sent with retry, and freed when that fails.
\<close>

definition write_hdr :: "virtio_vsock_hdr \<Rightarrow> uk_netbuf \<Rightarrow> uk_netbuf option" where
  "write_hdr hdr pkt = do {
     buf \<leftarrow> mem_write (nb_buf pkt) (nb_data pkt) (encode_hdr hdr);
     Some (pkt\<lparr>nb_buf := buf\<rparr>)
   }"

definition xmit_ctrl :: "virtio_vsock_hdr \<Rightarrow> vsock_world \<Rightarrow> (int \<times> vsock_world) option" where
  "xmit_ctrl hdr w = do {
     (pkt, w) \<leftarrow> drv_netbuf_alloc sizeof_hdr 0 w;
     case pkt of
       None \<Rightarrow> Some (- ENOMEM, w)
     | Some pkt \<Rightarrow> do {
         pkt \<leftarrow> write_hdr hdr (pkt\<lparr>nb_len := of_nat sizeof_hdr\<rparr>);
         (rc, w) \<leftarrow> virtio_vsockdev_xmit_retry pkt w;
         if rc \<noteq> 0 then do { w \<leftarrow> drv_netbuf_free pkt w; Some (rc, w) }
         else Some (0, w)
       }
   }"

definition virtio_vsock_work_credit_request :: "nat \<Rightarrow> vsock_world \<Rightarrow> (int \<times> vsock_world) option" where
  "virtio_vsock_work_credit_request sid w = do {
     vs \<leftarrow> sock_get sid w;
     xmit_ctrl \<lparr>h_src_cid = ucast (d_cid (w_dev w)), h_dst_cid = ucast (a_cid (s_peer_addr vs)),
                h_src_port = a_port (s_local_addr vs), h_dst_port = a_port (s_peer_addr vs),
                h_len = 0, h_type = v_type vs, h_op = VIRTIO_VSOCK_OP_CREDIT_UPDATE, h_flags = 0,
                h_buf_alloc = of_nat (uk_vsock_buffer_capacity (s_rx vs)),
                h_fwd_cnt = ucast (uk_vsock_total_processed (s_rx vs))\<rparr> w
   }"

definition virtio_vsock_send_credit_update :: "nat \<Rightarrow> vsock_world \<Rightarrow> (int \<times> vsock_world) option" where
  "virtio_vsock_send_credit_update sid w = virtio_vsock_work_credit_request sid w"

definition virtio_vsockdev_reject_conn ::
    "nat \<Rightarrow> virtio_vsock_accept_entry \<Rightarrow> vsock_world \<Rightarrow> vsock_world option" where
  "virtio_vsockdev_reject_conn sid acc w = do {
     vv \<leftarrow> sock_get sid w;
     (rc, w) \<leftarrow> xmit_ctrl
       \<lparr>h_src_cid = ucast (a_cid (s_local_addr vv)), h_dst_cid = ucast (a_cid (ae_peer acc)),
        h_src_port = a_port (s_local_addr vv), h_dst_port = a_port (ae_peer acc),
        h_len = 0, h_type = v_type vv, h_op = VIRTIO_VSOCK_OP_RST, h_flags = 0,
        h_buf_alloc = 0, h_fwd_cnt = 0\<rparr> w;
     Some w
   }"

section \<open>Driver operations\<close>

definition sizeof_virtio_vsock :: nat where "sizeof_virtio_vsock = 160"

definition virtio_vsockdev_get_cid :: "vsock_world \<Rightarrow> u32" where
  "virtio_vsockdev_get_cid w = d_cid (w_dev w)"

definition virtio_vsock_create :: "int \<Rightarrow> int \<Rightarrow> vsock_world \<Rightarrow> (int \<times> nat option \<times> vsock_world) option" where
  "virtio_vsock_create sock_type protocol w = (
     if protocol \<noteq> 0 then Some (- EPROTONOSUPPORT, None, w)
     else if sock_type \<noteq> SOCK_STREAM \<and> sock_type \<noteq> SOCK_SEQPACKET then Some (- ESOCKTNOSUPPORT, None, w)
     else let type = (if sock_type = SOCK_STREAM then VIRTIO_VSOCK_TYPE_STREAM else VIRTIO_VSOCK_TYPE_SEQPACKET);
              (vv, a) = uk_malloc (w_alloc w) sizeof_virtio_vsock;
              w = w\<lparr>w_alloc := a\<rparr> in
       case vv of
         None \<Rightarrow> Some (- ENOMEM, None, w)
       | Some _ \<Rightarrow>
           let (rc, s, a) = uk_vsock_init (w_alloc w) sock_type; w = w\<lparr>w_alloc := a\<rparr> in
           case s of
             None \<Rightarrow> Some (rc, None, w)
           | Some s \<Rightarrow>
               let sid = w_next_sock w in
               Some (0, Some sid,
                 (sock_put sid (uk_vsock.extend s
                    \<lparr>v_type = type, v_peer_buf_alloc = 0, v_peer_fwd_count = 0, v_tx_count = 0\<rparr>) w)
                 \<lparr>w_next_sock := Suc sid\<rparr>))"

definition conn_respond_hdr :: "virtio_vsock \<Rightarrow> vsock_world \<Rightarrow> virtio_vsock_hdr" where
  "conn_respond_hdr vv w =
     \<lparr>h_src_cid = ucast (d_cid (w_dev w)), h_dst_cid = ucast (a_cid (s_peer_addr vv)),
      h_src_port = a_port (s_local_addr vv), h_dst_port = a_port (s_peer_addr vv),
      h_len = 0, h_type = v_type vv, h_op = VIRTIO_VSOCK_OP_RESPONSE, h_flags = 0,
      h_buf_alloc = of_nat (uk_vsock_buffer_capacity (s_rx vv)),
      h_fwd_cnt = ucast (uk_vsock_total_processed (s_rx vv))\<rparr>"

definition virtio_vsock_conn_respond :: "virtio_vsock \<Rightarrow> vsock_world \<Rightarrow> (int \<times> vsock_world) option" where
  "virtio_vsock_conn_respond vv w = xmit_ctrl (conn_respond_hdr vv w) w"

definition virtio_vsock_accept ::
    "nat \<Rightarrow> virtio_vsock_accept_entry \<Rightarrow> vsock_world \<Rightarrow> (int \<times> nat option \<times> vsock_world) option" where
  "virtio_vsock_accept sid ventry w = do {
     vsl \<leftarrow> sock_get sid w;
     let (mem, a) = uk_malloc (w_alloc w) sizeof_virtio_vsock;
     let w = w\<lparr>w_alloc := a\<rparr>;
     case mem of
       None \<Rightarrow> do { w \<leftarrow> virtio_vsockdev_reject_conn sid ventry w; Some (- ENOMEM, None, w) }
     | Some _ \<Rightarrow> do {
         let (rc, s, a) = uk_vsock_init (w_alloc w) (s_sock_type vsl);
         let w = w\<lparr>w_alloc := a\<rparr>;
         case s of
           None \<Rightarrow> do { w \<leftarrow> virtio_vsockdev_reject_conn sid ventry w; Some (rc, None, w) }
         | Some s \<Rightarrow> do {
             let vs = uk_vsock.extend s
                   \<lparr>v_type = v_type vsl, v_peer_buf_alloc = ae_peer_buf_alloc ventry,
                    v_peer_fwd_count = ae_peer_fwd_count ventry, v_tx_count = 0\<rparr>;
             let vs = vs\<lparr>s_peer_addr := ae_peer ventry,
                        s_local_addr := \<lparr>a_cid = d_cid (w_dev w), a_port = a_port (s_local_addr vsl)\<rparr>\<rparr>;
             (rc, w) \<leftarrow> virtio_vsock_conn_respond vs w;
             if rc \<noteq> 0 then Some (rc, None, w)
             else let new = w_next_sock w in
               Some (0, Some new, (sock_put new vs w)\<lparr>w_next_sock := Suc new\<rparr>)
           }
       }
   }"

definition virtio_vsock_free_accept_entry ::
    "nat \<Rightarrow> virtio_vsock_accept_entry \<Rightarrow> vsock_world \<Rightarrow> vsock_world" where
  "virtio_vsock_free_accept_entry sid ventry w = w"

text \<open>
  \<open>buf\<close> has the \<open>size\<close> bytes to send. The length of the packet is a 32-bit value that is stored to
  the 16-bit length of the netbuf, and the full value goes to the header and the counter.
\<close>

definition virtio_vsock_send :: "nat \<Rightarrow> u8 list \<Rightarrow> vsock_world \<Rightarrow> (int \<times> vsock_world) option" where
  "virtio_vsock_send sid buf w = (
     if length buf = 0 then Some (0, w)
     else do {
       vs \<leftarrow> sock_get sid w;
       let pkt_len = min (unat (virtio_vsock_peer_rx_free vs)) (length buf);
       if pkt_len = 0 then Some (- EAGAIN, w)
       else do {
         (pkt, w) \<leftarrow> drv_netbuf_alloc (pkt_len + sizeof_hdr) sizeof_hdr w;
         case pkt of
           None \<Rightarrow> Some (- ENOMEM, w)
         | Some pkt \<Rightarrow> do {
             mem \<leftarrow> mem_write (nb_buf pkt) (nb_data pkt) (take pkt_len buf);
             let pkt = pkt\<lparr>nb_buf := mem, nb_len := of_nat pkt_len\<rparr>;
             let (rc, pkt) = uk_netbuf_header pkt (of_nat sizeof_hdr);
             uk_assert (rc = 1);
             pkt \<leftarrow> write_hdr
               \<lparr>h_src_cid = ucast (a_cid (s_local_addr vs)), h_dst_cid = ucast (a_cid (s_peer_addr vs)),
                h_src_port = a_port (s_local_addr vs), h_dst_port = a_port (s_peer_addr vs),
                h_len = of_nat pkt_len, h_type = v_type vs, h_op = VIRTIO_VSOCK_OP_RW, h_flags = 0,
                h_buf_alloc = of_nat (uk_vsock_buffer_capacity (s_rx vs)),
                h_fwd_cnt = ucast (uk_vsock_total_processed (s_rx vs))\<rparr> pkt;
             (rc, w) \<leftarrow> virtio_vsockdev_xmit pkt w;
             if rc \<noteq> 0 then do { w \<leftarrow> drv_netbuf_free pkt w; Some (rc, w) }
             else do {
               w \<leftarrow> sock_upd sid (\<lambda>s. s\<lparr>v_tx_count := v_tx_count s + of_nat pkt_len\<rparr>) w;
               Some (int pkt_len, w)
             }
           }
       }
     })"

text \<open>Header of a control packet from a socket to its peer.\<close>

definition sock_hdr :: "virtio_vsock \<Rightarrow> u16 \<Rightarrow> u32 \<Rightarrow> virtio_vsock_hdr" where
  "sock_hdr vs op flags =
     \<lparr>h_src_cid = ucast (a_cid (s_local_addr vs)), h_dst_cid = ucast (a_cid (s_peer_addr vs)),
      h_src_port = a_port (s_local_addr vs), h_dst_port = a_port (s_peer_addr vs),
      h_len = 0, h_type = v_type vs, h_op = op, h_flags = flags,
      h_buf_alloc = of_nat (uk_vsock_buffer_capacity (s_rx vs)),
      h_fwd_cnt = ucast (uk_vsock_total_processed (s_rx vs))\<rparr>"

definition virtio_vsock_connect :: "nat \<Rightarrow> vsock_world \<Rightarrow> (int \<times> vsock_world) option" where
  "virtio_vsock_connect sid w = do {
     vs \<leftarrow> sock_get sid w;
     (rc, w) \<leftarrow> xmit_ctrl (sock_hdr vs VIRTIO_VSOCK_OP_REQUEST 0) w;
     if rc \<noteq> 0 then Some (rc, w) else Some (- EINPROGRESS, w)
   }"

definition virtio_vsock_shutdown :: "nat \<Rightarrow> bool \<Rightarrow> bool \<Rightarrow> vsock_world \<Rightarrow> (int \<times> vsock_world) option" where
  "virtio_vsock_shutdown sid rx tx w = do {
     vs \<leftarrow> sock_get sid w;
     xmit_ctrl (sock_hdr vs VIRTIO_VSOCK_OP_SHUTDOWN
       ((if tx then VIRTIO_VSOCK_SHUTDOWN_F_SEND else 0) OR
        (if rx then VIRTIO_VSOCK_SHUTDOWN_F_RECEIVE else 0))) w
   }"

definition virtio_vsock_reset :: "nat \<Rightarrow> vsock_world \<Rightarrow> (int \<times> vsock_world) option" where
  "virtio_vsock_reset sid w = do {
     vs \<leftarrow> sock_get sid w;
     xmit_ctrl (sock_hdr vs VIRTIO_VSOCK_OP_RST 0) w
   }"

definition virtio_vsock_destroy :: "nat \<Rightarrow> vsock_world \<Rightarrow> (int \<times> vsock_world) option" where
  "virtio_vsock_destroy sid w = Some (0, w\<lparr>w_socks := (w_socks w)(sid := None)\<rparr>)"

definition virtio_vsockdev_ops :: uk_vsockdev_ops where
  "virtio_vsockdev_ops =
     \<lparr>op_get_cid = virtio_vsockdev_get_cid,
      op_create = virtio_vsock_create,
      op_accept = virtio_vsock_accept,
      op_free_accept_entry = virtio_vsock_free_accept_entry,
      op_send = virtio_vsock_send,
      op_connect = virtio_vsock_connect,
      op_shutdown = virtio_vsock_shutdown,
      op_reset = virtio_vsock_reset,
      op_destroy = virtio_vsock_destroy,
      op_send_credit_update = virtio_vsock_send_credit_update\<rparr>"

section \<open>What transmission leaves as it is\<close>

text \<open>Sending packets changes the transmit queue, the allocator, the number of packets and the time.\<close>

definition tx_frame :: "vsock_world \<Rightarrow> vsock_world \<Rightarrow> bool" where
  "tx_frame w w' \<longleftrightarrow> (\<exists>q a l t. w' = w\<lparr>w_dev := (w_dev w)\<lparr>d_tx := q\<rparr>, w_alloc := a,
     w_live_netbufs := l, w_time := t\<rparr>)"

lemma tx_frameI:
  "w' = w\<lparr>w_dev := (w_dev w)\<lparr>d_tx := q\<rparr>, w_alloc := a, w_live_netbufs := l, w_time := t\<rparr> \<Longrightarrow> tx_frame w w'"
  unfolding tx_frame_def by blast

lemma tx_frame_refl: "tx_frame w w"
  and tx_frame_put1: "tx_frame w (put_tx q w)"
  and tx_frame_alloc1: "tx_frame w (w\<lparr>w_alloc := a\<rparr>)"
  and tx_frame_live1: "tx_frame w (w\<lparr>w_live_netbufs := l\<rparr>)"
  and tx_frame_time1: "tx_frame w (w\<lparr>w_time := t\<rparr>)"
  by (rule tx_frameI [of _ "w_time w" "w_live_netbufs w" "w_alloc w" "d_tx (w_dev w)"], simp)
    (rule tx_frameI [of _ "w_time w" "w_live_netbufs w" "w_alloc w" q], simp add: put_tx_def,
     rule tx_frameI [of _ "w_time w" "w_live_netbufs w" a "d_tx (w_dev w)"], simp,
     rule tx_frameI [of _ "w_time w" l "w_alloc w" "d_tx (w_dev w)"], simp,
     rule tx_frameI [of _ t "w_live_netbufs w" "w_alloc w" "d_tx (w_dev w)"], simp)

lemma tx_frame_trans [trans]: "tx_frame w1 w2 \<Longrightarrow> tx_frame w2 w3 \<Longrightarrow> tx_frame w1 w3"
  unfolding tx_frame_def by clarsimp blast

lemmas tx_frame_put [frame] = tx_frame_refl tx_frame_trans [OF _ tx_frame_put1] tx_frame_trans [OF _ tx_frame_alloc1]
  tx_frame_trans [OF _ tx_frame_live1] tx_frame_trans [OF _ tx_frame_time1]

lemma tx_frame_fields:
  assumes "tx_frame w w'"
  shows "w_socks w' = w_socks w" "w_next_sock w' = w_next_sock w" "d_cid (w_dev w') = d_cid (w_dev w)"
    "core w' = core w"
  using assms by (auto simp: tx_frame_def core_def)

lemma yield_frame: "tx_frame w (uk_sched_yield w)"
  by (simp add: uk_sched_yield_def Let_def frame)

lemma netbuf_alloc_frame: "drv_netbuf_alloc n h w = Some (pkt, w') \<Longrightarrow> tx_frame w w'"
  by (auto simp: drv_netbuf_alloc_def returns frame)

lemma netbuf_free_frame: "drv_netbuf_free pkt w = Some w' \<Longrightarrow> tx_frame w w'"
  by (auto simp: drv_netbuf_free_def returns frame)

lemma xmit_free_frame: "virtio_vsockdev_xmit_free w = Some w' \<Longrightarrow> tx_frame w w'"
  by (auto simp: virtio_vsockdev_xmit_free_def Let_def returns frame)

lemma xmit_frame:
  assumes "virtio_vsockdev_xmit pkt w = Some (rc, w')"
  shows "tx_frame w w'"
proof -
  obtain w1 where w1: "virtio_vsockdev_xmit_free w = Some w1"
    using assms by (auto simp: virtio_vsockdev_xmit_def returns)
  then have "\<exists>q. w' = put_tx q w1"
    using assms by (auto simp: virtio_vsockdev_xmit_def returns Let_def split: if_splits)
  with xmit_free_frame [OF w1] show ?thesis by (auto simp: frame)
qed

lemma xmit_retry_frame:
  assumes "virtio_vsockdev_xmit_retry pkt w = Some r"
  shows "tx_frame w (snd r)"
  using _ assms
proof (rule virtio_vsockdev_xmit_retry.raw_induct [where P = "\<lambda>pkt w r. tx_frame w (snd r)"])
  fix retry pkt w r
  assume IH: "\<And>pkt w r. retry pkt w = Some r \<Longrightarrow> tx_frame w (snd r)"
    and run: "virtio_vsockdev_xmit pkt w \<bind>
      (\<lambda>r. if fst r = - EAGAIN then retry pkt (uk_sched_yield (snd r)) else Some r) = Some r"
  then obtain rc w1 where x: "virtio_vsockdev_xmit pkt w = Some (rc, w1)" by (auto simp: returns)
  note f = xmit_frame [OF x]
  show "tx_frame w (snd r)"
  proof (cases "rc = - EAGAIN")
    case True
    then have "retry pkt (uk_sched_yield w1) = Some r" using run x by simp
    from f yield_frame IH [OF this] show ?thesis by (rule tx_frame_trans [OF tx_frame_trans])
  next
    case False
    with f run x show ?thesis by auto
  qed
qed

lemma xmit_ctrl_frame:
  assumes "xmit_ctrl hdr w = Some (rc, w')"
  shows "tx_frame w w'"
proof -
  obtain pkt w1 where a: "drv_netbuf_alloc sizeof_hdr 0 w = Some (pkt, w1)"
    using assms by (auto simp: xmit_ctrl_def returns)
  note f = netbuf_alloc_frame [OF a]
  show ?thesis
  proof (cases pkt)
    case None
    with a f assms show ?thesis by (simp add: xmit_ctrl_def)
  next
    case (Some p)
    with a assms obtain p' rc' w2 where "virtio_vsockdev_xmit_retry p' w1 = Some (rc', w2)"
      "if rc' \<noteq> 0 then drv_netbuf_free p' w2 = Some w' else w' = w2"
      by (auto simp: xmit_ctrl_def returns split: if_splits)
    with xmit_retry_frame [of p' w1] netbuf_free_frame [of p' w2 w'] have "tx_frame w1 w'"
      by (force split: if_splits intro: tx_frame_trans)
    with f show ?thesis by (rule tx_frame_trans)
  qed
qed

lemma reject_frame: "virtio_vsockdev_reject_conn sid acc w = Some w' \<Longrightarrow> tx_frame w w'"
  by (auto simp: virtio_vsockdev_reject_conn_def returns intro: xmit_ctrl_frame)

lemma credit_request_frame: "virtio_vsock_work_credit_request sid w = Some (rc, w') \<Longrightarrow> tx_frame w w'"
  by (auto simp: virtio_vsock_work_credit_request_def returns intro: xmit_ctrl_frame)

section \<open>The driver fulfils its contract\<close>

lemma sock_init_fresh:
  assumes "uk_vsock_init a ty = (rc, out, a')"
  shows "case out of None \<Rightarrow> rc \<noteq> 0
    | Some s \<Rightarrow> rc = 0 \<and> fresh_sock ty (uk_vsock.extend s x) \<and>
        fresh_sock ty ((uk_vsock.extend s x)\<lparr>s_peer_addr := p, s_local_addr := l\<rparr>)"
proof -
  obtain rc' b a'' where b: "uk_vsock_buffer_init a 4096 = (rc', b, a'')" by (cases "uk_vsock_buffer_init a 4096") auto
  from uk_vsock_buffer_init_wf [OF b] assms b show ?thesis
    by (cases b) (auto simp: uk_vsock_init_def fresh_sock_def uk_vsock.extend_def)
qed

lemma core_tx_count:
  assumes "w_socks w sid = Some s"
  shows "core (sock_put sid (s\<lparr>v_tx_count := n\<rparr>) w) = core w"
proof -
  have "map_option uk_vsock.truncate (w_socks (sock_put sid (s\<lparr>v_tx_count := n\<rparr>) w) x) =
      map_option uk_vsock.truncate (w_socks w x)" for x
    using assms by (simp add: uk_vsock.truncate_def)
  then show ?thesis by (simp add: core_def)
qed

lemma send_frame:
  assumes "virtio_vsock_send sid buf w = Some (n, w')"
  shows "tx_frame w w' \<or> (\<exists>s k w1. n = int k \<and> k \<le> unat (virtio_vsock_peer_rx_free s) \<and> tx_frame w w1 \<and> w_socks w sid = Some s
    \<and> w' = sock_put sid (s\<lparr>v_tx_count := v_tx_count s + of_nat k\<rparr>) w1)"
proof (cases "length buf = 0")
  case True
  with assms show ?thesis by (simp add: virtio_vsock_send_def frame)
next
  case False
  then obtain vs where vs: "w_socks w sid = Some vs"
    using assms by (auto simp: virtio_vsock_send_def returns)
  obtain len where len_eq: "min (unat (virtio_vsock_peer_rx_free vs)) (length buf) = len" by blast
  show ?thesis
  proof (cases "len = 0")
    case True
    with assms vs \<open>length buf \<noteq> 0\<close> show ?thesis by (simp add: virtio_vsock_send_def sock_get_def Let_def frame len_eq)
  next
    case len: False
    then obtain pkt w1 where a: "drv_netbuf_alloc (len + sizeof_hdr) sizeof_hdr w = Some (pkt, w1)"
      using assms vs False by (auto simp: virtio_vsock_send_def returns Let_def len_eq split: if_splits)
    note f = netbuf_alloc_frame [OF a]
    show ?thesis
    proof (cases pkt)
      case None
      with a f len assms vs False show ?thesis
        by (simp add: virtio_vsock_send_def sock_get_def Let_def len_eq)
    next
      case (Some p)
      then obtain p' rc w2 where x: "virtio_vsockdev_xmit p' w1 = Some (rc, w2)"
        "if rc \<noteq> 0 then n = rc \<and> drv_netbuf_free p' w2 = Some w'
         else n = int len \<and> sock_upd sid (\<lambda>s. s\<lparr>v_tx_count := v_tx_count s + of_nat len\<rparr>) w2 = Some w'"
        using a len assms vs False
        by (auto simp: virtio_vsock_send_def sock_get_def Let_def len_eq bind_eq_Some_conv case_prod_beta split: if_splits)
      note f2 = tx_frame_trans [OF f xmit_frame [OF x(1)]]
      show ?thesis
      proof (cases "rc = 0")
        case True
        have "w_socks w2 sid = Some vs" using tx_frame_fields(1) [OF f2] vs by simp
        moreover have "len \<le> unat (virtio_vsock_peer_rx_free vs)" using len_eq by simp
        ultimately show ?thesis using True x(2) f2 vs by (auto simp: sock_upd_eq_Some)
      next
        case False
        with x(2) f2 netbuf_free_frame show ?thesis by (auto intro: tx_frame_trans)
      qed
    qed
  qed
qed

lemma send_core:
  assumes "virtio_vsock_send sid buf w = Some (n, w')"
  shows "core w' = core w"
  using send_frame [OF assms]
proof (elim disjE exE conjE)
  assume "tx_frame w w'"
  then show ?thesis by (rule tx_frame_fields)
next
  fix s k w1 assume a: "tx_frame w w1" "w_socks w sid = Some s"
    "w' = sock_put sid (s\<lparr>v_tx_count := v_tx_count s + of_nat k\<rparr>) w1"
  then have "w_socks w1 sid = Some s" by (simp add: tx_frame_fields)
  from core_tx_count [OF this] tx_frame_fields(4) [OF a(1)] a(3) show ?thesis by simp
qed

lemma core_add:
  assumes "core w1 = core w"
  shows "core ((sock_put (w_next_sock w1) s w1)\<lparr>w_next_sock := Suc (w_next_sock w1)\<rparr>) = core (add_sock s w)"
proof -
  have "core (sock_put (w_next_sock w) s w1) = core (sock_put (w_next_sock w) s w)"
    using assms by (intro core_put) simp_all
  then show ?thesis using core_fields(6) [OF assms] by (simp add: add_sock_def core_def)
qed

lemma create_contract:
  assumes "virtio_vsock_create ty pr w = Some (rc, out, w')"
  shows "if rc = 0 then (\<exists>s. out = Some (w_next_sock w) \<and> fresh_sock ty s \<and> core w' = core (add_sock s w))
    else core w' = core w"
proof -
  obtain m a1 where m: "uk_malloc (w_alloc w) sizeof_virtio_vsock = (m, a1)" by fastforce
  obtain rc2 s a2 where i: "uk_vsock_init a1 ty = (rc2, s, a2)" by (cases "uk_vsock_init a1 ty") auto
  have core: "core (w\<lparr>w_alloc := a\<rparr>) = core w" for a by (simp add: core_def)
  show ?thesis
  proof (cases "pr \<noteq> 0 \<or> (ty \<noteq> SOCK_STREAM \<and> ty \<noteq> SOCK_SEQPACKET) \<or> m = None \<or> s = None")
    case True
    with assms m i sock_init_fresh [OF i] show ?thesis
      by (auto simp: virtio_vsock_create_def Let_def core split: if_splits option.splits)
  next
    case False
    then obtain chunk s' where c: "m = Some chunk" and s': "s = Some s'" by (cases m; cases s) auto
    define x where "x = \<lparr>v_type = (if ty = SOCK_STREAM then VIRTIO_VSOCK_TYPE_STREAM else VIRTIO_VSOCK_TYPE_SEQPACKET),
      v_peer_buf_alloc = 0, v_peer_fwd_count = 0, v_tx_count = 0\<rparr>"
    have "rc = 0 \<and> out = Some (w_next_sock w) \<and> w' = (sock_put (w_next_sock w) (uk_vsock.extend s' x)
        (w\<lparr>w_alloc := a2\<rparr>))\<lparr>w_next_sock := Suc (w_next_sock w)\<rparr>"
      using False assms m i c s' unfolding x_def by (auto simp: virtio_vsock_create_def Let_def)
    moreover have "fresh_sock ty (uk_vsock.extend s' x)" using sock_init_fresh [OF i] s' by simp
    ultimately show ?thesis
      using core_add [of "w\<lparr>w_alloc := a2\<rparr>" w "uk_vsock.extend s' x", OF core] by (simp, blast)
  qed
qed

lemma accept_contract:
  assumes "virtio_vsock_accept sid e w = Some (rc, out, w')" and l: "w_socks w sid = Some l"
  shows "if rc = 0 then (\<exists>s. out = Some (w_next_sock w) \<and> fresh_sock (s_sock_type l) s
      \<and> s_local_addr s = \<lparr>a_cid = d_cid (w_dev w), a_port = a_port (s_local_addr l)\<rparr>
      \<and> s_peer_addr s = ae_peer e \<and> core w' = core (add_sock s w))
    else core w' = core w"
proof -
  obtain m a1 where m: "uk_malloc (w_alloc w) sizeof_virtio_vsock = (m, a1)" by fastforce
  obtain rc2 so a2 where i: "uk_vsock_init a1 (s_sock_type l) = (rc2, so, a2)"
    by (cases "uk_vsock_init a1 (s_sock_type l)") auto
  have core: "core (w\<lparr>w_alloc := a\<rparr>) = core w" for a by (simp add: core_def)
  consider "m = None" | chunk where "m = Some chunk" "so = None" | chunk s where "m = Some chunk" "so = Some s"
    by blast
  then show ?thesis
  proof cases
    case 1
    with assms m have "virtio_vsockdev_reject_conn sid e (w\<lparr>w_alloc := a1\<rparr>) = Some w'" "rc \<noteq> 0"
      by (auto simp: virtio_vsock_accept_def sock_get_def returns)
    with reject_frame [THEN tx_frame_fields(4)] core show ?thesis by simp
  next
    case 2
    with assms m i have "virtio_vsockdev_reject_conn sid e (w\<lparr>w_alloc := a2\<rparr>) = Some w'" "rc = rc2"
      by (auto simp: virtio_vsock_accept_def sock_get_def returns)
    with reject_frame [THEN tx_frame_fields(4)] core sock_init_fresh [OF i] 2 show ?thesis by simp
  next
    case 3
    define vs where "vs = (uk_vsock.extend s \<lparr>v_type = v_type l, v_peer_buf_alloc = ae_peer_buf_alloc e,
        v_peer_fwd_count = ae_peer_fwd_count e, v_tx_count = 0\<rparr>)
      \<lparr>s_peer_addr := ae_peer e, s_local_addr := \<lparr>a_cid = d_cid (w_dev w), a_port = a_port (s_local_addr l)\<rparr>\<rparr>"
    obtain w2 where w2: "virtio_vsock_conn_respond vs (w\<lparr>w_alloc := a2\<rparr>) = Some (rc, w2)"
      "if rc = 0 then out = Some (w_next_sock w2)
         \<and> w' = (sock_put (w_next_sock w2) vs w2)\<lparr>w_next_sock := Suc (w_next_sock w2)\<rparr> else w' = w2"
      using assms m i 3 unfolding vs_def
      by (auto simp: virtio_vsock_accept_def sock_get_def returns Let_def split: if_splits)
    have c2: "core w2 = core w"
      using w2(1) xmit_ctrl_frame [THEN tx_frame_fields(4)] core by (simp add: virtio_vsock_conn_respond_def)
    have "fresh_sock (s_sock_type l) vs" using sock_init_fresh [OF i] 3 by (simp add: vs_def)
    moreover have "s_local_addr vs = \<lparr>a_cid = d_cid (w_dev w), a_port = a_port (s_local_addr l)\<rparr>"
      "s_peer_addr vs = ae_peer e" by (simp_all add: vs_def)
    ultimately show ?thesis
      using w2(2) c2 core_add [OF c2, of vs] core_fields(6) [OF c2] by (auto split: if_splits)
  qed
qed

lemma ctrl_core:
  "virtio_vsock_reset sid w = Some (rc, w') \<Longrightarrow> core w' = core w"
  "virtio_vsock_shutdown sid rx tx w = Some (rc, w') \<Longrightarrow> core w' = core w"
  "virtio_vsock_connect sid w = Some (rc, w') \<Longrightarrow> core w' = core w"
  "virtio_vsock_send_credit_update sid w = Some (rc, w') \<Longrightarrow> core w' = core w"
  using xmit_ctrl_frame [THEN tx_frame_fields(4)]
  by (auto simp: virtio_vsock_reset_def virtio_vsock_shutdown_def virtio_vsock_connect_def
      virtio_vsock_send_credit_update_def virtio_vsock_work_credit_request_def returns Let_def split: if_splits)

interpretation virtio: vsock_driver virtio_vsockdev_ops
proof (unfold_locales, unfold virtio_vsockdev_ops_def uk_vsockdev_ops.select_convs)
  show "virtio_vsockdev_get_cid w = d_cid (w_dev w)" for w by (simp add: virtio_vsockdev_get_cid_def)
  show "core (virtio_vsock_free_accept_entry sid e w) = core w" for sid e w
    by (simp add: virtio_vsock_free_accept_entry_def)
  show "virtio_vsock_destroy sid w = Some (rc, w') \<Longrightarrow> core w' = core (del_sock sid w)" for sid w rc w'
    by (simp add: virtio_vsock_destroy_def del_sock_def)
qed (rule ctrl_core send_core create_contract accept_contract; assumption)+

end
