(* ===== verification/Virtio_Tx.thy ===== *)
theory Virtio_Tx
  imports Virtio_Vsock
begin

text \<open>
  The transmit queue of the driver (\<open>virtio_vsockdev_xmit_free\<close>, \<open>virtio_vsockdev_xmit\<close> and
  \<open>virtio_vsockdev_xmit_retry\<close> of \<open>virtio_vsock.c\<close>): the invariant of the queue with its packets in
  flight, what reclaiming and one attempt to send do, and that the retry loop ends with a device that
  serves its queue.
\<close>

section \<open>The transmit queue\<close>

definition tx_queue_ok :: "nat list \<Rightarrow> (uk_netbuf \<times> nat list) list \<Rightarrow> uk_netbuf virtio_vsockdev_queue \<Rightarrow> bool" where
  "tx_queue_ok free inflight q \<longleftrightarrow> vq_inv free inflight (q_vq q) \<and> (\<forall>(p, is)\<in>set inflight. nb_refcount p = 1)
     \<and> wf_sglist (q_sg q) \<and> VSOCK_MAX_FRAGMENTS \<le> sg_maxseg (q_sg q)"

lemma netbuf_free_last [simp]: "nb_refcount p = 1 \<Longrightarrow> uk_netbuf_free_single p = Some None"
  by (simp add: uk_netbuf_free_single_def)

lemma dequeue_empty:
  assumes "\<not> virtqueue_hasdata vq"
  shows "virtqueue_buffer_dequeue vq = Some (- ENOMSG, None, 0, vq)"
  using assms by (simp add: virtqueue_buffer_dequeue_def)

lemma hasdata_pending: "virtqueue_hasdata vq \<longleftrightarrow> pending vq \<noteq> []"
  by (auto simp: virtqueue_hasdata_def pending_def unat_eq_0)

text \<open>Reclaiming takes back exactly the packets that the device has completed.\<close>

lemma xmit_free_loop_spec:
  assumes "vq_inv free inflight vq" and "\<forall>(p, is)\<in>set inflight. nb_refcount p = 1"
  shows "\<exists>free' inflight' vq' k. xmit_free_loop vq live = Some (vq', live - k) \<and> vq_inv free' inflight' vq'
    \<and> pending vq' = [] \<and> set inflight' \<subseteq> set inflight \<and> length inflight = length inflight' + k
    \<and> k = length (pending vq) \<and> vr_num vq' = vr_num vq"
  using assms
proof (induction "length (pending vq)" arbitrary: free inflight vq live)
  case 0
  then have "\<not> virtqueue_hasdata vq" by (simp add: hasdata_pending)
  then show ?case using 0 dequeue_empty [of vq]
    by (intro exI [of _ free] exI [of _ inflight] exI [of _ vq] exI [of _ 0])
      (simp add: xmit_free_loop.simps)
next
  case (Suc n)
  then have data: "virtqueue_hasdata vq" by (auto simp: hasdata_pending)
  obtain c "is" pre post h len where d: "inflight = pre @ (c, is) # post" "unat h = hd is" "hd (pending vq) = hd is"
    "virtqueue_buffer_dequeue vq =
           Some (int (vr_num vq) - int (length free + length is), Some c, len, dequeued vq h is)"
    by (rule dequeue_run [OF Suc.prems(1) data])
  have inv: "vq_inv (is @ free) (pre @ post) (dequeued vq h is)"
    using dequeue_inv [OF Suc.prems(1) [unfolded d(1)] data d(2,3)] .
  have pend: "pending vq = hd is # pending (dequeued vq h is)"
    using pending_Cons [OF vq_invD(1) [OF Suc.prems(1)] data] d(3) by (simp add: pending_def dequeued_def)
  have rc: "\<not> int (vr_num vq) - int (length free + length is) < 0"
    using vq_invD(3) [OF Suc.prems(1)] d(1) by simp
  have ref: "\<forall>(p, is)\<in>set (pre @ post). nb_refcount p = 1" "nb_refcount c = 1" using Suc.prems(2) d(1) by auto
  have n: "n = length (pending (dequeued vq h is))" using Suc.hyps(2) pend by simp
  have step: "xmit_free_loop vq live = xmit_free_loop (dequeued vq h is) (live - 1)"
    using d(4) rc ref(2) by (subst xmit_free_loop.simps) simp
  from Suc.hyps(1) [OF n inv ref(1), of "live - 1"] obtain free' inflight' vq' k where
    "xmit_free_loop (dequeued vq h is) (live - 1) = Some (vq', live - 1 - k)" "vq_inv free' inflight' vq'"
    "pending vq' = []" "set inflight' \<subseteq> set (pre @ post)" "length (pre @ post) = length inflight' + k"
    "k = length (pending (dequeued vq h is))" "vr_num vq' = vr_num (dequeued vq h is)" by blast
  then show ?case using step d(1) pend
    by (intro exI [of _ free'] exI [of _ inflight'] exI [of _ vq'] exI [of _ "Suc k"])
      (auto simp: dequeued_def)
qed

text \<open>The physical addresses of the bytes that are sent.\<close>

lemma netbuf_segments:
  assumes "page_linear v2p" and "wf_sglist sg" and "VSOCK_MAX_FRAGMENTS \<le> sg_maxseg sg"
  obtains sg' where "uk_sglist_append v2p (uk_sglist_reset sg) vaddr (unat (len :: u16)) = Some (0, sg')"
    and "wf_sglist sg'" and "sg_maxseg sg' = sg_maxseg sg"
    and "sg_bytes sg' = map v2p [vaddr..<vaddr + unat len]"
    and "sg_nseg sg' \<le> VSOCK_MAX_FRAGMENTS"
    and "sg_nseg sg' = uk_sglist_count v2p vaddr (unat len)"
proof -
  let ?sg = "uk_sglist_reset sg"
  have wf: "wf_sglist ?sg" "0 < sg_maxseg ?sg" "sg_nseg ?sg = 0" "sg_bytes ?sg = []" "sg_maxseg ?sg = sg_maxseg sg"
    using assms(2,3) by (auto simp: uk_sglist_reset_def wf_sglist_def sg_bytes_def VSOCK_MAX_FRAGMENTS_def)
  obtain m rc sg' where r: "uk_sglist_append v2p ?sg vaddr (unat len) = Some (rc, sg')"
    "wf_sglist sg'" "extends ?sg sg'" "m \<le> sg_nseg ?sg + uk_sglist_count v2p vaddr (unat len)"
    "sg_nseg ?sg = 0 \<Longrightarrow> m = uk_sglist_count v2p vaddr (unat len)"
    "if m \<le> sg_maxseg ?sg
         then rc = 0 \<and> sg_nseg sg' = m \<and> sg_bytes sg' = sg_bytes ?sg @ map v2p [vaddr..<vaddr + unat len]
         else rc = - EFBIG \<and> sg_nseg sg' = sg_nseg ?sg \<and> sg_bytes sg' = sg_bytes ?sg"
    by (rule uk_sglist_append_spec [OF assms(1) wf(1,2)]) (rule that)
  have "unat len \<le> 65535" using unat_less_exp [of len] by simp
  then have "m \<le> 17"
    using r(4) wf(3) sglist_count_pages_spanned [of v2p vaddr "unat len"] pages_spanned_netbuf [of "unat len" vaddr]
    by simp
  then have m: "m \<le> VSOCK_MAX_FRAGMENTS" by (simp add: VSOCK_MAX_FRAGMENTS_def PAGE_SIZE_def)
  with r wf assms(3) show thesis by (intro that [of sg']) (auto simp: extends_def)
qed


section \<open>Transmission\<close>

abbreviation tx_queue :: "vsock_world \<Rightarrow> uk_netbuf virtio_vsockdev_queue" where
  "tx_queue w \<equiv> d_tx (w_dev w)"

lemma tx_queue_put [simp]: "tx_queue (put_tx q w) = q"
  by (simp add: put_tx_def)

lemma put_tx_fields [simp]: "w_v2p (put_tx q w) = w_v2p w" "w_host (put_tx q w) = w_host w"
  "w_time (put_tx q w) = w_time w" "w_live_netbufs (put_tx q w) = w_live_netbufs w" "w_alloc (put_tx q w) = w_alloc w"
  by (simp_all add: put_tx_def)

lemma xmit_free_spec:
  assumes "tx_queue_ok free inflight (tx_queue w)"
  obtains free' inflight' vq' where
    "virtio_vsockdev_xmit_free w = Some ((put_tx ((tx_queue w)\<lparr>q_vq := vq'\<rparr>) w)
       \<lparr>w_live_netbufs := w_live_netbufs w - length (pending (q_vq (tx_queue w)))\<rparr>)"
    and "tx_queue_ok free' inflight' ((tx_queue w)\<lparr>q_vq := vq'\<rparr>)" and "pending vq' = []"
    and "set inflight' \<subseteq> set inflight" and "length inflight = length inflight' + length (pending (q_vq (tx_queue w)))"
    and "vr_num vq' = vr_num (q_vq (tx_queue w))"
proof -
  let ?q = "tx_queue w"
  have i: "vq_inv free inflight (q_vq ?q)" "\<forall>(p, is)\<in>set inflight. nb_refcount p = 1"
    using assms by (simp_all add: tx_queue_ok_def)
  obtain free' inflight' vq' k where r: "xmit_free_loop (q_vq ?q) (w_live_netbufs w) = Some (vq', w_live_netbufs w - k)"
    "vq_inv free' inflight' vq'" "pending vq' = []" "set inflight' \<subseteq> set inflight"
    "length inflight = length inflight' + k" "k = length (pending (q_vq ?q))" "vr_num vq' = vr_num (q_vq ?q)"
    using xmit_free_loop_spec [OF i, of "w_live_netbufs w"] by blast
  have "tx_queue_ok free' inflight' (?q\<lparr>q_vq := vq'\<rparr>)"
    using assms r(2,4) by (auto simp: tx_queue_ok_def)
  then show thesis using r by (intro that [of vq' free' inflight']) (simp_all add: virtio_vsockdev_xmit_free_def Let_def)
qed

lemma host_notify_inv [simp]:
  "vq_inv free inflight (snd (virtqueue_host_notify vq)) = vq_inv free inflight vq"
  "pending (snd (virtqueue_host_notify vq)) = pending vq" "vr_num (snd (virtqueue_host_notify vq)) = vr_num vq"
  "vr_desc (snd (virtqueue_host_notify vq)) = vr_desc vq"
  by (simp_all add: virtqueue_host_notify_def vq_inv_def vq_shape_def pending_def)

lemma count_pos: "0 < len \<Longrightarrow> 1 \<le> uk_sglist_count v2p vaddr len"
  using count_pages_mono [of 1] by (simp add: uk_sglist_count_def Let_def)

text \<open>An attempt to send reclaims what is complete and offers the packet to the queue.\<close>

lemma xmit_run:
  fixes pkt :: uk_netbuf and w :: vsock_world
  assumes ok: "tx_queue_ok free inflight (tx_queue w)" and lin: "page_linear (w_v2p w)"
  defines "vaddr \<equiv> nb_base pkt + nb_data pkt"
  defines "n \<equiv> uk_sglist_count (w_v2p w) vaddr (unat (nb_len pkt))"
  obtains free' inflight' vq' sg q w1 where
    "virtio_vsockdev_xmit pkt w = (case virtqueue_buffer_enqueue vq' pkt sg n 0 of None \<Rightarrow> None
     | Some (rc, vq) \<Rightarrow> if rc \<ge> 0 then Some (0, put_tx (q\<lparr>q_vq := snd (virtqueue_host_notify vq)\<rparr>) w1)
       else if rc = - ENOSPC then Some (- EAGAIN, put_tx (q\<lparr>q_vq := vq\<rparr>) w1)
       else Some (rc, put_tx (q\<lparr>q_vq := vq\<rparr>) w1))"
    and "tx_queue_ok free' inflight' (q\<lparr>q_vq := vq'\<rparr>)" and "q_sg q = sg" and "sg_nseg sg = n"
    and "sg_bytes sg = map (w_v2p w) [vaddr..<vaddr + unat (nb_len pkt)]"
    and "set inflight' \<subseteq> set inflight" and "length inflight = length inflight' + length (pending (q_vq (tx_queue w)))"
    and "w_live_netbufs w1 = w_live_netbufs w - length (pending (q_vq (tx_queue w)))"
    and "vr_num vq' = vr_num (q_vq (tx_queue w))"
proof -
  let ?q = "tx_queue w" and ?k = "length (pending (q_vq (tx_queue w)))"
  obtain free' inflight' vq' where f: "virtio_vsockdev_xmit_free w = Some ((put_tx (?q\<lparr>q_vq := vq'\<rparr>) w)
       \<lparr>w_live_netbufs := w_live_netbufs w - ?k\<rparr>)"
    "tx_queue_ok free' inflight' (?q\<lparr>q_vq := vq'\<rparr>)" "pending vq' = []"
    "set inflight' \<subseteq> set inflight" "length inflight = length inflight' + ?k" "vr_num vq' = vr_num (q_vq ?q)"
    by (rule xmit_free_spec [OF ok]) (rule that)
  let ?w = "(put_tx (?q\<lparr>q_vq := vq'\<rparr>) w)\<lparr>w_live_netbufs := w_live_netbufs w - ?k\<rparr>"
  have sgok: "wf_sglist (q_sg ?q)" "VSOCK_MAX_FRAGMENTS \<le> sg_maxseg (q_sg ?q)" using ok by (simp_all add: tx_queue_ok_def)
  obtain sg where sg: "uk_sglist_append (w_v2p w) (uk_sglist_reset (q_sg ?q)) vaddr (unat (nb_len pkt)) = Some (0, sg)"
    "wf_sglist sg" "sg_maxseg sg = sg_maxseg (q_sg ?q)" "sg_bytes sg = map (w_v2p w) [vaddr..<vaddr + unat (nb_len pkt)]"
    "sg_nseg sg \<le> VSOCK_MAX_FRAGMENTS" "sg_nseg sg = n"
    by (rule netbuf_segments [OF lin sgok, of vaddr "nb_len pkt", folded n_def]) (rule that)
  have run: "virtio_vsockdev_xmit pkt w = (case virtqueue_buffer_enqueue vq' pkt sg n 0 of None \<Rightarrow> None
     | Some (rc, vq) \<Rightarrow> if rc \<ge> 0 then Some (0, put_tx (?q\<lparr>q_sg := sg, q_vq := snd (virtqueue_host_notify vq)\<rparr>) ?w)
       else if rc = - ENOSPC then Some (- EAGAIN, put_tx (?q\<lparr>q_sg := sg, q_vq := vq\<rparr>) ?w)
       else Some (rc, put_tx (?q\<lparr>q_sg := sg, q_vq := vq\<rparr>) ?w))"
    unfolding virtio_vsockdev_xmit_def f(1) using sg(1,6) unfolding vaddr_def
    by (simp add: Let_def put_tx_def split: option.split)
  have ok': "tx_queue_ok free' inflight' (?q\<lparr>q_sg := sg, q_vq := vq'\<rparr>)"
    using f(2) sg(2,3) sgok by (simp add: tx_queue_ok_def)
  show thesis
    by (rule that [where vq' = vq' and q = "?q\<lparr>q_sg := sg\<rparr>" and ?w1.0 = ?w and free' = free' and inflight' = inflight']) (use run ok' sg f in simp_all)
qed

text \<open>
  The outcome of one attempt to send: the packet is in flight and its descriptors cover exactly its
  bytes; or there are too few descriptors for the moment, or in the queue at all.
\<close>

lemma xmit_cases:
  fixes pkt :: uk_netbuf and w :: vsock_world
  assumes ok: "tx_queue_ok free inflight (tx_queue w)" and lin: "page_linear (w_v2p w)"
    and pkt: "nb_refcount pkt = 1" "0 < unat (nb_len pkt)"
  defines "vaddr \<equiv> nb_base pkt + nb_data pkt"
  defines "n \<equiv> uk_sglist_count (w_v2p w) vaddr (unat (nb_len pkt))"
  obtains (sent) w' free' inflight' chain where "virtio_vsockdev_xmit pkt w = Some (0, w')"
      and "tx_queue_ok free' (inflight' @ [(pkt, chain)]) (tx_queue w')"
      and "desc_bytes (vr_desc (q_vq (tx_queue w'))) chain = map (w_v2p w) [vaddr..<vaddr + unat (nb_len pkt)]"
      and "set inflight' \<subseteq> set inflight"
      and "length inflight = length inflight' + length (pending (q_vq (tx_queue w)))"
      and "w_live_netbufs w' = w_live_netbufs w - length (pending (q_vq (tx_queue w)))"
    | (full) w' free' inflight' where "virtio_vsockdev_xmit pkt w = Some (- EAGAIN, w')"
      and "tx_queue_ok free' inflight' (tx_queue w')" and "set inflight' \<subseteq> set inflight" and "inflight' \<noteq> []"
      and "length inflight = length inflight' + length (pending (q_vq (tx_queue w)))"
      and "w_live_netbufs w' = w_live_netbufs w - length (pending (q_vq (tx_queue w)))"
    | (never) w' free' inflight' where "virtio_vsockdev_xmit pkt w = Some (- EINVAL, w')"
      and "tx_queue_ok free' inflight' (tx_queue w')" and "vr_num (q_vq (tx_queue w)) < n"
      and "length inflight = length inflight' + length (pending (q_vq (tx_queue w)))"
      and "w_live_netbufs w' = w_live_netbufs w - length (pending (q_vq (tx_queue w)))"
proof -
  obtain free' inflight' vq' sg q w1 where run:
    "virtio_vsockdev_xmit pkt w = (case virtqueue_buffer_enqueue vq' pkt sg n 0 of None \<Rightarrow> None
     | Some (rc, vq) \<Rightarrow> if rc \<ge> 0 then Some (0, put_tx (q\<lparr>q_vq := snd (virtqueue_host_notify vq)\<rparr>) w1)
       else if rc = - ENOSPC then Some (- EAGAIN, put_tx (q\<lparr>q_vq := vq\<rparr>) w1)
       else Some (rc, put_tx (q\<lparr>q_vq := vq\<rparr>) w1))"
    and q: "tx_queue_ok free' inflight' (q\<lparr>q_vq := vq'\<rparr>)" "q_sg q = sg" and nseg: "sg_nseg sg = n"
    and bytes: "sg_bytes sg = map (w_v2p w) [vaddr..<vaddr + unat (nb_len pkt)]"
    and f: "set inflight' \<subseteq> set inflight" "length inflight = length inflight' + length (pending (q_vq (tx_queue w)))"
      "w_live_netbufs w1 = w_live_netbufs w - length (pending (q_vq (tx_queue w)))"
      "vr_num vq' = vr_num (q_vq (tx_queue w))"
    by (rule xmit_run [OF ok lin, of pkt, folded vaddr_def, folded n_def]) (rule that)
  have inv: "vq_inv free' inflight' vq'" using q(1) by (simp add: tx_queue_ok_def)
  have segs: "n + 0 \<le> length (sg_segs sg)" using q nseg by (simp add: tx_queue_ok_def wf_sglist_def)
  have n1: "1 \<le> n + 0" using count_pos [OF pkt(2)] by (simp add: n_def)
  consider "vr_num vq' < n" | "n \<le> vr_num vq'" "length free' < n" | "n \<le> length free'" by linarith
  then show thesis
  proof cases
    case 1
    then have "virtqueue_buffer_enqueue vq' pkt sg n 0 = Some (- EINVAL, vq')"
      by (simp add: virtqueue_buffer_enqueue_def)
    with run have x: "virtio_vsockdev_xmit pkt w = Some (- EINVAL, put_tx (q\<lparr>q_vq := vq'\<rparr>) w1)" by simp
    show thesis by (rule never [OF x, of free' inflight']) (use 1 f q in simp_all)
  next
    case 2
    then have "virtqueue_buffer_enqueue vq' pkt sg n 0 = Some (- ENOSPC, vq')"
      using vq_invD(4) [OF inv] n1 by (simp add: virtqueue_buffer_enqueue_def)
    with run have x: "virtio_vsockdev_xmit pkt w = Some (- EAGAIN, put_tx (q\<lparr>q_vq := vq'\<rparr>) w1)" by simp
    have "inflight' \<noteq> []" using vq_invD(3) [OF inv] 2 by auto
    then show thesis by (intro full [OF x, of free' inflight']) (use f q in simp_all)
  next
    case 3
    then have n2: "n + 0 \<le> length free'" by simp
    obtain vq2 where e: "virtqueue_buffer_enqueue vq' pkt sg n 0 = Some (int (unat (vq_desc_avail vq2)), vq2)"
      "vq_inv (drop (n + 0) free') (inflight' @ [(pkt, take (n + 0) free')]) vq2"
      "sg_nseg sg = n + 0 \<Longrightarrow> length (sg_bytes sg) < 2 ^ 32 \<Longrightarrow>
           desc_bytes (vr_desc vq2) (take (n + 0) free') = sg_bytes sg"
      by (rule enqueue_success [OF inv n1 n2 segs]) (rule that)
    have "desc_bytes (vr_desc vq2) (take n free') = map (w_v2p w) [vaddr..<vaddr + unat (nb_len pkt)]"
      using e(3) bytes nseg unat_less_exp [of "nb_len pkt"] by simp
    moreover have "tx_queue_ok (drop n free') (inflight' @ [(pkt, take n free')])
        (q\<lparr>q_vq := snd (virtqueue_host_notify vq2)\<rparr>)"
      using e(2) q pkt(1) by (auto simp: tx_queue_ok_def)
    moreover have x: "virtio_vsockdev_xmit pkt w = Some (0, put_tx (q\<lparr>q_vq := snd (virtqueue_host_notify vq2)\<rparr>) w1)"
      using run e(1) by simp
    ultimately show thesis using f by (intro sent [OF x, of "drop n free'" inflight' "take n free'"]) simp_all
  qed
qed

section \<open>Sending with a device that serves its queue\<close>

text \<open>The driver can send; \<open>k\<close> packets are in use elsewhere.\<close>

definition tx_env :: "vsock_world \<Rightarrow> bool" where
  "tx_env w \<longleftrightarrow> alloc_ok (w_alloc w) \<and> page_linear (w_v2p w) \<and> device_serves (w_host w)"

definition tx_good :: "nat \<Rightarrow> vsock_world \<Rightarrow> bool" where
  "tx_good k w \<longleftrightarrow> tx_env w \<and> (\<exists>free inflight. tx_queue_ok free inflight (tx_queue w)
     \<and> w_live_netbufs w = length inflight + k)"

text \<open>A packet was handed to the device, which finds exactly its bytes.\<close>

definition tx_sent :: "nat \<Rightarrow> uk_netbuf \<Rightarrow> vsock_world \<Rightarrow> bool" where
  "tx_sent k pkt w \<longleftrightarrow> tx_env w \<and> (\<exists>free inflight chain. tx_queue_ok free (inflight @ [(pkt, chain)]) (tx_queue w)
     \<and> w_live_netbufs w = length inflight + 1 + k
     \<and> desc_bytes (vr_desc (q_vq (tx_queue w))) chain = nb_phys (w_v2p w) pkt)"

lemma tx_sent_good: "tx_sent k pkt w \<Longrightarrow> tx_good k w"
  unfolding tx_sent_def tx_good_def by (elim conjE exE, intro conjI exI, assumption, assumption) simp

lemma tx_frame_env:
  assumes "tx_frame w w'" and "alloc_ok (w_alloc w')" and "tx_env w"
  shows "tx_env w'" and "w_v2p w' = w_v2p w"
proof -
  obtain q a l t where "w' = w\<lparr>w_dev := (w_dev w)\<lparr>d_tx := q\<rparr>, w_alloc := a, w_live_netbufs := l, w_time := t\<rparr>"
    using assms(1) unfolding tx_frame_def by blast
  then show "tx_env w'" and "w_v2p w' = w_v2p w" using assms(2,3) by (simp_all add: tx_env_def)
qed

lemma xmit_alloc:
  assumes "virtio_vsockdev_xmit pkt w = Some (rc, w')"
  shows "w_alloc w' = w_alloc w"
proof -
  obtain w1 where w1: "virtio_vsockdev_xmit_free w = Some w1"
    using assms by (auto simp: virtio_vsockdev_xmit_def returns)
  then have "\<exists>q. w' = put_tx q w1"
    using assms by (auto simp: virtio_vsockdev_xmit_def returns Let_def split: if_splits)
  moreover have "w_alloc w1 = w_alloc w"
    using w1 by (auto simp: virtio_vsockdev_xmit_free_def returns Let_def put_tx_def)
  ultimately show ?thesis by (auto simp: put_tx_def)
qed

lemma xmit_live:
  assumes env: "tx_env w" and ok: "tx_queue_ok free inflight (tx_queue w)"
    and live: "w_live_netbufs w = length inflight + Suc k"
    and pkt: "nb_refcount pkt = 1" "0 < unat (nb_len pkt)"
  obtains (sent) w' where "virtio_vsockdev_xmit pkt w = Some (0, w')" and "tx_sent k pkt w'"
    | (full) w' free' inflight' where "virtio_vsockdev_xmit pkt w = Some (- EAGAIN, w')" and "tx_env w'"
      and "tx_queue_ok free' inflight' (tx_queue w')" and "w_live_netbufs w' = length inflight' + Suc k"
      and "inflight' \<noteq> []" and "length inflight = length inflight' + length (pending (q_vq (tx_queue w)))"
    | (never) w' where "virtio_vsockdev_xmit pkt w = Some (- EINVAL, w')" and "tx_good (Suc k) w'"
proof -
  have lin: "page_linear (w_v2p w)" using env by (simp add: tx_env_def)
  have keep: "tx_env w' \<and> w_v2p w' = w_v2p w" if "virtio_vsockdev_xmit pkt w = Some (rc, w')" for rc w'
    using tx_frame_env [OF xmit_frame [OF that]] xmit_alloc [OF that] env by (auto simp: tx_env_def)
  from ok lin pkt show thesis
  proof (cases rule: xmit_cases)
    case (sent w' free' inflight' chain)
    then have "tx_sent k pkt w'" using keep [OF sent(1)] live
      unfolding tx_sent_def nb_phys_def by (intro conjI exI [of _ free'] exI [of _ inflight'] exI [of _ chain]) simp_all
    with sent(1) show thesis by (rule that(1))
  next
    case (full w' free' inflight')
    then show thesis using keep [OF full(1)] live by (intro that(2) [of w' free' inflight']) simp_all
  next
    case (never w' free' inflight')
    then have "tx_good (Suc k) w'" using keep [OF never(1)] live
      unfolding tx_good_def by (intro conjI exI [of _ free'] exI [of _ inflight']) simp_all
    with never(1) show thesis by (rule that(3))
  qed
qed

text \<open>The retry loop ends.\<close>

lemma retry_live:
  assumes "tx_env w" and "tx_queue_ok free inflight (tx_queue w)" and "w_live_netbufs w = length inflight + Suc k"
    and "nb_refcount pkt = 1" and "0 < unat (nb_len pkt)"
  shows "\<exists>rc w'. virtio_vsockdev_xmit_retry pkt w = Some (rc, w')
    \<and> (rc = 0 \<and> tx_sent k pkt w' \<or> rc = - EINVAL \<and> tx_good (Suc k) w')"
  using assms
proof (induction "2 * length inflight + (if pending (q_vq (tx_queue w)) = [] then 1 else 0)"
    arbitrary: w free inflight rule: less_induct)
  case less
  note prems = less.prems
  from prems(1-5) show ?case
  proof (cases rule: xmit_live)
    case (sent w')
    then show ?thesis by (subst virtio_vsockdev_xmit_retry.simps) simp
  next
    case (never w')
    then show ?thesis by (subst virtio_vsockdev_xmit_retry.simps) simp
  next
    case (full w' free' inflight')
    let ?w = "uk_sched_yield w'" and ?q = "tx_queue w'"
    let ?vq = "w_host w' (w_time w') (q_vq ?q)"
    have q: "tx_queue ?w = ?q\<lparr>q_vq := ?vq\<rparr>" "w_live_netbufs ?w = w_live_netbufs w'"
      by (simp_all add: uk_sched_yield_def Let_def)
    have env: "tx_env ?w" using full(2) by (simp add: tx_env_def uk_sched_yield_def Let_def put_tx_def)
    have dev: "vq_inv free' inflight' ?vq" "pending ?vq \<noteq> []"
      using full(2,3,5) unfolding tx_env_def device_serves_def tx_queue_ok_def by blast+
    have ok: "tx_queue_ok free' inflight' (tx_queue ?w)"
      using full(3) dev(1) unfolding tx_queue_ok_def q(1) by simp
    have "virtio_vsockdev_xmit_retry pkt w = virtio_vsockdev_xmit_retry pkt ?w"
      using full(1) by (subst virtio_vsockdev_xmit_retry.simps) simp
    moreover have m: "2 * length inflight' + (if pending (q_vq (tx_queue ?w)) = [] then 1 else 0)
        < 2 * length inflight + (if pending (q_vq (tx_queue w)) = [] then 1 else 0)"
      using dev(2) full(6) unfolding q(1) by simp
    have "w_live_netbufs ?w = length inflight' + Suc k" using full(4) unfolding q(2) .
    from less.hyps [OF m env ok this prems(4,5)] calculation show ?thesis by simp
  qed
qed

end
