(* ===== verification/Virtio_Send.thy ===== *)
theory Virtio_Send
  imports Virtio_Tx
begin

text \<open>
  The packets that the driver sends: control packets (\<open>virtio_vsock_connect\<close>, \<open>_shutdown\<close>, \<open>_reset\<close>,
  \<open>_send_credit_update\<close> and the replies to requests) and the data packets of \<open>virtio_vsock_send\<close>.
  With a device that serves its queue all of them complete, no packet is lost, and what the device
  finds is the header and the data.
\<close>

section \<open>Packets\<close>

lemma uk_netbuf_header_push:
  assumes "unat n \<le> nb_data nb" and "unat n < 2 ^ 15" and "unat (nb_len nb) + unat n \<le> 65535"
    and "nb_flags nb = 0"
  shows "uk_netbuf_header nb n = (1, nb\<lparr>nb_data := nb_data nb - unat n, nb_len := nb_len nb + n\<rparr>)"
proof -
  have s: "sint n = int (unat n)"
  proof -
    have "signed_take_bit 15 (uint n) = uint n"
      using assms(2) by (intro signed_take_bit_int_eq_self) (simp_all add: uint_eq_unat del: of_nat_unat)
    then show ?thesis by (simp add: sint_uint uint_eq_unat del: of_nat_unat)
  qed
  show ?thesis
    unfolding uk_netbuf_header_def s uint_eq_unat Let_def
    using assms by (simp add: uk_netbuf_headroom_def nat_diff_distrib del: of_nat_unat)
qed

lemma write_hdr_payload:
  assumes "nb_data p + sizeof_hdr \<le> length (nb_buf p)" and "sizeof_hdr \<le> unat (nb_len p)" and "wf_netbuf p"
  obtains mem where "write_hdr h p = Some (p\<lparr>nb_buf := mem\<rparr>)" and "length mem = length (nb_buf p)"
    and "nb_payload (p\<lparr>nb_buf := mem\<rparr>) = encode_hdr h @ drop sizeof_hdr (nb_payload p)"
proof -
  let ?mem = "take (nb_data p) (nb_buf p) @ encode_hdr h @ drop (nb_data p + sizeof_hdr) (nb_buf p)"
  have w: "write_hdr h p = Some (p\<lparr>nb_buf := ?mem\<rparr>)"
    using assms(1) by (simp add: write_hdr_def mem_write_def)
  show thesis
    by (rule that [OF w])
      (use assms in \<open>auto simp: nb_payload_def wf_netbuf_def drop_take add.commute min_def sizeof_hdr_def\<close>)
qed

text \<open>The length of a packet is a 16-bit number, so of more bytes than that only the remainder is sent.\<close>

lemma build_packet:
  assumes "nb_data p = sizeof_hdr" and "sizeof_hdr + length bytes \<le> length (nb_buf p)" and "nb_flags p = 0"
    and "length bytes mod 65536 + sizeof_hdr \<le> 65535"
  obtains mem p1 pkt where "mem_write (nb_buf p) (nb_data p) bytes = Some mem"
    and "uk_netbuf_header (p\<lparr>nb_buf := mem, nb_len := of_nat (length bytes)\<rparr>) (of_nat sizeof_hdr) = (1, p1)"
    and "write_hdr h p1 = Some pkt" and "nb_payload pkt = encode_hdr h @ take (length bytes mod 65536) bytes"
    and "nb_refcount pkt = nb_refcount p" and "unat (nb_len pkt) = sizeof_hdr + length bytes mod 65536"
proof -
  let ?m = "length bytes mod 65536"
  let ?mem = "take sizeof_hdr (nb_buf p) @ bytes @ drop (sizeof_hdr + length bytes) (nb_buf p)"
  let ?p = "p\<lparr>nb_buf := ?mem, nb_len := of_nat (length bytes)\<rparr>"
  let ?p1 = "?p\<lparr>nb_data := 0, nb_len := of_nat (length bytes) + of_nat sizeof_hdr\<rparr>"
  have mem: "mem_write (nb_buf p) (nb_data p) bytes = Some ?mem"
    using assms(1,2) by (simp add: mem_write_def)
  have len: "unat (of_nat (length bytes) :: u16) = ?m" "unat (of_nat sizeof_hdr :: u16) = sizeof_hdr"
    by (simp_all add: sizeof_hdr_def unat_of_nat)
  have len2: "unat (of_nat (length bytes) + of_nat sizeof_hdr :: u16) = sizeof_hdr + ?m"
    using assms(4) len by (simp add: unat_word_ariths sizeof_hdr_def)
  have le: "?m \<le> length bytes" by simp
  have hdr: "uk_netbuf_header ?p (of_nat sizeof_hdr) = (1, ?p1)"
    using uk_netbuf_header_push [of "of_nat sizeof_hdr" ?p] assms len by (simp add: sizeof_hdr_def)
  have pay: "nb_payload ?p1 = take sizeof_hdr (nb_buf p) @ take ?m bytes" "wf_netbuf ?p1"
    using assms(2) len2 le by (simp_all add: nb_payload_def wf_netbuf_def)
  obtain mem2 where w: "write_hdr h ?p1 = Some (?p1\<lparr>nb_buf := mem2\<rparr>)"
    "nb_payload (?p1\<lparr>nb_buf := mem2\<rparr>) = encode_hdr h @ drop sizeof_hdr (nb_payload ?p1)"
    by (rule write_hdr_payload [of ?p1 h]) (use assms(2) len2 pay(2) in simp_all)
  have "nb_payload (?p1\<lparr>nb_buf := mem2\<rparr>) = encode_hdr h @ take ?m bytes"
    using w(2) assms(2) by (simp only: pay(1)) simp
  then show thesis using len2 by (intro that [OF mem hdr w(1)]) simp_all
qed

lemma netbuf_alloc_live:
  assumes good: "tx_good k w" and "0 < buflen" and "headroom \<le> buflen"
  obtains (none) w' where "drv_netbuf_alloc buflen headroom w = Some (None, w')" and "tx_good k w'"
    | (some) p w' where "drv_netbuf_alloc buflen headroom w = Some (Some p, w')" and "tx_good (Suc k) w'"
      and "nb_data p = headroom" and "buflen \<le> length (nb_buf p)" and "nb_flags p = 0" and "nb_refcount p = 1"
proof -
  have ok: "alloc_ok (w_alloc w)" "8 dvd (8 :: nat)" using good by (simp_all add: tx_good_def tx_env_def)
  from ok assms(2,3) show thesis
  proof (cases rule: uk_netbuf_alloc_buf_wf [where privlen = 0])
    case (1 a')
    show thesis by (rule none [of "w\<lparr>w_alloc := a'\<rparr>"]) (use 1 good in \<open>simp_all add: drv_netbuf_alloc_def tx_good_def tx_env_def\<close>)
  next
    case (2 nb a')
    have "drv_netbuf_alloc buflen headroom w =
        Some (Some nb, w\<lparr>w_alloc := a', w_live_netbufs := w_live_netbufs w + 1\<rparr>)"
      using 2 by (simp add: drv_netbuf_alloc_def)
    moreover have "tx_good (Suc k) (w\<lparr>w_alloc := a', w_live_netbufs := w_live_netbufs w + 1\<rparr>)"
      using good 2 by (simp add: tx_good_def tx_env_def)
    ultimately show thesis using 2 align_up_ge [of 8 buflen] by (intro some) simp_all
  qed
qed

lemma netbuf_free_live:
  assumes "tx_good (Suc k) w" and "nb_refcount pkt = 1"
  obtains w' where "drv_netbuf_free pkt w = Some w'" and "tx_good k w'"
proof -
  obtain free inflight where "tx_env w" "tx_queue_ok free inflight (tx_queue w)"
    "w_live_netbufs w = length inflight + Suc k" using assms(1) by (auto simp: tx_good_def)
  then have "tx_good k (w\<lparr>w_live_netbufs := w_live_netbufs w - 1\<rparr>)"
    unfolding tx_good_def by (intro conjI exI [of _ free] exI [of _ inflight]) (simp_all add: tx_env_def)
  then show thesis using assms(2) by (intro that) (simp_all add: drv_netbuf_free_def)
qed

section \<open>Control packets\<close>

text \<open>
  A control packet is sent, or fails cleanly for lack of memory or of descriptors, and no packet is
  lost.
\<close>

lemma xmit_ctrl_live:
  assumes good: "tx_good k w"
  shows "\<exists>rc w'. xmit_ctrl hdr w = Some (rc, w')
    \<and> (rc = 0 \<and> (\<exists>pkt. tx_sent k pkt w' \<and> nb_payload pkt = encode_hdr hdr)
       \<or> (rc = - ENOMEM \<or> rc = - EINVAL) \<and> tx_good k w')"
proof -
  have sz: "0 < sizeof_hdr" "0 \<le> sizeof_hdr" by (simp_all add: sizeof_hdr_def)
  from good sz show ?thesis
  proof (cases rule: netbuf_alloc_live)
    case (none w')
    then show ?thesis by (simp add: xmit_ctrl_def)
  next
    case (some p w1)
    let ?p = "p\<lparr>nb_len := of_nat sizeof_hdr\<rparr>"
    have len: "unat (of_nat sizeof_hdr :: u16) = sizeof_hdr" by (simp add: sizeof_hdr_def)
    have wf: "wf_netbuf ?p" using some len by (simp add: wf_netbuf_def)
    obtain mem where pkt: "write_hdr hdr ?p = Some (?p\<lparr>nb_buf := mem\<rparr>)"
      "nb_payload (?p\<lparr>nb_buf := mem\<rparr>) = encode_hdr hdr @ drop sizeof_hdr (nb_payload ?p)"
      by (rule write_hdr_payload [of ?p hdr]) (use some len wf in simp_all)
    let ?pkt = "?p\<lparr>nb_buf := mem\<rparr>"
    have pay: "nb_payload ?pkt = encode_hdr hdr" using pkt(2) wf len by simp
    obtain free inflight where q: "tx_env w1" "tx_queue_ok free inflight (tx_queue w1)"
      "w_live_netbufs w1 = length inflight + Suc k" using some(2) by (auto simp: tx_good_def)
    have ref: "nb_refcount ?pkt = 1" "0 < unat (nb_len ?pkt)" using some len sz by simp_all
    from retry_live [OF q ref] obtain rc w' where r: "virtio_vsockdev_xmit_retry ?pkt w1 = Some (rc, w')"
      "rc = 0 \<and> tx_sent k ?pkt w' \<or> rc = - EINVAL \<and> tx_good (Suc k) w'" by blast
    have run: "xmit_ctrl hdr w = (if rc \<noteq> 0 then drv_netbuf_free ?pkt w' \<bind> (\<lambda>w. Some (rc, w)) else Some (0, w'))"
      using some(1) pkt(1) r(1) by (simp add: xmit_ctrl_def)
    show ?thesis
    proof (cases "rc = 0")
      case True
      then have "tx_sent k ?pkt w'" using r(2) by simp
      with True run pay show ?thesis by (intro exI [of _ 0] exI [of _ w']) auto
    next
      case False
      then have f: "rc = - EINVAL" "tx_good (Suc k) w'" using r(2) by simp_all
      obtain w2 where "drv_netbuf_free ?pkt w' = Some w2" "tx_good k w2"
        by (rule netbuf_free_live [OF f(2) ref(1)]) (rule that)
      with run f(1) False show ?thesis by (intro exI [of _ rc] exI [of _ w2]) simp
    qed
  qed
qed

lemma reset_live:
  assumes "tx_good k w" and "w_socks w sid = Some s"
  shows "\<exists>rc w'. virtio_vsock_reset sid w = Some (rc, w') \<and> tx_good k w'"
  using xmit_ctrl_live [OF assms(1), of "sock_hdr s VIRTIO_VSOCK_OP_RST 0"] assms(2)
  by (auto simp: virtio_vsock_reset_def sock_get_def dest: tx_sent_good)

lemma tx_good_frame: "tx_good k (w\<lparr>w_socks := x, w_sockets := t, w_events := e\<rparr>) = tx_good k w"
  by (simp add: tx_good_def tx_env_def)

interpretation virtio_live: vsock_driver_live virtio_vsockdev_ops "tx_good k" for k
  by unfold_locales
    (simp_all add: virtio_vsockdev_ops_def reset_live virtio_vsock_free_accept_entry_def tx_good_frame)

section \<open>Data packets\<close>

lemma send_run:
  assumes vs: "w_socks w sid = Some vs" and n: "n = min (unat (virtio_vsock_peer_rx_free vs)) (length buf)"
    and "n \<noteq> 0"
  shows "virtio_vsock_send sid buf w = drv_netbuf_alloc (n + sizeof_hdr) sizeof_hdr w \<bind> (\<lambda>(pkt, w).
      case pkt of None \<Rightarrow> Some (- ENOMEM, w)
      | Some pkt \<Rightarrow> mem_write (nb_buf pkt) (nb_data pkt) (take n buf) \<bind> (\<lambda>mem.
          let (rc, pkt) = uk_netbuf_header (pkt\<lparr>nb_buf := mem, nb_len := of_nat n\<rparr>) (of_nat sizeof_hdr) in
          uk_assert (rc = 1) \<bind> (\<lambda>_. write_hdr ((sock_hdr vs VIRTIO_VSOCK_OP_RW 0)\<lparr>h_len := of_nat n\<rparr>) pkt
            \<bind> (\<lambda>pkt. virtio_vsockdev_xmit pkt w \<bind> (\<lambda>(rc, w).
            if rc \<noteq> 0 then drv_netbuf_free pkt w \<bind> (\<lambda>w. Some (rc, w))
            else sock_upd sid (\<lambda>s. s\<lparr>v_tx_count := v_tx_count s + of_nat n\<rparr>) w \<bind> (\<lambda>w. Some (int n, w)))))))"
proof -
  have ne: "length buf \<noteq> 0" "min (unat (virtio_vsock_peer_rx_free vs)) (length buf) \<noteq> 0" using assms by auto
  show ?thesis
    unfolding virtio_vsock_send_def n sock_get_def vs Let_def sock_hdr_def if_not_P [OF ne(1)] bind.bind_lunit
      if_not_P [OF ne(2)] by (simp cong: option.case_cong)
qed

text \<open>
  The outcome of sending: nothing to send, no credit, no memory, no
  descriptors, or a packet of the header and the bytes in flight and the counter advanced.
\<close>

lemma send_live:
  assumes good: "tx_good k w" and vs: "w_socks w sid = Some vs"
    and n: "n = min (unat (virtio_vsock_peer_rx_free vs)) (length buf)" and fits: "n mod 65536 + sizeof_hdr \<le> 65535"
  obtains (empty) "n = 0" and "virtio_vsock_send sid buf w = Some (if buf = [] then 0 else - EAGAIN, w)"
    | (failed) rc w' where "0 < n" and "virtio_vsock_send sid buf w = Some (rc, w')"
      and "rc = - ENOMEM \<or> rc = - EAGAIN \<or> rc = - EINVAL" and "tx_good k w'"
    | (sent) pkt w1 where "0 < n"
      and "virtio_vsock_send sid buf w =
             Some (int n, sock_put sid (vs\<lparr>v_tx_count := v_tx_count vs + of_nat n\<rparr>) w1)"
      and "tx_sent k pkt w1" and "tx_frame w w1"
      and "nb_payload pkt = encode_hdr ((sock_hdr vs VIRTIO_VSOCK_OP_RW 0)\<lparr>h_len := of_nat n\<rparr>)
             @ take (n mod 65536) buf"
proof (cases "n = 0")
  case True
  have "virtio_vsock_send sid buf w = Some (if buf = [] then 0 else - EAGAIN, w)"
    using True vs n by (simp add: virtio_vsock_send_def sock_get_def Let_def)
  with True show thesis by (rule empty)
next
  case False
  then have buf: "buf \<noteq> []" using n by auto
  let ?h = "(sock_hdr vs VIRTIO_VSOCK_OP_RW 0)\<lparr>h_len := of_nat n\<rparr>"
  note run0 = send_run [OF vs n False]
  have sz: "0 < n + sizeof_hdr" "sizeof_hdr \<le> n + sizeof_hdr" using False by simp_all
  from good sz show thesis
  proof (cases rule: netbuf_alloc_live)
    case (none w')
    then show thesis using run0 False by (intro failed [of "- ENOMEM" w']) simp_all
  next
    case (some p w1)
    have len: "length (take n buf) = n" "take (n mod 65536) (take n buf) = take (n mod 65536) buf"
      using n by (simp_all add: min_def)
    obtain mem p1 pkt where b: "mem_write (nb_buf p) (nb_data p) (take n buf) = Some mem"
      "uk_netbuf_header (p\<lparr>nb_buf := mem, nb_len := of_nat n\<rparr>) (of_nat sizeof_hdr) = (1, p1)"
      "write_hdr ?h p1 = Some pkt" "nb_payload pkt = encode_hdr ?h @ take (n mod 65536) buf"
      "nb_refcount pkt = 1" "unat (nb_len pkt) = sizeof_hdr + n mod 65536"
      by (rule build_packet [of p "take n buf" ?h, unfolded len]) (use some fits in \<open>simp_all add: add.commute\<close>)
    have run: "virtio_vsock_send sid buf w = virtio_vsockdev_xmit pkt w1 \<bind> (\<lambda>(rc, w).
            if rc \<noteq> 0 then drv_netbuf_free pkt w \<bind> (\<lambda>w. Some (rc, w))
            else sock_upd sid (\<lambda>s. s\<lparr>v_tx_count := v_tx_count s + of_nat n\<rparr>) w \<bind> (\<lambda>w. Some (int n, w)))"
      unfolding run0 using some(1) b by simp
    obtain free inflight where q: "tx_env w1" "tx_queue_ok free inflight (tx_queue w1)"
      "w_live_netbufs w1 = length inflight + Suc k" using some(2) by (auto simp: tx_good_def)
    have fail: thesis if x: "virtio_vsockdev_xmit pkt w1 = Some (rc, w2)" and g: "tx_good (Suc k) w2"
      and rc: "rc = - EAGAIN \<or> rc = - EINVAL" for rc w2
    proof -
      obtain w3 where "drv_netbuf_free pkt w2 = Some w3" "tx_good k w3"
        by (rule netbuf_free_live [OF g b(5)]) (rule that)
      then show thesis using run x rc False by (intro failed [of rc w3]) auto
    qed
    have ne: "0 < unat (nb_len pkt)" using b(6) by (simp add: sizeof_hdr_def)
    from q b(5) ne show thesis
    proof (cases rule: xmit_live)
      case (sent w2)
      have fr: "tx_frame w w2" using tx_frame_trans [OF netbuf_alloc_frame [OF some(1)] xmit_frame [OF sent(1)]] .
      have "w_socks w2 sid = Some vs" using tx_frame_fields(1) [OF fr] vs by simp
      then show thesis using run sent fr b(4) False
        by (intro that(3) [of w2 pkt]) (simp_all add: sock_upd_def sock_get_def)
    next
      case (full w2 free' inflight')
      then have "tx_good (Suc k) w2" by (auto simp: tx_good_def)
      then show thesis by (rule fail [OF full(1)]) simp
    next
      case (never w2)
      then show thesis by (intro fail [OF never]) simp
    qed
  qed
qed

text \<open>With memory and an idle queue that has room for any packet, sending succeeds.\<close>

lemma xmit_idle:
  assumes env: "tx_env w" and ok: "tx_queue_ok free [] (tx_queue w)" and "VSOCK_MAX_FRAGMENTS \<le> vr_num (q_vq (tx_queue w))"
    and pkt: "nb_refcount pkt = 1" "0 < unat (nb_len pkt)"
  obtains w' where "virtio_vsockdev_xmit pkt w = Some (0, w')"
proof -
  have lin: "page_linear (w_v2p w)" using env by (simp add: tx_env_def)
  have "unat (nb_len pkt) \<le> 65535" using unat_less_exp [of "nb_len pkt"] by simp
  then have count: "uk_sglist_count (w_v2p w) (nb_base pkt + nb_data pkt) (unat (nb_len pkt)) \<le> VSOCK_MAX_FRAGMENTS"
    using sglist_count_pages_spanned [of "w_v2p w" "nb_base pkt + nb_data pkt" "unat (nb_len pkt)"]
      pages_spanned_netbuf [of "unat (nb_len pkt)" "nb_base pkt + nb_data pkt"]
    by (simp add: VSOCK_MAX_FRAGMENTS_def PAGE_SIZE_def)
  from ok lin pkt show thesis
  proof (cases rule: xmit_cases)
    case (sent w' free' inflight' chain)
    then show thesis by (intro that)
  next
    case (full w' free' inflight')
    then show thesis by simp
  next
    case (never w' free' inflight')
    then show thesis using count assms(3) by simp
  qed
qed

lemma send_idle:
  assumes env: "tx_env w" and ok: "tx_queue_ok free [] (tx_queue w)" and num: "VSOCK_MAX_FRAGMENTS \<le> vr_num (q_vq (tx_queue w))"
    and vs: "w_socks w sid = Some vs" and n: "n = min (unat (virtio_vsock_peer_rx_free vs)) (length buf)" "0 < n"
    and fits: "n mod 65536 + sizeof_hdr \<le> 65535"
    and mem: "drv_netbuf_alloc (n + sizeof_hdr) sizeof_hdr w = Some (Some p, w1)"
  shows "\<exists>w'. virtio_vsock_send sid buf w = Some (int n, w')"
proof -
  have good: "tx_good (w_live_netbufs w) w" using env ok unfolding tx_good_def by fastforce
  have len: "length (take n buf) = n" using n by simp
  have sz: "0 < n + sizeof_hdr" "sizeof_hdr \<le> n + sizeof_hdr" by (simp_all add: sizeof_hdr_def)
  have p: "nb_data p = sizeof_hdr" "n + sizeof_hdr \<le> length (nb_buf p)" "nb_flags p = 0" "nb_refcount p = 1"
    "tx_env w1"
    by (rule netbuf_alloc_live [OF good sz]; use mem in \<open>simp add: tx_good_def\<close>)+
  obtain mem' p1 pkt where b: "mem_write (nb_buf p) (nb_data p) (take n buf) = Some mem'"
    "uk_netbuf_header (p\<lparr>nb_buf := mem', nb_len := of_nat n\<rparr>) (of_nat sizeof_hdr) = (1, p1)"
    "write_hdr ((sock_hdr vs VIRTIO_VSOCK_OP_RW 0)\<lparr>h_len := of_nat n\<rparr>) p1 = Some pkt"
    "nb_refcount pkt = 1" "unat (nb_len pkt) = sizeof_hdr + n mod 65536"
    by (rule build_packet [of p "take n buf" "(sock_hdr vs VIRTIO_VSOCK_OP_RW 0)\<lparr>h_len := of_nat n\<rparr>", unfolded len])
      (use p fits in \<open>simp_all add: add.commute\<close>)
  have q: "tx_queue w1 = tx_queue w" using mem by (auto simp: drv_netbuf_alloc_def returns)
  have "0 < unat (nb_len pkt)" using b(5) by (simp add: sizeof_hdr_def)
  then obtain w2 where x: "virtio_vsockdev_xmit pkt w1 = Some (0, w2)"
    using xmit_idle [OF p(5) _ _ b(4)] ok num q by metis
  have "tx_frame w w2" by (rule tx_frame_trans [OF netbuf_alloc_frame [OF mem] xmit_frame [OF x]])
  then have "w_socks w2 sid = Some vs" using tx_frame_fields(1) vs by metis
  moreover have "n \<noteq> 0" using n(2) by simp
  ultimately show ?thesis using send_run [OF vs n(1)] mem b x by (simp add: sock_upd_def sock_get_def)
qed

end
