(* ===== verification/Vsock_Example.thy ===== *)
theory Vsock_Example
  imports Virtio_Send
begin

text \<open>
  A concrete system for runs of the definitions: a device with queues of 32 descriptors that serves
  its transmit queue, plenty of memory, and a connection that is open.
\<close>

definition example_ring :: "'c virtqueue_vring" where
  "example_ring = (case virtqueue_create (\<lambda>_. \<lparr>di_cookie = None, di_desc_count = 0\<rparr>) alloc_plenty (2 ^ 5) 4096 0 of
     (Inr vq, _) \<Rightarrow> vq)"

definition example_queue :: "'c virtio_vsockdev_queue" where
  "example_queue = \<lparr>q_vq = example_ring, q_nb_desc = 32, q_intr_enabled = 0,
     q_sg = uk_sglist_init VSOCK_MAX_FRAGMENTS (replicate VSOCK_MAX_FRAGMENTS \<lparr>ss_paddr = 0, ss_len = 0\<rparr>)\<rparr>"

definition example_sock :: virtio_vsock where
  "example_sock = \<lparr>s_state = UK_VSOCK_STATE_OPEN, s_rx_shutdown = False, s_tx_shutdown = False, s_so_error = 0,
     s_sock_type = SOCK_STREAM, s_local_addr = \<lparr>a_cid = 3, a_port = 1024\<rparr>,
     s_peer_addr = \<lparr>a_cid = 2, a_port = 5000\<rparr>, s_rx = example_buffer, s_accept_queue = [],
     s_accept_queue_length = 0, s_accept_queue_limit = 0, s_posix_sock = Some 0,
     v_type = VIRTIO_VSOCK_TYPE_STREAM, v_peer_buf_alloc = 100, v_peer_fwd_count = 0, v_tx_count = 0\<rparr>"

definition example_world :: vsock_world where
  "example_world = \<lparr>w_socks = [0 \<mapsto> example_sock], w_next_sock = 1, w_sockets = Node False False Null 0 Null,
     w_port_alloc_next = 1024, w_events = (\<lambda>_. 0), w_alloc = alloc_plenty, w_live_netbufs = 0, w_main_dev = True,
     w_dev = \<lparr>d_cid = 3, d_rx = example_queue, d_tx = example_queue, d_ev = example_queue\<rparr>,
     w_v2p = (\<lambda>v. v), w_host = serving_device, w_host_ev = serving_device, w_time = 0, w_dma = (\<lambda>_. []),
     w_dma_count = 0, w_pm_sysmigration = 0\<rparr>"

lemma example_ring_inv: "vq_inv [0..<32] [] (example_ring :: 'c virtqueue_vring)"
proof -
  obtain vq :: "'c virtqueue_vring" and a where c: "virtqueue_create (\<lambda>_. \<lparr>di_cookie = None, di_desc_count = 0\<rparr>) alloc_plenty (2 ^ 5) 4096 0
      = (Inr vq, a)"
    by (simp add: virtqueue_create_def uk_malloc_def uk_memalign_def alloc_plenty_def vring_size_def align_up_def
        PAGE_SIZE_def)
  then have "example_ring = vq" by (simp add: example_ring_def)
  with vring_create_inv [OF c] show ?thesis by simp
qed

lemma example_queue_ok: "tx_queue_ok [0..<32] [] example_queue"
  by (simp add: tx_queue_ok_def example_queue_def example_ring_inv wf_sglist_def uk_sglist_init_def)

lemma page_linear_id: "page_linear (\<lambda>v. v)"
  by (simp add: page_linear_def trunc_page_def page_off_def)

lemma example_world_good: "tx_good 0 example_world"
  using example_queue_ok page_linear_id serving_device_serves
  by (auto simp: tx_good_def tx_env_def example_world_def)

lemma example_ring_holds: "vq_holds P example_ring"
  unfolding vq_holds_def by (intro exI conjI, rule example_ring_inv) simp

lemma example_world_inv: "sock_inv example_world"
proof (rule sock_invI)
  have "bal (Node False False Null (0 :: nat) Null) 1" by simp
  then have b: "\<exists>n. bal (w_sockets example_world) n" unfolding example_world_def by auto
  have t: "table_ids example_world = [0]" by (simp add: table_ids_def example_world_def)
  have k: "a_cid (ci_local (key_of example_world 0)) = d_cid (w_dev example_world)"
    by (simp add: key_of_def example_world_def example_sock_def uk_vsock_sockaddr_key_def)
  have "w_socks example_world 0 \<noteq> None" by (simp add: example_world_def)
  with b t k show "table_inv example_world" by (simp add: table_inv_def)
  show "rx_ok example_world"
    by (simp add: rx_ok_def example_world_def example_queue_def example_ring_holds device_serves_keeps
        serving_device_serves)
  have wf: "wf_sock example_sock" by (simp add: wf_sock_def example_sock_def example_buffer_wf)
  fix sid s assume "w_socks example_world sid = Some s"
  then have "sid = 0" "s = example_sock" by (simp_all add: example_world_def split: if_splits)
  then show "sid < w_next_sock example_world \<and> wf_sock s \<and> (sid \<in> set (table_ids example_world) \<longleftrightarrow> active (s_state s))"
    using wf t by (simp add: example_sock_def) (simp add: example_world_def)
qed

text \<open>The same system with another socket and address.\<close>

definition single_world :: "virtio_vsock \<Rightarrow> u32 \<Rightarrow> vsock_world" where
  "single_world s cid = example_world\<lparr>w_socks := [0 \<mapsto> s], w_dev := (w_dev example_world)\<lparr>d_cid := cid\<rparr>\<rparr>"

lemma single_world_inv:
  assumes "active (s_state s)" and "wf_sock s" and "a_cid (s_local_addr s) = cid"
  shows "sock_inv (single_world s cid)"
proof (rule sock_invI)
  have "\<exists>n. bal (w_sockets (single_world s cid)) n"
    using table_invD(1) [OF sock_invD(1) [OF example_world_inv]] by (simp add: single_world_def)
  moreover have t: "table_ids (single_world s cid) = [0]" by (simp add: table_ids_def single_world_def example_world_def)
  ultimately show "table_inv (single_world s cid)" using assms(3)
    by (simp add: table_inv_def) (simp add: single_world_def key_of_def uk_vsock_sockaddr_key_def)
  show "rx_ok (single_world s cid)" using sock_invD(5) [OF example_world_inv]
    by (simp add: rx_ok_def single_world_def)
  fix sid y assume "w_socks (single_world s cid) sid = Some y"
  then have "sid = 0" "y = s" by (simp_all add: single_world_def split: if_splits)
  then show "sid < w_next_sock (single_world s cid) \<and> wf_sock y
      \<and> (sid \<in> set (table_ids (single_world s cid)) \<longleftrightarrow> active (s_state y))"
    using assms t by (simp add: single_world_def example_world_def)
qed

text \<open>The allocator of the example grants a packet of any size that is asked for here.\<close>

lemma example_alloc:
  assumes "sizeof_hdr \<le> n" and "n \<le> 2 ^ 32"
  shows "\<exists>p w1. drv_netbuf_alloc n sizeof_hdr (sock_put sid s example_world) = Some (Some p, w1)"
proof -
  have "align_up n 8 + align_up 96 8 \<le> 2 ^ 33"
    using align_up_less [of 8 n] assms(2) by (simp add: align_up_def)
  moreover have "sizeof_hdr \<le> align_up n 8" using align_up_ge [of 8 n] assms(1) by simp
  moreover have "align_down (8 + (align_up n 8 + align_up 96 8)) 8 = 8 + (align_up n 8 + align_up 96 8)"
    by (intro align_down_dvd dvd_add dvd_align_up) simp
  ultimately show ?thesis using assms
    by (simp add: drv_netbuf_alloc_def uk_netbuf_alloc_buf_def uk_netbuf_prepare_buf_def uk_netbuf_init_indir_def
        example_world_def sock_put_def uk_memalign_def alloc_plenty_def sizeof_uk_netbuf_def NETBUF_ADDR_ALIGNMENT_def
        sizeof_hdr_def Let_def)
qed

end
