(* ===== verification/Virtio_Vsock_Rx.thy ===== *)
theory Virtio_Vsock_Rx
  imports Vsock_Example
begin

text \<open>
  The receive side of the virtio socket driver (\<open>drivers/virtio/vsock/virtio_vsock.c\<close>): filling the
  receive and the event queue, taking packets and events, the dispatch of a packet to the socket
  layer, the work loops of the two dispatcher threads, and the entry for a transport reset in
  \<open>lib/ukvsockdev/vsockdev.c\<close>.

  The work loops run until the queue is empty and interrupts are on; they are partial functions.
\<close>

section \<open>Status bits\<close>

definition VIRTIO_VSOCKDEV_STATUS_SUCCESS :: int where "VIRTIO_VSOCKDEV_STATUS_SUCCESS = 1"
definition VIRTIO_VSOCKDEV_STATUS_MORE :: int where "VIRTIO_VSOCKDEV_STATUS_MORE = 2"
definition VIRTIO_VSOCKDEV_STATUS_UNDERRUN :: int where "VIRTIO_VSOCKDEV_STATUS_UNDERRUN = 4"

definition put_rx :: "uk_netbuf virtio_vsockdev_queue \<Rightarrow> vsock_world \<Rightarrow> vsock_world" where
  "put_rx q w = w\<lparr>w_dev := (w_dev w)\<lparr>d_rx := q\<rparr>\<rparr>"

definition put_ev :: "nat virtio_vsockdev_queue \<Rightarrow> vsock_world \<Rightarrow> vsock_world" where
  "put_ev q w = w\<lparr>w_dev := (w_dev w)\<lparr>d_ev := q\<rparr>\<rparr>"

section \<open>The receive queue\<close>

definition virtio_vsockdev_rxq_enqueue :: "uk_netbuf \<Rightarrow> vsock_world \<Rightarrow> (int \<times> vsock_world) option" where
  "virtio_vsockdev_rxq_enqueue pkt w = (
     let q = d_rx (w_dev w) in
     if virtqueue_is_full (q_vq q) then Some (- ENOBUFS, w)
     else do {
       (rc, sg) \<leftarrow> uk_sglist_append (w_v2p w) (uk_sglist_reset (q_sg q))
                    (nb_base pkt + nb_data pkt) (unat (nb_len pkt));
       let q = q\<lparr>q_sg := sg\<rparr>;
       if rc < 0 then Some (rc, put_rx q w)
       else do {
         (rc, vq) \<leftarrow> virtqueue_buffer_enqueue (q_vq q) pkt sg 0 (sg_nseg sg);
         Some (rc, put_rx (q\<lparr>q_vq := vq\<rparr>) w)
       }
     })"

text \<open>The loop of \<open>virtio_vsockdev_rxq_fillup\<close>: rounds left, rounds done; the result has the latter and the status.\<close>

fun rxq_fillup_loop :: "nat \<Rightarrow> nat \<Rightarrow> vsock_world \<Rightarrow> (nat \<times> int \<times> vsock_world) option" where
  "rxq_fillup_loop 0 i w = Some (i, 0, w)"
| "rxq_fillup_loop (Suc todo) i w = do {
     (pkt, w) \<leftarrow> drv_netbuf_alloc PAGE_SIZE 0 w;
     case pkt of
       None \<Rightarrow> Some (i, VIRTIO_VSOCKDEV_STATUS_UNDERRUN, w)
     | Some pkt \<Rightarrow> do {
         let pkt = pkt\<lparr>nb_len := of_nat (length (nb_buf pkt))\<rparr>;
         (rc, w) \<leftarrow> virtio_vsockdev_rxq_enqueue pkt w;
         if rc < 0 then do {
           w \<leftarrow> drv_netbuf_free pkt w;
           Some (i, 0, w)
         }
         else rxq_fillup_loop todo (Suc i) w
       }
   }"

definition virtio_vsockdev_rxq_fillup :: "u16 \<Rightarrow> bool \<Rightarrow> vsock_world \<Rightarrow> (int \<times> vsock_world) option" where
  "virtio_vsockdev_rxq_fillup nb_desc notify w = do {
     (i, status, w) \<leftarrow> rxq_fillup_loop (unat nb_desc) 0 w;
     let q = d_rx (w_dev w);
     Some (status, if notify \<and> i \<noteq> 0 then put_rx (q\<lparr>q_vq := snd (virtqueue_host_notify (q_vq q))\<rparr>) w else w)
   }"

text \<open>
  A buffer that comes back holds what the device wrote to it, at most its length. An oversized
  report of the device loses the buffer.
\<close>

definition virtio_vsockdev_rxq_dequeue :: "vsock_world \<Rightarrow> (int \<times> uk_netbuf option \<times> vsock_world) option" where
  "virtio_vsockdev_rxq_dequeue w = do {
     let q = d_rx (w_dev w);
     (ret, buf, len, vq) \<leftarrow> virtqueue_buffer_dequeue (q_vq q);
     let w = put_rx (q\<lparr>q_vq := vq\<rparr>) w;
     if ret < 0 then Some (uint (q_nb_desc q), None, w)
     else do {
       buf \<leftarrow> buf;
       mem \<leftarrow> mem_write (nb_buf buf) (nb_data buf) (take (unat (nb_len buf)) (w_dma w (w_dma_count w)));
       let w = w\<lparr>w_dma_count := Suc (w_dma_count w)\<rparr>;
       if len > ucast (nb_len buf) then Some (- ENOSPC, None, w)
       else Some (ret, Some (buf\<lparr>nb_buf := mem, nb_len := ucast len\<rparr>), w)
     }
   }"

text \<open>\<open>virtqueue_intr_enable\<close> on the receive queue, with what the device does meanwhile.\<close>

definition rx_vq_intr_enable :: "vsock_world \<Rightarrow> int \<times> vsock_world" where
  "rx_vq_intr_enable w = (
     let q = d_rx (w_dev w); (rc, vq) = virtqueue_intr_enable (w_host w (w_time w)) (q_vq q) in
     (rc, (put_rx (q\<lparr>q_vq := vq\<rparr>) w)\<lparr>w_time := Suc (w_time w)\<rparr>))"

definition virtio_vsockdev_recv :: "vsock_world \<Rightarrow> (int \<times> uk_netbuf option \<times> vsock_world) option" where
  "virtio_vsockdev_recv w = do {
     (rc, pkt, w) \<leftarrow> virtio_vsockdev_rxq_dequeue w;
     if rc < 0 then Some (rc, pkt, w)
     else do {
       let status = (if pkt \<noteq> None then VIRTIO_VSOCKDEV_STATUS_SUCCESS else 0);
       (st, w) \<leftarrow> virtio_vsockdev_rxq_fillup (word_of_int (uint (q_nb_desc (d_rx (w_dev w))) - rc)) True w;
       let status = status OR st;
       if q_intr_enabled (d_rx (w_dev w)) AND VTVSOCK_INTR_USR_EN = 0
       then Some (status OR (if pkt \<noteq> None then VIRTIO_VSOCKDEV_STATUS_MORE else 0), pkt, w)
       else do {
         let (rc, w) = rx_vq_intr_enable w;
         if rc = 0 \<or> pkt \<noteq> None
         then Some (status OR (if rc = 1 then VIRTIO_VSOCKDEV_STATUS_MORE else 0), pkt, w)
         else do {
           (rc, pkt, w) \<leftarrow> virtio_vsockdev_rxq_dequeue w;
           if rc < 0 then Some (rc, pkt, w)
           else do {
             let status = status OR VIRTIO_VSOCKDEV_STATUS_SUCCESS;
             (st, w) \<leftarrow> virtio_vsockdev_rxq_fillup
                          (word_of_int (uint (q_nb_desc (d_rx (w_dev w))) - rc)) True w;
             let status = status OR st;
             let (rc, w) = rx_vq_intr_enable w;
             Some (status OR (if rc = 1 then VIRTIO_VSOCKDEV_STATUS_MORE else 0), pkt, w)
           }
         }
       }
     }
   }"

definition virtio_vsockdev_rx_intr_enable :: "vsock_world \<Rightarrow> int \<times> vsock_world" where
  "virtio_vsockdev_rx_intr_enable w = (
     let q = d_rx (w_dev w) in
     if q_intr_enabled q AND VTVSOCK_INTR_EN \<noteq> 0 then (0, w)
     else let (rc, w) = rx_vq_intr_enable (put_rx (q\<lparr>q_intr_enabled := VTVSOCK_INTR_USR_EN\<rparr>) w);
              q = d_rx (w_dev w) in
       (rc, if rc = 0 then put_rx (q\<lparr>q_intr_enabled := q_intr_enabled q OR VTVSOCK_INTR_EN\<rparr>) w else w))"

definition virtio_vsockdev_rx_intr_disable :: "vsock_world \<Rightarrow> vsock_world" where
  "virtio_vsockdev_rx_intr_disable w = (
     let q = d_rx (w_dev w) in
     put_rx (q\<lparr>q_vq := virtqueue_intr_disable (q_vq q),
              q_intr_enabled := q_intr_enabled q AND NOT (VTVSOCK_INTR_USR_EN OR VTVSOCK_INTR_EN)\<rparr>) w)"

text \<open>The interrupt handler: it only masks the queue; the dispatcher thread is woken up.\<close>

definition virtio_vsockdev_recv_event :: "vsock_world \<Rightarrow> int \<times> vsock_world" where
  "virtio_vsockdev_recv_event w = (
     let q = d_rx (w_dev w) in
     (1, put_rx (q\<lparr>q_vq := virtqueue_intr_disable (q_vq q),
                 q_intr_enabled := q_intr_enabled q AND NOT VTVSOCK_INTR_EN\<rparr>) w))"

section \<open>The event queue\<close>

definition sizeof_event :: nat where "sizeof_event = 4"
definition VIRTIO_VSOCK_EVENT_TRANSPORT_RESET :: u32 where "VIRTIO_VSOCK_EVENT_TRANSPORT_RESET = 0"

definition virtio_vsockdev_evq_enqueue :: "nat \<Rightarrow> vsock_world \<Rightarrow> (int \<times> vsock_world) option" where
  "virtio_vsockdev_evq_enqueue ev w = (
     let q = d_ev (w_dev w) in
     if virtqueue_is_full (q_vq q) then Some (- ENOSPC, w)
     else do {
       (rc, sg) \<leftarrow> uk_sglist_append (w_v2p w) (uk_sglist_reset (q_sg q)) ev sizeof_event;
       let q = q\<lparr>q_sg := sg\<rparr>;
       if rc \<noteq> 0 then Some (rc, put_ev q w)
       else do {
         (rc, vq) \<leftarrow> virtqueue_buffer_enqueue (q_vq q) ev sg 0 (sg_nseg sg);
         Some (rc, put_ev (q\<lparr>q_vq := vq\<rparr>) w)
       }
     })"

fun evq_fillup_loop :: "nat \<Rightarrow> nat \<Rightarrow> vsock_world \<Rightarrow> (nat \<times> int \<times> vsock_world) option" where
  "evq_fillup_loop 0 i w = Some (i, 0, w)"
| "evq_fillup_loop (Suc todo) i w = (
     let (ev, a) = uk_malloc (w_alloc w) sizeof_event; w = w\<lparr>w_alloc := a\<rparr> in
     case ev of
       None \<Rightarrow> Some (i, VIRTIO_VSOCKDEV_STATUS_UNDERRUN, w)
     | Some (ev, _) \<Rightarrow> do {
         (rc, w) \<leftarrow> virtio_vsockdev_evq_enqueue ev w;
         if rc < 0 then Some (i, 0, w)
         else evq_fillup_loop todo (Suc i) w
       })"

definition virtio_vsockdev_evq_fillup :: "u16 \<Rightarrow> bool \<Rightarrow> vsock_world \<Rightarrow> (int \<times> vsock_world) option" where
  "virtio_vsockdev_evq_fillup nb_desc notify w = do {
     (i, status, w) \<leftarrow> evq_fillup_loop (unat nb_desc) 0 w;
     let q = d_ev (w_dev w);
     Some (status, if notify \<and> i \<noteq> 0 then put_ev (q\<lparr>q_vq := snd (virtqueue_host_notify (q_vq q))\<rparr>) w else w)
   }"

text \<open>The result has the identifier that the device wrote to the event buffer.\<close>

definition virtio_vsockdev_evq_dequeue :: "vsock_world \<Rightarrow> (int \<times> u32 option \<times> vsock_world) option" where
  "virtio_vsockdev_evq_dequeue w = do {
     let q = d_ev (w_dev w);
     (ret, buf, len, vq) \<leftarrow> virtqueue_buffer_dequeue (q_vq q);
     let w = put_ev (q\<lparr>q_vq := vq\<rparr>) w;
     if ret < 0 then Some (uint (q_nb_desc q), None, w)
     else do {
       buf \<leftarrow> buf;
       let ev_id = of_le (take sizeof_event (w_dma w (w_dma_count w)));
       let w = w\<lparr>w_dma_count := Suc (w_dma_count w)\<rparr>;
       if unat len \<noteq> sizeof_event then Some (- ENOSPC, None, w)
       else Some (ret, Some ev_id, w)
     }
   }"

definition ev_vq_intr_enable :: "vsock_world \<Rightarrow> int \<times> vsock_world" where
  "ev_vq_intr_enable w = (
     let q = d_ev (w_dev w); (rc, vq) = virtqueue_intr_enable (w_host_ev w (w_time w)) (q_vq q) in
     (rc, (put_ev (q\<lparr>q_vq := vq\<rparr>) w)\<lparr>w_time := Suc (w_time w)\<rparr>))"

definition virtio_vsockdev_evq_recv :: "vsock_world \<Rightarrow> (int \<times> u32 option \<times> vsock_world) option" where
  "virtio_vsockdev_evq_recv w = do {
     (rc, event, w) \<leftarrow> virtio_vsockdev_evq_dequeue w;
     if rc < 0 then Some (rc, event, w)
     else do {
       let status = (if event \<noteq> None then VIRTIO_VSOCKDEV_STATUS_SUCCESS else 0);
       (st, w) \<leftarrow> virtio_vsockdev_evq_fillup (word_of_int (uint (q_nb_desc (d_ev (w_dev w))) - rc)) True w;
       let status = status OR st;
       if q_intr_enabled (d_ev (w_dev w)) AND VTVSOCK_INTR_USR_EN = 0
       then Some (status OR (if event \<noteq> None then VIRTIO_VSOCKDEV_STATUS_MORE else 0), event, w)
       else do {
         let (rc, w) = ev_vq_intr_enable w;
         if rc = 0 \<or> event \<noteq> None
         then Some (status OR (if rc = 1 then VIRTIO_VSOCKDEV_STATUS_MORE else 0), event, w)
         else do {
           (rc, event, w) \<leftarrow> virtio_vsockdev_evq_dequeue w;
           if rc < 0 then Some (rc, event, w)
           else do {
             let status = status OR VIRTIO_VSOCKDEV_STATUS_SUCCESS;
             (st, w) \<leftarrow> virtio_vsockdev_evq_fillup
                          (word_of_int (uint (q_nb_desc (d_ev (w_dev w))) - rc)) True w;
             let status = status OR st;
             let (rc, w) = ev_vq_intr_enable w;
             Some (status OR (if rc = 1 then VIRTIO_VSOCKDEV_STATUS_MORE else 0), event, w)
           }
         }
       }
     }
   }"

definition virtio_vsockdev_evq_event :: "vsock_world \<Rightarrow> int \<times> vsock_world" where
  "virtio_vsockdev_evq_event w = (
     let q = d_ev (w_dev w) in
     (1, put_ev (q\<lparr>q_vq := virtqueue_intr_disable (q_vq q),
                 q_intr_enabled := q_intr_enabled q AND NOT VTVSOCK_INTR_EN\<rparr>) w))"

definition virtio_vsockdev_evq_intr_enable :: "vsock_world \<Rightarrow> int \<times> vsock_world" where
  "virtio_vsockdev_evq_intr_enable w = (
     let q = d_ev (w_dev w) in
     if q_intr_enabled q AND VTVSOCK_INTR_EN \<noteq> 0 then (0, w)
     else let (rc, w) = ev_vq_intr_enable (put_ev (q\<lparr>q_intr_enabled := VTVSOCK_INTR_USR_EN\<rparr>) w);
              q = d_ev (w_dev w) in
       (rc, if rc = 0 then put_ev (q\<lparr>q_intr_enabled := q_intr_enabled q OR VTVSOCK_INTR_EN\<rparr>) w else w))"

definition virtio_vsockdev_evq_intr_disable :: "vsock_world \<Rightarrow> vsock_world" where
  "virtio_vsockdev_evq_intr_disable w = (
     let q = d_ev (w_dev w) in
     put_ev (q\<lparr>q_vq := virtqueue_intr_disable (q_vq q),
              q_intr_enabled := q_intr_enabled q AND NOT (VTVSOCK_INTR_USR_EN OR VTVSOCK_INTR_EN)\<rparr>) w)"

section \<open>Dispatch of packets\<close>

definition sizeof_accept_entry :: nat where "sizeof_accept_entry = 24"

definition virtio_vsockdev_work_conn_request ::
    "nat \<Rightarrow> virtio_vsock_hdr \<Rightarrow> vsock_world \<Rightarrow> (int \<times> vsock_world) option" where
  "virtio_vsockdev_work_conn_request sid hdr w = (
     let (mem, a) = uk_malloc (w_alloc w) sizeof_accept_entry; w = w\<lparr>w_alloc := a\<rparr> in
     case mem of
       None \<Rightarrow> Some (- ENOMEM, w)
     | Some _ \<Rightarrow> do {
         let accept_entry = \<lparr>ae_peer = \<lparr>a_cid = ucast (h_src_cid hdr), a_port = h_src_port hdr\<rparr>,
               ae_peer_buf_alloc = h_buf_alloc hdr, ae_peer_fwd_count = h_fwd_cnt hdr\<rparr>;
         (rc, w) \<leftarrow> uk_vsock_conn_request sid accept_entry w;
         if rc \<noteq> 0 then do {
           w \<leftarrow> virtio_vsockdev_reject_conn sid accept_entry w;
           Some (if rc = - ECONNREFUSED then 0 else rc, w)
         }
         else Some (0, w)
       })"

text \<open>
  The credit update of \<open>virtio_vsockdev_work_rx\<close>. The second condition compares the operation with
  the value of the socket state \<open>LISTENING\<close>, as the code has it.
\<close>

definition update_credit :: "nat \<Rightarrow> virtio_vsock_hdr \<Rightarrow> vsock_world \<Rightarrow> vsock_world option" where
  "update_credit sid hdr w = (
     if h_op hdr \<noteq> VIRTIO_VSOCK_OP_REQUEST \<and> h_op hdr \<noteq> state_value UK_VSOCK_STATE_LISTENING
     then do {
       w \<leftarrow> sock_upd sid (\<lambda>s. s\<lparr>v_peer_buf_alloc := h_buf_alloc hdr, v_peer_fwd_count := h_fwd_cnt hdr\<rparr>) w;
       vs \<leftarrow> sock_get sid w;
       uk_vsock_notify_writable sid (virtio_vsock_peer_rx_free vs > 0) w
     }
     else Some w)"

text \<open>The switch over the operation; the result is the value of \<open>rc\<close> after it.\<close>

definition dispatch_op ::
    "nat \<Rightarrow> virtio_vsock_hdr \<Rightarrow> uk_netbuf \<Rightarrow> vsock_world \<Rightarrow> (int \<times> vsock_world) option" where
  "dispatch_op sid hdr pkt w = (
     if h_op hdr = VIRTIO_VSOCK_OP_REQUEST then Some (1, w)
     else if h_op hdr = VIRTIO_VSOCK_OP_RESPONSE then uk_vsock_conn_response virtio_vsockdev_ops sid w
     else if h_op hdr = VIRTIO_VSOCK_OP_RST then uk_vsock_conn_reset virtio_vsockdev_ops sid w
     else if h_op hdr = VIRTIO_VSOCK_OP_SHUTDOWN then
       uk_vsock_conn_shutdown virtio_vsockdev_ops sid
         (h_flags hdr AND VIRTIO_VSOCK_SHUTDOWN_F_RECEIVE \<noteq> 0)
         (h_flags hdr AND VIRTIO_VSOCK_SHUTDOWN_F_SEND \<noteq> 0) w
     else if h_op hdr = VIRTIO_VSOCK_OP_RW then uk_vsock_rx_payload sid [pkt] w
     else if h_op hdr = VIRTIO_VSOCK_OP_CREDIT_REQUEST then virtio_vsock_work_credit_request sid w
     else Some (1, w))"

text \<open>
  The part of \<open>virtio_vsockdev_work_rx\<close> from the checks of the header to the label \<open>out_free\<close>, for a
  packet whose header is stripped.
\<close>

definition handle_packet ::
    "virtio_vsock_hdr \<Rightarrow> uk_netbuf \<Rightarrow> vsock_world \<Rightarrow> (int \<times> vsock_world) option" where
  "handle_packet hdr pkt w = (
     if unat (h_len hdr) > unat (nb_len pkt) then Some (1, w)
     else if h_dst_cid hdr \<noteq> ucast (d_cid (w_dev w)) then Some (1, w)
     else if h_type hdr \<noteq> VIRTIO_VSOCK_TYPE_STREAM \<and> h_type hdr \<noteq> VIRTIO_VSOCK_TYPE_SEQPACKET
     then Some (1, w)
     else
       let socket_type = (if h_type hdr = VIRTIO_VSOCK_TYPE_STREAM then SOCK_STREAM else SOCK_SEQPACKET) in
       case uk_vsock_lookup socket_type
              \<lparr>a_cid = ucast (h_dst_cid hdr), a_port = h_dst_port hdr\<rparr>
              \<lparr>a_cid = ucast (h_src_cid hdr), a_port = h_src_port hdr\<rparr> w of
         None \<Rightarrow> Some (1, w)
       | Some sid \<Rightarrow> do {
           w \<leftarrow> update_credit sid hdr w;
           sock \<leftarrow> sock_get sid w;
           if s_state sock = UK_VSOCK_STATE_LISTENING
           then (if h_op hdr = VIRTIO_VSOCK_OP_REQUEST
                 then virtio_vsockdev_work_conn_request sid hdr w
                 else Some (1, w))
           else dispatch_op sid hdr pkt w
         })"

definition virtio_vsockdev_work_rx :: "vsock_world \<Rightarrow> (int \<times> vsock_world) option" where
  "virtio_vsockdev_work_rx w = do {
     (status, pkt, w) \<leftarrow> virtio_vsockdev_recv w;
     if status < 0 then Some (status, w)
     else if status AND VIRTIO_VSOCKDEV_STATUS_SUCCESS = 0 then Some (0, w)
     else do {
       pkt \<leftarrow> pkt;
       hdr_bytes \<leftarrow> mem_read (nb_buf pkt) (nb_data pkt) sizeof_hdr;
       let (rc, pkt) = uk_netbuf_header pkt (- of_nat sizeof_hdr);
       uk_assert (rc = 1);
       (rc, w) \<leftarrow> handle_packet (decode_hdr hdr_bytes) pkt w;
       w \<leftarrow> drv_netbuf_free pkt w;
       Some (if rc < 0 then rc else 1, w)
     }
   }"

section \<open>Transport reset\<close>

definition uk_vsockdev_transport_reset :: "uk_vsockdev_ops \<Rightarrow> vsock_world \<Rightarrow> (int \<times> vsock_world) option" where
  "uk_vsockdev_transport_reset ops w = do {
     (rc, w) \<leftarrow> uk_vsockets_term ops w;
     if rc < 0 then Some (rc, w)
     else if w_pm_sysmigration w < 0 then Some (w_pm_sysmigration w, w)
     else Some (0, w)
   }"

definition virtio_vsockdev_work_evq :: "vsock_world \<Rightarrow> (int \<times> vsock_world) option" where
  "virtio_vsockdev_work_evq w = do {
     (status, ev, w) \<leftarrow> virtio_vsockdev_evq_recv w;
     if status < 0 then Some (status, w)
     else if status AND VIRTIO_VSOCKDEV_STATUS_SUCCESS = 0 then Some (0, w)
     else do {
       ev_id \<leftarrow> ev;
       (rc, w) \<leftarrow> (if ev_id = VIRTIO_VSOCK_EVENT_TRANSPORT_RESET
                   then uk_vsockdev_transport_reset virtio_vsockdev_ops w
                   else Some (0, w));
       Some (if rc < 0 then rc else 1, w)
     }
   }"

section \<open>Work loops\<close>

definition work_batch_size :: nat where "work_batch_size = 128"

text \<open>The inner loop of \<open>virtio_vsockdev_rx_work\<close>; a second failure after a yield does not count.\<close>

partial_function (option) rx_work_batch :: "nat \<Rightarrow> vsock_world \<Rightarrow> vsock_world option" where
  "rx_work_batch cnt w = (
     if cnt < work_batch_size
     then virtio_vsockdev_work_rx w \<bind> (\<lambda>r.
       if fst r < 0
       then if fst r \<noteq> - ENOMEM then Some (snd r)
            else virtio_vsockdev_work_rx (uk_sched_yield (snd r)) \<bind> (\<lambda>r.
              if fst r < 0 then rx_work_batch cnt (snd r) else rx_work_batch (Suc cnt) (snd r))
       else if fst r = 0 then Some (snd r)
       else rx_work_batch (Suc cnt) (snd r))
     else Some w)"

partial_function (option) rx_work_loop :: "vsock_world \<Rightarrow> vsock_world option" where
  "rx_work_loop w = rx_work_batch 0 w \<bind> (\<lambda>w.
     if fst (virtio_vsockdev_rx_intr_enable w) \<noteq> 0
     then rx_work_loop (snd (virtio_vsockdev_rx_intr_enable w))
     else Some (snd (virtio_vsockdev_rx_intr_enable w)))"

definition virtio_vsockdev_rx_work :: "vsock_world \<Rightarrow> vsock_world option" where
  "virtio_vsockdev_rx_work w = rx_work_loop (virtio_vsockdev_rx_intr_disable w)"

partial_function (option) ev_work_batch :: "nat \<Rightarrow> vsock_world \<Rightarrow> vsock_world option" where
  "ev_work_batch cnt w = (
     if cnt < work_batch_size
     then virtio_vsockdev_work_evq w \<bind> (\<lambda>r.
       if fst r < 0
       then if fst r \<noteq> - ENOMEM then Some (snd r)
            else virtio_vsockdev_work_evq (uk_sched_yield (snd r)) \<bind> (\<lambda>r.
              if fst r < 0 then ev_work_batch cnt (snd r) else ev_work_batch (Suc cnt) (snd r))
       else if fst r = 0 then Some (snd r)
       else ev_work_batch (Suc cnt) (snd r))
     else Some w)"

partial_function (option) ev_work_loop :: "vsock_world \<Rightarrow> vsock_world option" where
  "ev_work_loop w = ev_work_batch 0 w \<bind> (\<lambda>w.
     if fst (virtio_vsockdev_evq_intr_enable w) \<noteq> 0
     then ev_work_loop (snd (virtio_vsockdev_evq_intr_enable w))
     else Some (snd (virtio_vsockdev_evq_intr_enable w)))"

definition virtio_vsockdev_ev_work :: "vsock_world \<Rightarrow> vsock_world option" where
  "virtio_vsockdev_ev_work w = ev_work_loop (virtio_vsockdev_evq_intr_disable w)"

end
