(* ===== verification/Virtio_Rx_Inv.thy ===== *)
theory Virtio_Rx_Inv
  imports Virtio_Vsock_Rx
begin

text \<open>
  The receive side keeps the invariant of the system: taking packets and events from the device
  changes nothing of the socket layer, the packets that are taken are well formed, and every packet,
  whatever its header says, leaves the sockets consistent.
\<close>

section \<open>What reception leaves as it is\<close>

text \<open>Receiving changes the receive queue, and keeps it a queue of well-formed buffers.\<close>

definition rx_frame :: "vsock_world \<Rightarrow> vsock_world \<Rightarrow> bool" where
  "rx_frame w w' \<longleftrightarrow> (\<exists>q. core w' = core (put_rx q w)) \<and> (rx_ok w \<longrightarrow> rx_ok w')"

lemma core_put_rx: "core (put_rx q (put_rx q' w)) = core (put_rx q w)"
  by (simp add: core_def put_rx_def)

lemma core_put_rx_cong: "core w' = core w \<Longrightarrow> core (put_rx q w') = core (put_rx q w)"
  by (simp add: core_def put_rx_def)

lemma rx_frame_refl: "rx_frame w w"
proof -
  have "core w = core (put_rx (d_rx (w_dev w)) w)" by (simp add: core_def put_rx_def)
  then show ?thesis unfolding rx_frame_def by blast
qed

lemma rx_frame_trans [trans]:
  assumes "rx_frame w1 w2" and "rx_frame w2 w3"
  shows "rx_frame w1 w3"
proof -
  obtain q q' where q: "core w2 = core (put_rx q w1)" "core w3 = core (put_rx q' w2)"
    using assms by (auto simp: rx_frame_def)
  have "core w3 = core (put_rx q' w1)" using q(2) core_put_rx_cong [OF q(1)] by (simp add: core_put_rx)
  then show ?thesis using assms by (auto simp: rx_frame_def)
qed

lemma rx_frame_core: "core w' = core w \<Longrightarrow> rx_frame w w'"
proof -
  assume c: "core w' = core w"
  have "core w' = core (put_rx (d_rx (w_dev w)) w)" using c by (simp add: core_def put_rx_def)
  moreover have "rx_ok w' = rx_ok w" using core_fields(8,9) [OF c] by (rule rx_ok_cong)
  ultimately show ?thesis unfolding rx_frame_def by blast
qed

lemma rx_frame_put:
  assumes "rx_ok w \<Longrightarrow> vq_holds wf_netbuf (q_vq q)"
  shows "rx_frame w (put_rx q w)"
  using assms unfolding rx_frame_def rx_ok_def by (auto simp: put_rx_def)

lemma rx_frame_inv:
  assumes "rx_frame w w'" and inv: "sock_inv w"
  shows "sock_inv w'"
proof -
  obtain q where q: "core w' = core (put_rx q w)" using assms(1) by (auto simp: rx_frame_def)
  have ok: "rx_ok w'" using assms sock_invD(5) by (auto simp: rx_frame_def)
  then have "rx_ok (put_rx q w)" using rx_ok_cong [OF core_fields(8,9) [OF q]] by simp
  then have "sock_inv (put_rx q w)" using inv
    by (simp add: sock_inv_def table_inv_def table_ids_def key_of_def put_rx_def)
  then show ?thesis by (rule sock_inv_core [OF q])
qed

lemma rx_frame_update:
  "rx_frame w w' \<Longrightarrow> rx_frame w (w'\<lparr>w_alloc := a\<rparr>)" "rx_frame w w' \<Longrightarrow> rx_frame w (w'\<lparr>w_live_netbufs := l\<rparr>)"
  "rx_frame w w' \<Longrightarrow> rx_frame w (w'\<lparr>w_time := t\<rparr>)" "rx_frame w w' \<Longrightarrow> rx_frame w (w'\<lparr>w_dma_count := c\<rparr>)"
  by (erule rx_frame_trans, rule rx_frame_core, simp add: core_def)+

section \<open>The receive queue\<close>

lemma rx_netbuf_wf:
  assumes "drv_netbuf_alloc n 0 w = Some (Some p, w')"
  shows "wf_netbuf (p\<lparr>nb_len := of_nat (length (nb_buf p))\<rparr>)"
proof -
  have "nb_data p = 0"
    using assms by (auto simp: drv_netbuf_alloc_def uk_netbuf_alloc_buf_def uk_netbuf_prepare_buf_def
        uk_netbuf_init_indir_def returns Let_def split: if_splits option.splits prod.splits)
  then show ?thesis by (simp add: wf_netbuf_def unat_of_nat)
qed

lemma tx_rx_frame: "tx_frame w w' \<Longrightarrow> rx_frame w w'"
  by (rule rx_frame_core) (rule tx_frame_fields)

lemma rxq_enqueue_frame:
  assumes run: "virtio_vsockdev_rxq_enqueue pkt w = Some (rc, w')" and pkt: "wf_netbuf pkt"
  shows "rx_frame w w'"
proof (cases "virtqueue_is_full (q_vq (d_rx (w_dev w)))")
  case True
  with run show ?thesis by (simp add: virtio_vsockdev_rxq_enqueue_def Let_def rx_frame_refl)
next
  case False
  let ?q = "d_rx (w_dev w)"
  obtain rc1 sg where sg: "uk_sglist_append (w_v2p w) (uk_sglist_reset (q_sg ?q)) (nb_base pkt + nb_data pkt)
      (unat (nb_len pkt)) = Some (rc1, sg)"
    using run False by (auto simp: virtio_vsockdev_rxq_enqueue_def Let_def returns)
  show ?thesis
  proof (cases "rc1 < 0")
    case True
    with run False sg show ?thesis
      by (auto simp: virtio_vsockdev_rxq_enqueue_def Let_def rx_ok_def intro!: rx_frame_put)
  next
    case ok: False
    with run False sg obtain vq where e: "virtqueue_buffer_enqueue (q_vq ?q) pkt sg 0 (sg_nseg sg) = Some (rc, vq)"
      and w': "w' = put_rx (?q\<lparr>q_sg := sg, q_vq := vq\<rparr>) w"
      by (auto simp: virtio_vsockdev_rxq_enqueue_def Let_def returns)
    show ?thesis unfolding w'
      by (rule rx_frame_put) (use vq_holds_enqueue [where P = wf_netbuf, OF _ pkt e] in \<open>simp add: rx_ok_def\<close>)
  qed
qed

lemma rxq_fillup_loop_frame: "rxq_fillup_loop todo i w = Some (j, st, w') \<Longrightarrow> rx_frame w w'"
proof (induction todo i w rule: rxq_fillup_loop.induct)
  case (1 i w)
  then show ?case by (simp add: rx_frame_refl)
next
  case (2 todo i w)
  obtain pkt w1 where a: "drv_netbuf_alloc PAGE_SIZE 0 w = Some (pkt, w1)"
    using 2(2) by (auto simp: returns)
  note f = tx_rx_frame [OF netbuf_alloc_frame [OF a]]
  show ?case
  proof (cases pkt)
    case None
    with 2(2) a f show ?thesis by simp
  next
    case (Some p)
    let ?p = "p\<lparr>nb_len := of_nat (length (nb_buf p))\<rparr>"
    obtain rc w2 where e: "virtio_vsockdev_rxq_enqueue ?p w1 = Some (rc, w2)"
      using 2(2) a Some by (auto simp: returns Let_def)
    have f2: "rx_frame w w2"
      using rx_frame_trans [OF f rxq_enqueue_frame [OF e rx_netbuf_wf]] a Some by simp
    show ?thesis
    proof (cases "rc < 0")
      case True
      with 2(2) a Some e have "drv_netbuf_free ?p w2 = Some w'" by (auto simp: returns Let_def)
      from rx_frame_trans [OF f2 tx_rx_frame [OF netbuf_free_frame [OF this]]] show ?thesis .
    next
      case False
      with 2(2) a Some e have "rxq_fillup_loop todo (Suc i) w2 = Some (j, st, w')" by (simp add: Let_def)
      from 2(1) [OF a refl Some refl e refl False this] show ?thesis by (rule rx_frame_trans [OF f2])
    qed
  qed
qed

lemma rxq_fillup_frame:
  assumes "virtio_vsockdev_rxq_fillup n notify w = Some (st, w')"
  shows "rx_frame w w'"
proof -
  obtain i w1 where l: "rxq_fillup_loop (unat n) 0 w = Some (i, st, w1)"
    and w': "w' = w1 \<or> w' = put_rx ((d_rx (w_dev w1))\<lparr>q_vq := snd (virtqueue_host_notify (q_vq (d_rx (w_dev w1))))\<rparr>) w1"
    using assms by (auto simp: virtio_vsockdev_rxq_fillup_def returns Let_def split: if_splits)
  have "rx_frame w1 w'" using w' by (auto intro!: rx_frame_refl rx_frame_put simp: rx_ok_def)
  then show ?thesis by (rule rx_frame_trans [OF rxq_fillup_loop_frame [OF l]])
qed

text \<open>The packets that are taken are well formed.\<close>

definition rx_result :: "vsock_world \<Rightarrow> uk_netbuf option \<Rightarrow> vsock_world \<Rightarrow> bool" where
  "rx_result w out w' \<longleftrightarrow> rx_frame w w' \<and> (rx_ok w \<longrightarrow> (\<forall>p. out = Some p \<longrightarrow> wf_netbuf p))"

lemma received_wf:
  assumes "wf_netbuf p" and "mem_write (nb_buf p) i xs = Some mem" and "\<not> len > (ucast (nb_len p) :: u32)"
  shows "wf_netbuf (p\<lparr>nb_buf := mem, nb_len := ucast len\<rparr>)"
proof -
  have "unat len \<le> unat (ucast (nb_len p) :: u32)" using assms(3) by (simp add: word_less_nat_alt)
  also have "\<dots> \<le> unat (nb_len p)" by (rule unat_ucast_le)
  finally have "unat len \<le> unat (nb_len p)" .
  then have "unat (ucast len :: u16) \<le> unat (nb_len p)" using unat_ucast_le [of len] by (rule order_trans [rotated])
  then show ?thesis using assms(1) mem_write_length [OF assms(2)] by (simp add: wf_netbuf_def)
qed

lemma rxq_dequeue_result:
  assumes "virtio_vsockdev_rxq_dequeue w = Some (rc, out, w')"
  shows "rx_result w out w'"
proof -
  let ?q = "d_rx (w_dev w)"
  obtain ret buf len vq where d: "virtqueue_buffer_dequeue (q_vq ?q) = Some (ret, buf, len, vq)"
    using assms by (auto simp: virtio_vsockdev_rxq_dequeue_def returns Let_def)
  have f: "rx_frame w (put_rx (?q\<lparr>q_vq := vq\<rparr>) w)"
    using vq_holds_dequeue(1) [where P = wf_netbuf, OF _ d] by (intro rx_frame_put) (simp add: rx_ok_def)
  show ?thesis
  proof (cases "ret < 0")
    case True
    with assms d f show ?thesis by (auto simp: virtio_vsockdev_rxq_dequeue_def Let_def rx_result_def)
  next
    case False
    then obtain p mem where p: "buf = Some p"
      and m: "mem_write (nb_buf p) (nb_data p) (take (unat (nb_len p)) (w_dma w (w_dma_count w))) = Some mem"
      and w': "w' = (put_rx (?q\<lparr>q_vq := vq\<rparr>) w)\<lparr>w_dma_count := Suc (w_dma_count w)\<rparr>"
      and out: "out = (if len > ucast (nb_len p) then None else Some (p\<lparr>nb_buf := mem, nb_len := ucast len\<rparr>))"
      using assms d
      by (auto simp: virtio_vsockdev_rxq_dequeue_def returns Let_def put_rx_def split: if_splits)
    have "rx_frame w w'" unfolding w' using f by (rule rx_frame_update)
    moreover have "wf_netbuf p" if "rx_ok w" using vq_holds_dequeue(2) [where P = wf_netbuf, OF _ d p] that by (simp add: rx_ok_def)
    ultimately show ?thesis using received_wf [OF _ m] out by (auto simp: rx_result_def split: if_splits)
  qed
qed

lemma rx_intr_enable_frame: "rx_frame w (snd (rx_vq_intr_enable w))"
proof -
  let ?q = "d_rx (w_dev w)" and ?e = "virtqueue_intr_enable (w_host w (w_time w)) (q_vq (d_rx (w_dev w)))"
  have "rx_frame w (put_rx (?q\<lparr>q_vq := snd ?e\<rparr>) w)"
    by (intro rx_frame_put) (simp add: rx_ok_def vq_holds_intr_enable)
  then show ?thesis by (simp add: rx_vq_intr_enable_def case_prod_unfold Let_def rx_frame_update)
qed

lemma rx_result_trans: "rx_frame w w1 \<Longrightarrow> rx_result w1 out w2 \<Longrightarrow> rx_result w out w2"
  unfolding rx_result_def using rx_frame_trans [of w w1 w2] by (auto simp: rx_frame_def)

lemma rx_result_then: "rx_result w out w1 \<Longrightarrow> rx_frame w1 w2 \<Longrightarrow> rx_result w out w2"
  unfolding rx_result_def using rx_frame_trans [of w w1 w2] by auto

lemma recv_result:
  assumes "virtio_vsockdev_recv w = Some (st, out, w')"
  shows "rx_result w out w'"
proof -
  obtain rc pkt w1 where d: "virtio_vsockdev_rxq_dequeue w = Some (rc, pkt, w1)"
    using assms by (auto simp: virtio_vsockdev_recv_def returns)
  note r = rxq_dequeue_result [OF d]
  show ?thesis
  proof (cases "rc < 0")
    case True
    with assms d r show ?thesis by (simp add: virtio_vsockdev_recv_def)
  next
    case False
    then obtain st2 w2 where f: "virtio_vsockdev_rxq_fillup (word_of_int (uint (q_nb_desc (d_rx (w_dev w1))) - rc)) True w1
        = Some (st2, w2)"
      using assms d by (auto simp: virtio_vsockdev_recv_def returns Let_def)
    note r2 = rx_result_then [OF r rxq_fillup_frame [OF f]]
    let ?w3 = "snd (rx_vq_intr_enable w2)" and ?e = "fst (rx_vq_intr_enable w2)"
    note r3 = rx_result_then [OF r2 rx_intr_enable_frame]
    have cont: "(if q_intr_enabled (d_rx (w_dev w2)) AND VTVSOCK_INTR_USR_EN = 0 then out = pkt \<and> w' = w2
       else if ?e = 0 \<or> pkt \<noteq> None then out = pkt \<and> w' = ?w3
       else \<exists>rc4 w4. virtio_vsockdev_rxq_dequeue ?w3 = Some (rc4, out, w4) \<and> (if rc4 < 0 then w' = w4
         else \<exists>st5 w5. virtio_vsockdev_rxq_fillup (word_of_int (uint (q_nb_desc (d_rx (w_dev w4))) - rc4)) True w4
           = Some (st5, w5) \<and> w' = snd (rx_vq_intr_enable w5)))"
      using assms d f False
      by (auto simp: virtio_vsockdev_recv_def returns Let_def case_prod_unfold split: if_splits)
    show ?thesis
    proof (cases "q_intr_enabled (d_rx (w_dev w2)) AND VTVSOCK_INTR_USR_EN = 0 \<or> ?e = 0 \<or> pkt \<noteq> None")
      case True
      with cont r2 r3 show ?thesis by (auto split: if_splits)
    next
      case False
      with cont obtain rc4 w4 where d4: "virtio_vsockdev_rxq_dequeue ?w3 = Some (rc4, out, w4)"
        and c4: "if rc4 < 0 then w' = w4
         else \<exists>st5 w5. virtio_vsockdev_rxq_fillup (word_of_int (uint (q_nb_desc (d_rx (w_dev w4))) - rc4)) True w4
           = Some (st5, w5) \<and> w' = snd (rx_vq_intr_enable w5)" by auto
      have "rx_frame w ?w3" using r3 by (simp add: rx_result_def)
      then have r4: "rx_result w out w4" by (rule rx_result_trans [OF _ rxq_dequeue_result [OF d4]])
      show ?thesis using c4 r4
        by (auto split: if_splits dest!: rxq_fillup_frame intro: rx_result_then rx_intr_enable_frame)
    qed
  qed
qed

section \<open>Dispatch\<close>

lemma tx_frame_inv: "tx_frame w w' \<Longrightarrow> sock_inv w \<Longrightarrow> sock_inv w'"
  using tx_frame_fields(4) sock_inv_core by blast

lemma sock_inv_alloc [simp]: "sock_inv (w\<lparr>w_alloc := a\<rparr>) = sock_inv w"
  using sock_inv_core [of "w\<lparr>w_alloc := a\<rparr>" w] sock_inv_core [of w "w\<lparr>w_alloc := a\<rparr>"] by (auto simp: core_def)

lemma update_credit_inv:
  assumes inv: "sock_inv w" and run: "update_credit sid hdr w = Some w'"
  shows "sock_inv w'"
proof (cases "h_op hdr \<noteq> VIRTIO_VSOCK_OP_REQUEST \<and> h_op hdr \<noteq> state_value UK_VSOCK_STATE_LISTENING")
  case True
  with run obtain s w1 b where s: "w_socks w sid = Some s"
    and w1: "w1 = sock_put sid (s\<lparr>v_peer_buf_alloc := h_buf_alloc hdr, v_peer_fwd_count := h_fwd_cnt hdr\<rparr>) w"
    and n: "uk_vsock_notify_writable sid b w1 = Some w'"
    by (auto simp: update_credit_def returns)
  have "sock_inv w1" unfolding w1
    by (rule inv_flags [OF inv s]) (simp_all add: uk_vsock_sockaddr_key_def)
  moreover obtain e where "w' = w1\<lparr>w_events := e\<rparr>" by (rule notify_writable_inv [OF n])
  ultimately show ?thesis by simp
next
  case False
  with run inv show ?thesis by (auto simp: update_credit_def)
qed

lemma work_conn_request_inv:
  assumes inv: "sock_inv w" and run: "virtio_vsockdev_work_conn_request sid hdr w = Some (rc, w')"
  shows "sock_inv w'"
proof -
  obtain mem a where m: "uk_malloc (w_alloc w) sizeof_accept_entry = (mem, a)" by fastforce
  show ?thesis
  proof (cases mem)
    case None
    with m run inv show ?thesis by (auto simp: virtio_vsockdev_work_conn_request_def)
  next
    case (Some x)
    with m run obtain e rc1 w1 where r: "uk_vsock_conn_request sid e (w\<lparr>w_alloc := a\<rparr>) = Some (rc1, w1)"
      and w': "if rc1 \<noteq> 0 then virtio_vsockdev_reject_conn sid e w1 = Some w' else w' = w1"
      by (auto simp: virtio_vsockdev_work_conn_request_def returns Let_def split: if_splits)
    have "sock_inv w1" by (rule conn_request_inv [OF _ r]) (use inv in simp)
    then show ?thesis using w' by (auto split: if_splits dest!: reject_frame intro: tx_frame_inv)
  qed
qed

lemma dispatch_op_inv:
  assumes inv: "sock_inv w" and run: "dispatch_op sid hdr pkt w = Some (rc, w')" and pkt: "wf_netbuf pkt"
  shows "sock_inv w'"
proof -
  have rw: "sock_inv w'" if "uk_vsock_rx_payload sid [pkt] w = Some (rc, w')"
    by (rule rx_payload_inv [OF inv _ that]) (use pkt in simp)
  have credit: "sock_inv w'" if "virtio_vsock_work_credit_request sid w = Some (rc, w')"
    using credit_request_frame [OF that] inv by (rule tx_frame_inv)
  show ?thesis
    using run inv rw credit unfolding dispatch_op_def
    by (simp split: if_splits add: virtio.conn_response_inv [OF inv] virtio.conn_reset_inv [OF inv]
        virtio.conn_shutdown_inv [OF inv])
qed

text \<open>The socket that a packet is for, if it passes the checks of the header, and what is done there.\<close>

definition rx_target :: "virtio_vsock_hdr \<Rightarrow> uk_netbuf \<Rightarrow> vsock_world \<Rightarrow> nat option" where
  "rx_target hdr pkt w = (
     if unat (h_len hdr) \<le> unat (nb_len pkt) \<and> h_dst_cid hdr = ucast (d_cid (w_dev w))
       \<and> (h_type hdr = VIRTIO_VSOCK_TYPE_STREAM \<or> h_type hdr = VIRTIO_VSOCK_TYPE_SEQPACKET)
     then uk_vsock_lookup (if h_type hdr = VIRTIO_VSOCK_TYPE_STREAM then SOCK_STREAM else SOCK_SEQPACKET)
            \<lparr>a_cid = d_cid (w_dev w), a_port = h_dst_port hdr\<rparr>
            \<lparr>a_cid = ucast (h_src_cid hdr), a_port = h_src_port hdr\<rparr> w
     else None)"

definition deliver :: "nat \<Rightarrow> virtio_vsock_hdr \<Rightarrow> uk_netbuf \<Rightarrow> vsock_world \<Rightarrow> (int \<times> vsock_world) option" where
  "deliver sid hdr pkt w = do {
     w \<leftarrow> update_credit sid hdr w;
     sock \<leftarrow> sock_get sid w;
     if s_state sock = UK_VSOCK_STATE_LISTENING
     then (if h_op hdr = VIRTIO_VSOCK_OP_REQUEST then virtio_vsockdev_work_conn_request sid hdr w else Some (1, w))
     else dispatch_op sid hdr pkt w
   }"

lemma ucast_ucast_cid: "ucast (ucast (x :: u32) :: u64) = x"
  by (rule bit_word_eqI) (simp add: bit_simps)

lemma handle_packet_eq:
  "handle_packet hdr pkt w = (case rx_target hdr pkt w of None \<Rightarrow> Some (1, w) | Some sid \<Rightarrow> deliver sid hdr pkt w)"
proof (cases "rx_target hdr pkt w")
  case None
  then show ?thesis unfolding handle_packet_def rx_target_def deliver_def Let_def
    by (auto simp: ucast_ucast_cid split: if_splits)
next
  case (Some sid)
  then show ?thesis unfolding handle_packet_def rx_target_def Let_def
    by (auto simp: deliver_def ucast_ucast_cid split: if_splits)
qed

text \<open>Every packet leaves the sockets consistent.\<close>

lemma deliver_inv:
  assumes inv: "sock_inv w" and run: "deliver sid hdr pkt w = Some (rc, w')" and pkt: "wf_netbuf pkt"
  shows "sock_inv w'"
proof -
  obtain w1 and s :: virtio_vsock where u: "update_credit sid hdr w = Some w1"
    and d: "(if s_state s = UK_VSOCK_STATE_LISTENING
      then (if h_op hdr = VIRTIO_VSOCK_OP_REQUEST then virtio_vsockdev_work_conn_request sid hdr w1 else Some (1, w1))
      else dispatch_op sid hdr pkt w1) = Some (rc, w')"
    using run unfolding deliver_def bind_eq_Some_conv by blast
  have i: "sock_inv w1" by (rule update_credit_inv [OF inv u])
  show ?thesis using d work_conn_request_inv [OF i] dispatch_op_inv [OF i _ pkt] i by (auto split: if_splits)
qed

lemma handle_packet_inv:
  assumes "sock_inv w" and "handle_packet hdr pkt w = Some (rc, w')" and "wf_netbuf pkt"
  shows "sock_inv w'"
  using assms deliver_inv [OF assms(1) _ assms(3)] by (auto simp: handle_packet_eq split: option.splits)

lemma work_rx_inv:
  assumes inv: "sock_inv w" and run: "virtio_vsockdev_work_rx w = Some (rc, w')"
  shows "sock_inv w'"
proof -
  obtain st out w1 where r: "virtio_vsockdev_recv w = Some (st, out, w1)"
    using run by (auto simp: virtio_vsockdev_work_rx_def returns)
  note res = recv_result [OF r, unfolded rx_result_def]
  have i1: "sock_inv w1" using res rx_frame_inv inv by blast
  show ?thesis
  proof (cases "st < 0 \<or> st AND VIRTIO_VSOCKDEV_STATUS_SUCCESS = 0")
    case True
    with run r i1 show ?thesis by (auto simp: virtio_vsockdev_work_rx_def split: if_splits)
  next
    case False
    with run r obtain p bytes rc1 w2 where p: "out = Some p"
      and h: "handle_packet (decode_hdr bytes) (snd (uk_netbuf_header p (- of_nat sizeof_hdr))) w1 = Some (rc1, w2)"
      and fr: "drv_netbuf_free (snd (uk_netbuf_header p (- of_nat sizeof_hdr))) w2 = Some w'"
      by (auto simp: virtio_vsockdev_work_rx_def returns Let_def case_prod_unfold)
    have "wf_netbuf p" using res p sock_invD(5) [OF inv] by blast
    from handle_packet_inv [OF i1 h uk_netbuf_header_wf [OF this]] show ?thesis
      by (rule tx_frame_inv [OF netbuf_free_frame [OF fr]])
  qed
qed

section \<open>Events\<close>

lemma put_ev_core: "core (put_ev q w) = core w"
  by (simp add: core_def put_ev_def)

lemma alloc_core: "core (w\<lparr>w_alloc := a\<rparr>) = core w" and time_core: "core (w\<lparr>w_time := t\<rparr>) = core w"
  and dma_core: "core (w\<lparr>w_dma_count := n\<rparr>) = core w"
  by (simp_all add: core_def)

lemmas ev_core = put_ev_core alloc_core time_core dma_core

lemma evq_enqueue_core: "virtio_vsockdev_evq_enqueue ev w = Some (rc, w') \<Longrightarrow> core w' = core w"
  by (auto simp: virtio_vsockdev_evq_enqueue_def Let_def returns ev_core split: if_splits)

lemma evq_fillup_loop_core: "evq_fillup_loop todo i w = Some (j, st, w') \<Longrightarrow> core w' = core w"
proof (induction todo arbitrary: i w)
  case (Suc todo)
  obtain ev a where m: "uk_malloc (w_alloc w) sizeof_event = (ev, a)" by fastforce
  show ?case
  proof (cases ev)
    case None
    with Suc.prems m show ?thesis by (auto simp: ev_core)
  next
    case (Some x)
    with Suc.prems m obtain rc w1 where e: "virtio_vsockdev_evq_enqueue (fst x) (w\<lparr>w_alloc := a\<rparr>) = Some (rc, w1)"
      and c: "(if rc < 0 then Some (i, 0, w1) else evq_fillup_loop todo (Suc i) w1) = Some (j, st, w')"
      by (cases x) (auto simp: returns)
    have "core w1 = core w" using evq_enqueue_core [OF e] by (simp add: ev_core)
    then show ?thesis using c Suc.IH [of "Suc i" w1] by (auto split: if_splits)
  qed
qed simp

lemma evq_fillup_core: "virtio_vsockdev_evq_fillup n b w = Some (st, w') \<Longrightarrow> core w' = core w"
  by (auto simp: virtio_vsockdev_evq_fillup_def returns Let_def ev_core dest: evq_fillup_loop_core split: if_splits)

lemma evq_dequeue_core:
  assumes "virtio_vsockdev_evq_dequeue w = Some (rc, ev, w')"
  shows "core w' = core w"
proof -
  obtain ret buf len vq where d: "virtqueue_buffer_dequeue (q_vq (d_ev (w_dev w))) = Some (ret, buf, len, vq)"
    using assms by (cases "virtqueue_buffer_dequeue (q_vq (d_ev (w_dev w)))")
      (auto simp: virtio_vsockdev_evq_dequeue_def Let_def)
  let ?w = "put_ev ((d_ev (w_dev w))\<lparr>q_vq := vq\<rparr>) w"
  have "w' = ?w \<or> w' = ?w\<lparr>w_dma_count := Suc (w_dma_count ?w)\<rparr>"
    using assms d unfolding virtio_vsockdev_evq_dequeue_def Let_def by (cases buf) (simp_all split: if_splits)
  then show ?thesis by (auto simp: ev_core)
qed

lemma ev_intr_enable_core [simp]: "core (snd (ev_vq_intr_enable w)) = core w"
  by (simp add: ev_vq_intr_enable_def Let_def case_prod_unfold ev_core)

lemma evq_recv_core:
  assumes "virtio_vsockdev_evq_recv w = Some (st, ev, w')"
  shows "core w' = core w"
proof -
  obtain rc ev1 w1 where d: "virtio_vsockdev_evq_dequeue w = Some (rc, ev1, w1)"
    using assms by (auto simp: virtio_vsockdev_evq_recv_def returns)
  show ?thesis
  proof (cases "rc < 0")
    case True
    with assms d evq_dequeue_core [OF d] show ?thesis by (simp add: virtio_vsockdev_evq_recv_def)
  next
    case False
    then obtain st2 w2 where f: "virtio_vsockdev_evq_fillup (word_of_int (uint (q_nb_desc (d_ev (w_dev w1))) - rc)) True w1
        = Some (st2, w2)"
      using assms d by (auto simp: virtio_vsockdev_evq_recv_def returns Let_def)
    have c: "core w2 = core w" using evq_fillup_core [OF f] evq_dequeue_core [OF d] by simp
    let ?w3 = "snd (ev_vq_intr_enable w2)"
    have cont: "(if q_intr_enabled (d_ev (w_dev w2)) AND VTVSOCK_INTR_USR_EN = 0 then w' = w2
       else if fst (ev_vq_intr_enable w2) = 0 \<or> ev1 \<noteq> None then w' = ?w3
       else \<exists>rc4 w4. virtio_vsockdev_evq_dequeue ?w3 = Some (rc4, ev, w4) \<and> (if rc4 < 0 then w' = w4
         else \<exists>st5 w5. virtio_vsockdev_evq_fillup (word_of_int (uint (q_nb_desc (d_ev (w_dev w4))) - rc4)) True w4
           = Some (st5, w5) \<and> w' = snd (ev_vq_intr_enable w5)))"
      using assms d f False
      by (auto simp: virtio_vsockdev_evq_recv_def returns Let_def case_prod_unfold split: if_splits)
    show ?thesis
    proof (cases "q_intr_enabled (d_ev (w_dev w2)) AND VTVSOCK_INTR_USR_EN = 0 \<or> fst (ev_vq_intr_enable w2) = 0 \<or> ev1 \<noteq> None")
      case True
      with cont c show ?thesis by (auto split: if_splits)
    next
      case False
      with cont obtain rc4 w4 where d4: "virtio_vsockdev_evq_dequeue ?w3 = Some (rc4, ev, w4)"
        and c4: "if rc4 < 0 then w' = w4
         else \<exists>st5 w5. virtio_vsockdev_evq_fillup (word_of_int (uint (q_nb_desc (d_ev (w_dev w4))) - rc4)) True w4
           = Some (st5, w5) \<and> w' = snd (ev_vq_intr_enable w5)" by auto
      have "core w4 = core w" using c evq_dequeue_core [OF d4] by simp
      then show ?thesis using c4 by (auto split: if_splits dest!: evq_fillup_core)
    qed
  qed
qed

lemma work_evq_inv:
  assumes inv: "sock_inv w" and run: "virtio_vsockdev_work_evq w = Some (rc, w')"
  shows "sock_inv w'"
proof -
  obtain st ev w1 where r: "virtio_vsockdev_evq_recv w = Some (st, ev, w1)"
    using run by (auto simp: virtio_vsockdev_work_evq_def returns)
  have i: "sock_inv w1" by (rule sock_inv_core [OF evq_recv_core [OF r] inv])
  have "sock_inv w'" if "uk_vsockdev_transport_reset virtio_vsockdev_ops w1 = Some (rc1, w')" for rc1
    using that virtio.term_inv [OF i] by (auto simp: uk_vsockdev_transport_reset_def returns split: if_splits)
  then show ?thesis using run r i by (auto simp: virtio_vsockdev_work_evq_def returns split: if_splits)
qed

section \<open>The work loops\<close>

lemma yield_inv: "sock_inv w \<Longrightarrow> sock_inv (uk_sched_yield w)"
  by (rule tx_frame_inv [OF yield_frame])

text \<open>One round of the two work loops, which have the same shape.\<close>

lemma work_batch_step:
  assumes work: "\<And>v r. work v = Some r \<Longrightarrow> sock_inv v \<Longrightarrow> sock_inv (snd r)"
    and batch: "\<And>cnt w w'. batch cnt w = Some w' \<Longrightarrow> sock_inv w \<longrightarrow> sock_inv w'"
    and run: "(if cnt < work_batch_size
        then work w \<bind> (\<lambda>r. if fst r < 0
          then if fst r \<noteq> - ENOMEM then Some (snd r)
            else work (uk_sched_yield (snd r)) \<bind> (\<lambda>r.
              if fst r < 0 then batch cnt (snd r) else batch (Suc cnt) (snd r))
          else if fst r = 0 then Some (snd r) else batch (Suc cnt) (snd r))
        else Some w) = Some (w' :: vsock_world)"
    and inv: "sock_inv w"
  shows "sock_inv w'"
proof (cases "cnt < work_batch_size")
  case True
  with run obtain r where r: "work w = Some r" and c: "(if fst r < (0 :: int)
          then if fst r \<noteq> - ENOMEM then Some (snd r)
            else work (uk_sched_yield (snd r)) \<bind> (\<lambda>r.
              if fst r < 0 then batch cnt (snd r) else batch (Suc cnt) (snd r))
          else if fst r = 0 then Some (snd r) else batch (Suc cnt) (snd r)) = Some w'"
    by (auto simp: bind_eq_Some_conv)
  have i: "sock_inv (snd r)" by (rule work [OF r inv])
  show ?thesis
  proof (cases "fst r = - ENOMEM")
    case True
    with c obtain r2 where r2: "work (uk_sched_yield (snd r)) = Some r2"
      and c2: "batch cnt (snd r2) = Some w' \<or> batch (Suc cnt) (snd r2) = Some w'"
      by (auto simp: bind_eq_Some_conv split: if_splits)
    have "sock_inv (snd r2)" by (rule work [OF r2 yield_inv [OF i]])
    with c2 show ?thesis using batch by blast
  next
    case False
    with c i show ?thesis using batch [of "Suc cnt" "snd r" w'] by (auto split: if_splits)
  qed
qed (use run inv in simp)

lemma rx_work_batch_inv: "rx_work_batch cnt w = Some w' \<Longrightarrow> sock_inv w \<longrightarrow> sock_inv w'"
proof (erule rx_work_batch.raw_induct [where P = "\<lambda>cnt w w'. sock_inv w \<longrightarrow> sock_inv w'", rotated], rule impI)
  fix batch cnt w w'
  assume ih: "\<And>cnt w w'. batch cnt w = Some w' \<Longrightarrow> sock_inv w \<longrightarrow> sock_inv w'" and inv: "sock_inv w"
    and run: "(if cnt < work_batch_size
        then virtio_vsockdev_work_rx w \<bind> (\<lambda>r. if fst r < 0
          then if fst r \<noteq> - ENOMEM then Some (snd r)
            else virtio_vsockdev_work_rx (uk_sched_yield (snd r)) \<bind> (\<lambda>r.
              if fst r < 0 then batch cnt (snd r) else batch (Suc cnt) (snd r))
          else if fst r = 0 then Some (snd r) else batch (Suc cnt) (snd r))
        else Some w) = Some w'"
  show "sock_inv w'" by (rule work_batch_step [OF _ ih run inv]) (metis prod.collapse work_rx_inv)
qed

lemma ev_work_batch_inv: "ev_work_batch cnt w = Some w' \<Longrightarrow> sock_inv w \<longrightarrow> sock_inv w'"
proof (erule ev_work_batch.raw_induct [where P = "\<lambda>cnt w w'. sock_inv w \<longrightarrow> sock_inv w'", rotated], rule impI)
  fix batch cnt w w'
  assume ih: "\<And>cnt w w'. batch cnt w = Some w' \<Longrightarrow> sock_inv w \<longrightarrow> sock_inv w'" and inv: "sock_inv w"
    and run: "(if cnt < work_batch_size
        then virtio_vsockdev_work_evq w \<bind> (\<lambda>r. if fst r < 0
          then if fst r \<noteq> - ENOMEM then Some (snd r)
            else virtio_vsockdev_work_evq (uk_sched_yield (snd r)) \<bind> (\<lambda>r.
              if fst r < 0 then batch cnt (snd r) else batch (Suc cnt) (snd r))
          else if fst r = 0 then Some (snd r) else batch (Suc cnt) (snd r))
        else Some w) = Some w'"
  show "sock_inv w'" by (rule work_batch_step [OF _ ih run inv]) (metis prod.collapse work_evq_inv)
qed

lemma rx_intr_inv:
  assumes "sock_inv w"
  shows "sock_inv (snd (virtio_vsockdev_rx_intr_enable w))" and "sock_inv (virtio_vsockdev_rx_intr_disable w)"
    and "sock_inv (snd (virtio_vsockdev_recv_event w))"
proof -
  have put: "rx_frame v (put_rx ((d_rx (w_dev v))\<lparr>q_intr_enabled := b\<rparr>) v)" for v b
    by (rule rx_frame_put) (simp add: rx_ok_def)
  have mask: "rx_frame w (put_rx ((d_rx (w_dev w))\<lparr>q_vq := virtqueue_intr_disable (q_vq (d_rx (w_dev w))),
      q_intr_enabled := b\<rparr>) w)" for b
    by (rule rx_frame_put) (simp add: rx_ok_def)
  show "sock_inv (virtio_vsockdev_rx_intr_disable w)" "sock_inv (snd (virtio_vsockdev_recv_event w))"
    using rx_frame_inv [OF mask assms]
    by (simp_all add: virtio_vsockdev_rx_intr_disable_def virtio_vsockdev_recv_event_def Let_def)
  let ?w1 = "put_rx ((d_rx (w_dev w))\<lparr>q_intr_enabled := VTVSOCK_INTR_USR_EN\<rparr>) w"
  have "rx_frame w (snd (rx_vq_intr_enable ?w1))" by (rule rx_frame_trans [OF put rx_intr_enable_frame])
  then show "sock_inv (snd (virtio_vsockdev_rx_intr_enable w))"
    using rx_frame_inv [OF _ assms] rx_frame_trans [OF _ put] assms
    by (auto simp: virtio_vsockdev_rx_intr_enable_def Let_def case_prod_unfold)
qed

lemma rx_work_inv:
  assumes "virtio_vsockdev_rx_work w = Some w'" and "sock_inv w"
  shows "sock_inv w'"
proof -
  have "rx_work_loop v = Some w' \<Longrightarrow> sock_inv v \<longrightarrow> sock_inv w'" for v
  proof (erule rx_work_loop.raw_induct [where P = "\<lambda>w w'. sock_inv w \<longrightarrow> sock_inv w'", rotated], rule impI)
    fix loop v v'
    assume ih: "\<And>w w'. loop w = Some w' \<Longrightarrow> sock_inv w \<longrightarrow> sock_inv w'" and inv: "sock_inv v"
      and run: "rx_work_batch 0 v \<bind> (\<lambda>w. if fst (virtio_vsockdev_rx_intr_enable w) \<noteq> 0
        then loop (snd (virtio_vsockdev_rx_intr_enable w)) else Some (snd (virtio_vsockdev_rx_intr_enable w))) = Some v'"
    then obtain w1 where b: "rx_work_batch 0 v = Some w1" by (auto simp: bind_eq_Some_conv)
    have "sock_inv (snd (virtio_vsockdev_rx_intr_enable w1))"
      using rx_work_batch_inv [OF b] inv rx_intr_inv(1) by blast
    then show "sock_inv v'" using run b ih [of "snd (virtio_vsockdev_rx_intr_enable w1)" v'] by (auto split: if_splits)
  qed
  then show ?thesis using assms rx_intr_inv(2) [OF assms(2)] by (simp add: virtio_vsockdev_rx_work_def)
qed

lemma ev_intr_core:
  "core (snd (virtio_vsockdev_evq_intr_enable w)) = core w" "core (virtio_vsockdev_evq_intr_disable w) = core w"
  "core (snd (virtio_vsockdev_evq_event w)) = core w"
  by (simp_all add: virtio_vsockdev_evq_intr_enable_def virtio_vsockdev_evq_intr_disable_def
      virtio_vsockdev_evq_event_def Let_def case_prod_unfold ev_core)

lemma ev_work_inv:
  assumes "virtio_vsockdev_ev_work w = Some w'" and "sock_inv w"
  shows "sock_inv w'"
proof -
  have "ev_work_loop v = Some w' \<Longrightarrow> sock_inv v \<longrightarrow> sock_inv w'" for v
  proof (erule ev_work_loop.raw_induct [where P = "\<lambda>w w'. sock_inv w \<longrightarrow> sock_inv w'", rotated], rule impI)
    fix loop v v'
    assume ih: "\<And>w w'. loop w = Some w' \<Longrightarrow> sock_inv w \<longrightarrow> sock_inv w'" and inv: "sock_inv v"
      and run: "ev_work_batch 0 v \<bind> (\<lambda>w. if fst (virtio_vsockdev_evq_intr_enable w) \<noteq> 0
        then loop (snd (virtio_vsockdev_evq_intr_enable w)) else Some (snd (virtio_vsockdev_evq_intr_enable w))) = Some v'"
    then obtain w1 where b: "ev_work_batch 0 v = Some w1" by (auto simp: bind_eq_Some_conv)
    have "sock_inv (snd (virtio_vsockdev_evq_intr_enable w1))"
      using ev_work_batch_inv [OF b] inv sock_inv_core [OF ev_intr_core(1)] by blast
    then show "sock_inv v'" using run b ih [of "snd (virtio_vsockdev_evq_intr_enable w1)" v'] by (auto split: if_splits)
  qed
  then show ?thesis using assms sock_inv_core [OF ev_intr_core(2) assms(2)] by (simp add: virtio_vsockdev_ev_work_def)
qed

end
