(* ===== verification/Vsock_System.thy ===== *)
theory Vsock_System
  imports Virtio_Rx_Inv
begin

text \<open>
  The whole system: the calls of the application on vsock sockets, the work of the two dispatcher
  threads of the virtio driver, its interrupt handlers, and the device that works while threads
  yield. A run is any sequence of these steps.
\<close>

section \<open>Steps\<close>

datatype sys_event =
    Sys_create u16 int int
  | Sys_bind nat sockaddr_vm nat
  | Sys_listen nat int
  | Sys_connect nat sockaddr_vm nat
  | Sys_accept nat nat bool "nat option"
  | Sys_shutdown nat int
  | Sys_close nat
  | Sys_getsockopt nat int int "nat option"
  | Sys_poll_setup nat nat
  | Sys_write nat nat "u8 list list"
  | Sys_sendto nat nat "u8 list" bool
  | Sys_read nat nat "nat list"
  | Sys_recvfrom nat nat nat bool
  | Rx_work
  | Ev_work
  | Rx_interrupt
  | Ev_interrupt
  | Yield

fun sys_step :: "sys_event \<Rightarrow> vsock_world \<Rightarrow> vsock_world option" where
  "sys_step (Sys_create family type protocol) w = map_option snd (vsock_create virtio_vsockdev_ops family type protocol w)"
| "sys_step (Sys_bind sid svm len) w = map_option snd (vsock_bind virtio_vsockdev_ops sid svm len w)"
| "sys_step (Sys_listen sid backlog) w = map_option snd (vsock_listen virtio_vsockdev_ops sid backlog w)"
| "sys_step (Sys_connect sid svm len) w = map_option snd (vsock_connect virtio_vsockdev_ops sid svm len w)"
| "sys_step (Sys_accept ps sid addr len) w = map_option snd (vsock_accept4 virtio_vsockdev_ops ps sid addr len w)"
| "sys_step (Sys_shutdown sid how) w = map_option snd (vsock_shutdown virtio_vsockdev_ops sid how w)"
| "sys_step (Sys_close sid) w = map_option snd (vsock_close virtio_vsockdev_ops sid w)"
| "sys_step (Sys_getsockopt sid level name len) w = map_option (snd \<circ> snd) (vsock_getsockopt sid level name len w)"
| "sys_step (Sys_poll_setup ps sid) w = vsock_poll_setup ps sid w"
| "sys_step (Sys_write ps sid iov) w = map_option snd (vsock_write virtio_vsockdev_ops ps sid iov w)"
| "sys_step (Sys_sendto ps sid buf dest) w = map_option snd (vsock_sendto virtio_vsockdev_ops ps sid buf dest w)"
| "sys_step (Sys_read ps sid iov) w = map_option (snd \<circ> snd) (vsock_read virtio_vsockdev_ops ps sid iov w)"
| "sys_step (Sys_recvfrom ps sid len from) w =
     map_option (snd \<circ> snd) (vsock_recvfrom virtio_vsockdev_ops ps sid len from w)"
| "sys_step Rx_work w = virtio_vsockdev_rx_work w"
| "sys_step Ev_work w = virtio_vsockdev_ev_work w"
| "sys_step Rx_interrupt w = Some (snd (virtio_vsockdev_recv_event w))"
| "sys_step Ev_interrupt w = Some (snd (virtio_vsockdev_evq_event w))"
| "sys_step Yield w = Some (uk_sched_yield w)"

text \<open>
  The two calls that enter a connection into the table without a check: the addresses of the
  connection must not be in use.
\<close>

fun addresses_free :: "sys_event \<Rightarrow> vsock_world \<Rightarrow> bool" where
  "addresses_free (Sys_connect sid svm len) w = (case w_socks w sid of
     None \<Rightarrow> True
   | Some s \<Rightarrow> s_state s = UK_VSOCK_STATE_BOUND \<longrightarrow>
       conn_free w sid (s_sock_type s) (s_local_addr s) \<lparr>a_cid = svm_cid svm, a_port = svm_port svm\<rparr>)"
| "addresses_free (Sys_accept ps sid addr len) w = (case w_socks w sid of
     None \<Rightarrow> True
   | Some s \<Rightarrow> (case s_accept_queue s of
       [] \<Rightarrow> True
     | e # _ \<Rightarrow> conn_free w (w_next_sock w) (s_sock_type s)
         \<lparr>a_cid = d_cid (w_dev w), a_port = a_port (s_local_addr s)\<rparr> (ae_peer e)))"
| "addresses_free _ w = True"

inductive sys_run :: "vsock_world \<Rightarrow> sys_event list \<Rightarrow> vsock_world \<Rightarrow> bool" where
  nil: "sys_run w [] w"
| cons: "addresses_free e w \<Longrightarrow> sys_step e w = Some w' \<Longrightarrow> sys_run w' es w'' \<Longrightarrow> sys_run w (e # es) w''"

inductive_cases sys_run_ConsE: "sys_run w (e # es) w''"
inductive_simps sys_run_Nil [simp]: "sys_run w [] w'"

section \<open>The invariant\<close>

lemma close_step_inv:
  assumes "sock_inv w" and "vsock_close virtio_vsockdev_ops sid w = Some (rc, w')"
  shows "sock_inv w'"
proof -
  obtain s where "w_socks w sid = Some s"
    using assms(2) by (auto simp: vsock_close_def uk_vsock_destroy_def uk_vsock_close_def returns)
  then show ?thesis using virtio.destroy_inv [OF assms(1)] assms(2) by (simp add: vsock_close_def)
qed

lemma accept_step_inv:
  assumes inv: "sock_inv w" and free: "addresses_free (Sys_accept ps sid addr len) w"
    and run: "vsock_accept4 virtio_vsockdev_ops ps sid addr len w = Some (r, w')"
  shows "sock_inv w'"
  by (rule virtio.accept_inv [OF inv run]) (use free in simp)

lemma connect_step_inv:
  assumes inv: "sock_inv w" and free: "addresses_free (Sys_connect sid svm len) w"
    and run: "vsock_connect virtio_vsockdev_ops sid svm len w = Some (rc, w')"
  shows "sock_inv w'"
proof (cases "w_socks w sid")
  case None
  with run inv show ?thesis by (auto simp: vsock_connect_def returns split: if_splits)
next
  case (Some s)
  show ?thesis by (rule virtio.connect_inv [OF inv Some _ run]) (use free Some in simp)
qed

lemma sys_step_inv:
  assumes inv: "sock_inv w" and free: "addresses_free e w" and run: "sys_step e w = Some w'"
  shows "sock_inv w'"
proof (cases e)
  case (Sys_create f t p)
  then show ?thesis using run virtio.create_inv [OF inv] by auto
next
  case (Sys_bind sid svm len)
  then show ?thesis using run virtio.bind_inv [OF inv] by auto
next
  case (Sys_listen sid n)
  then show ?thesis using run virtio.listen_inv [OF inv] by auto
next
  case (Sys_connect sid svm len)
  then show ?thesis using run connect_step_inv [OF inv] free by auto
next
  case (Sys_accept ps sid addr len)
  then show ?thesis using run accept_step_inv [OF inv] free by auto
next
  case (Sys_shutdown sid how)
  then show ?thesis using run virtio.shutdown_inv [OF inv] by auto
next
  case (Sys_close sid)
  then show ?thesis using run close_step_inv [OF inv] by auto
next
  case (Sys_getsockopt sid l n len)
  then show ?thesis using run getsockopt_inv [OF inv] by auto
next
  case (Sys_poll_setup ps sid)
  then show ?thesis using run poll_setup_inv [OF inv] by auto
next
  case (Sys_write ps sid iov)
  then show ?thesis using run virtio.write_inv [OF inv] by auto
next
  case (Sys_sendto ps sid buf d)
  then show ?thesis using run virtio.sendto_inv [OF inv] by auto
next
  case (Sys_read ps sid iov)
  then show ?thesis using run virtio.read_inv [OF inv] by auto
next
  case (Sys_recvfrom ps sid len src)
  then show ?thesis using run virtio.recvfrom_inv [OF inv] by auto
next
  case Rx_work
  then show ?thesis using run rx_work_inv [OF _ inv] by auto
next
  case Ev_work
  then show ?thesis using run ev_work_inv [OF _ inv] by auto
next
  case Rx_interrupt
  then show ?thesis using run rx_intr_inv(3) [OF inv] by auto
next
  case Ev_interrupt
  then show ?thesis using run sock_inv_core [OF ev_intr_core(3) inv] by auto
next
  case Yield
  then show ?thesis using run yield_inv [OF inv] by auto
qed

lemma sys_run_inv: "sys_run w es w' \<Longrightarrow> sock_inv w \<Longrightarrow> sock_inv w'"
  by (induction rule: sys_run.induct) (auto intro: sys_step_inv)

end
