(* ===== verification/Vsock_Props.thy ===== *)
theory Vsock_Props
  imports Vsock_System
begin

text \<open>
  Properties of the system: what the application, the driver and the device can rely on in every
  state that a run reaches.
\<close>

section \<open>Helper lemmas\<close>

lemma credit_step:
  fixes t f a :: "'a::len word"
  assumes "t - f \<le> a" and "k \<le> unat (a - (t - f))"
  shows "t + of_nat k - f \<le> a"
proof -
  have u: "unat (a - (t - f)) = unat a - unat (t - f)" "unat (t - f) \<le> unat a"
    using assms(1) by (simp_all add: unat_sub word_le_nat_alt)
  have "k < 2 ^ LENGTH('a)" using assms(2) unat_less_exp [of "a - (t - f)"] by linarith
  then have "unat (of_nat k :: 'a word) = k" by (rule unat_of_nat_small)
  moreover have "unat (t - f) + k < 2 ^ LENGTH('a)" using u assms(2) unat_less_exp [of a] by linarith
  ultimately have "unat (t - f + of_nat k) = unat (t - f) + k" by (simp add: unat_word_ariths)
  then have "t - f + of_nat k \<le> a" using u assms(2) by (simp add: word_le_nat_alt)
  then show ?thesis by (simp add: algebra_simps)
qed

lemma example_world_idle:
  "tx_env example_world" "tx_queue_ok [0..<32] [] (tx_queue example_world)"
  "VSOCK_MAX_FRAGMENTS \<le> vr_num (q_vq (tx_queue example_world))"
proof -
  show "tx_env example_world" using example_world_good by (simp add: tx_good_def)
  show "tx_queue_ok [0..<32] [] (tx_queue example_world)" using example_queue_ok by (simp add: example_world_def)
  then have "vr_num (q_vq (tx_queue example_world)) = 32" by (auto simp: tx_queue_ok_def dest!: vq_invD(3))
  then show "VSOCK_MAX_FRAGMENTS \<le> vr_num (q_vq (tx_queue example_world))" by (simp add: VSOCK_MAX_FRAGMENTS_def PAGE_SIZE_def)
qed

section \<open>All runs\<close>







section \<open>Sending\<close>

text \<open>
  C21: A control packet always gets an answer from a device that serves its queue, however full the
  queue is: the retry loop ends. On success exactly the encoded header is in flight; the only
  failures are lack of memory and a queue that is too small. In every case each packet that is
  allocated is in flight or was in use before, so none is lost.
\<close>

theorem xmit_ctrl_completes:
  assumes "tx_good k w"
  shows "\<exists>rc w'. xmit_ctrl hdr w = Some (rc, w') \<and> tx_good k w' \<and> rc \<in> {0, - ENOMEM, - EINVAL}
    \<and> (rc = 0 \<longrightarrow> (\<exists>pkt. tx_sent k pkt w' \<and> nb_payload pkt = encode_hdr hdr))"
  using xmit_ctrl_live [OF assms, of hdr] tx_sent_good by fastforce

theorem xmit_ctrl_completes_witness:
  "\<exists>rc w'. xmit_ctrl (sock_hdr example_sock VIRTIO_VSOCK_OP_RST 0) example_world = Some (rc, w') \<and> tx_good 0 w'"
  using xmit_ctrl_completes [OF example_world_good] by blast

text \<open>
  C3: Sending data that fits one packet. The result is the number of bytes that the peer has room
  for, and then the packet in flight is the header of the connection with that length, followed by
  exactly these bytes, and the transmit counter is advanced by the number. Otherwise the sockets are
  unchanged and no packet is lost.
\<close>

theorem virtio_send_exact:
  assumes "tx_good k w" and "w_socks w sid = Some vs"
    and "n = min (unat (virtio_vsock_peer_rx_free vs)) (length buf)" and "n + sizeof_hdr \<le> 65535"
  shows "\<exists>rc w'. virtio_vsock_send sid buf w = Some (rc, w') \<and> tx_good k w'
    \<and> (if 0 < rc
       then rc = int n \<and> w_socks w' = (w_socks w)(sid \<mapsto> vs\<lparr>v_tx_count := v_tx_count vs + of_nat n\<rparr>)
         \<and> (\<exists>pkt. tx_sent k pkt w' \<and> nb_payload pkt =
              encode_hdr ((sock_hdr vs VIRTIO_VSOCK_OP_RW 0)\<lparr>h_len := of_nat n\<rparr>) @ take n buf)
       else w_socks w' = w_socks w \<and> rc \<in> {0, - EAGAIN, - ENOMEM, - EINVAL} \<and> (rc = 0 \<longleftrightarrow> buf = []))"
proof -
  have fits: "n mod 65536 + sizeof_hdr \<le> 65535" "n mod 65536 = n" using assms(4) by (simp_all add: sizeof_hdr_def)
  from assms(1-3) fits(1) show ?thesis
  proof (cases rule: send_live)
    case empty
    then show ?thesis using assms(1) by (intro exI [of _ "if buf = [] then 0 else - EAGAIN"] exI [of _ w]) simp
  next
    case (failed rc w')
    have "rc < 0" using failed(3) by auto
    then have "tx_frame w w'" using send_frame [OF failed(2)] by auto
    then have "w_socks w' = w_socks w" by (rule tx_frame_fields(1))
    moreover have "buf \<noteq> []" using failed(1) assms(3) by auto
    ultimately show ?thesis using failed(2-4) \<open>rc < 0\<close> by (intro exI [of _ rc] exI [of _ w']) auto
  next
    case (sent pkt w1)
    let ?w = "sock_put sid (vs\<lparr>v_tx_count := v_tx_count vs + of_nat n\<rparr>) w1"
    have "tx_sent k pkt ?w" using sent(3) by (simp add: tx_sent_def tx_env_def sock_put_def)
    then have "tx_good k ?w" and "\<exists>pkt. tx_sent k pkt ?w \<and> nb_payload pkt =
              encode_hdr ((sock_hdr vs VIRTIO_VSOCK_OP_RW 0)\<lparr>h_len := of_nat n\<rparr>) @ take n buf"
      using tx_sent_good [OF sent(3)] sent(5) fits(2) by auto
    moreover have "w_socks ?w = (w_socks w)(sid \<mapsto> vs\<lparr>v_tx_count := v_tx_count vs + of_nat n\<rparr>)"
      using tx_frame_fields(1) [OF sent(4)] by (simp add: sock_put_def)
    ultimately show ?thesis using sent(1,2) by (intro exI [of _ "int n"] exI [of _ ?w]) simp
  qed
qed

theorem virtio_send_exact_witness:
  "\<exists>rc w'. virtio_vsock_send 0 [1, 2, 3] example_world = Some (rc, w') \<and> tx_good 0 w'"
  using virtio_send_exact [OF example_world_good, of 0 example_sock 3 "[1, 2, 3]"]
  by (auto simp: example_world_def example_sock_def virtio_vsock_peer_rx_free_def sizeof_hdr_def)



text \<open>
  C29: What \<open>virtio_vsock_send\<close> does when the peer has room for 64 KiB or more and the caller passes as
  much. The 32-bit length is stored in the 16-bit length of the packet: the packet that is sent
  carries only the remainder, while its header, the counter and the result claim all bytes.
\<close>

theorem send_truncates_large:
  assumes "tx_good k w" and "w_socks w sid = Some vs"
    and "n = min (unat (virtio_vsock_peer_rx_free vs)) (length buf)" and "65536 \<le> n"
    and "n mod 65536 + sizeof_hdr \<le> 65535" and "virtio_vsock_send sid buf w = Some (rc, w')" and "0 < rc"
  shows "rc = int n \<and> (\<exists>pkt. tx_sent k pkt w' \<and> length (nb_payload pkt) = sizeof_hdr + n mod 65536
    \<and> h_len (decode_hdr (nb_payload pkt)) = of_nat n \<and> drop sizeof_hdr (nb_payload pkt) = take (n mod 65536) buf)"
  using assms(1,2,3,5)
proof (cases rule: send_live)
  case empty
  then show ?thesis using assms(4) by simp
next
  case (failed rc' w2)
  then show ?thesis using assms(6,7) by auto
next
  case (sent pkt w1)
  let ?h = "(sock_hdr vs VIRTIO_VSOCK_OP_RW 0)\<lparr>h_len := of_nat n\<rparr>"
  have w': "rc = int n" "w' = sock_put sid (vs\<lparr>v_tx_count := v_tx_count vs + of_nat n\<rparr>) w1"
    using sent(2) assms(6) by simp_all
  then have "tx_sent k pkt w'" using sent(3) by (simp add: tx_sent_def tx_env_def sock_put_def)
  moreover have "n mod 65536 \<le> length buf" using assms(3) by (metis min.cobounded2 mod_less_eq_dividend order_trans)
  moreover have "decode_hdr (nb_payload pkt) = ?h" unfolding sent(5) by (rule decode_encode_hdr)
  ultimately show ?thesis using w'(1) sent(5) by auto
qed

theorem send_truncates_large_witness:
  "\<exists>buf w w' pkt. length buf = 65537 \<and> virtio_vsock_send 0 buf w = Some (65537, w')
    \<and> tx_sent 0 pkt w' \<and> length (nb_payload pkt) = 45"
proof -
  let ?s = "example_sock\<lparr>v_peer_buf_alloc := 100000\<rparr>"
  let ?w = "sock_put 0 ?s example_world"
  obtain buf :: "u8 list" where buf: "length buf = 65537" using Ex_list_of_length by blast
  have free: "unat (virtio_vsock_peer_rx_free ?s) = 100000"
    by (simp add: virtio_vsock_peer_rx_free_def example_sock_def)
  have n: "65537 = min (unat (virtio_vsock_peer_rx_free ?s)) (length buf)" unfolding free buf by simp
  have vs: "w_socks ?w 0 = Some ?s" by simp
  have env: "tx_env ?w" "tx_queue_ok [0..<32] [] (tx_queue ?w)" "VSOCK_MAX_FRAGMENTS \<le> vr_num (q_vq (tx_queue ?w))"
    using example_world_idle by (simp_all add: tx_env_def sock_put_def)
  obtain p w1 where "drv_netbuf_alloc (65537 + sizeof_hdr) sizeof_hdr ?w = Some (Some p, w1)"
    using example_alloc [of "65537 + sizeof_hdr" 0 ?s] by (auto simp: sizeof_hdr_def)
  from send_idle [OF env vs n _ _ this] obtain w' where r: "virtio_vsock_send 0 buf ?w = Some (int 65537, w')"
    by (auto simp: sizeof_hdr_def)
  have good: "tx_good 0 ?w" using example_world_good by simp
  from send_truncates_large [OF good vs n _ _ r] obtain pkt where "tx_sent 0 pkt w'" "length (nb_payload pkt) = 45"
    by (auto simp: sizeof_hdr_def)
  with buf r show ?thesis by (intro exI [of _ buf] exI [of _ ?w] exI [of _ w'] exI [of _ pkt]) simp
qed

section \<open>Transport reset\<close>



end
