(* ===== verification/Rx_Props.thy ===== *)
theory Rx_Props
  imports Vsock_Props
begin

text \<open>
  Properties of reception: what a packet does to the socket it is for, which packets are ignored, and
  that data sent at one end of a connection arrives at the other.
\<close>

section \<open>Delivery of data\<close>

definition credit_sock :: "virtio_vsock_hdr \<Rightarrow> virtio_vsock \<Rightarrow> virtio_vsock" where
  "credit_sock hdr s = s\<lparr>v_peer_buf_alloc := h_buf_alloc hdr, v_peer_fwd_count := h_fwd_cnt hdr\<rparr>"

lemma credit_sock_simps [simp]:
  "s_state (credit_sock hdr s) = s_state s" "s_rx (credit_sock hdr s) = s_rx s"
  "s_posix_sock (credit_sock hdr s) = s_posix_sock s"
  by (simp_all add: credit_sock_def)

text \<open>The events of a socket after a credit update.\<close>

definition credit_events :: "virtio_vsock \<Rightarrow> u32 \<Rightarrow> u32" where
  "credit_events s ev = (if virtio_vsock_peer_rx_free s > 0 then ev OR EPOLLOUT else ev AND NOT EPOLLOUT)"

lemma update_credit_run:
  assumes "w_socks w sid = Some s" and "s_posix_sock s = Some p"
    and "h_op hdr \<noteq> VIRTIO_VSOCK_OP_REQUEST" and "h_op hdr \<noteq> VIRTIO_VSOCK_OP_SHUTDOWN"
  shows "update_credit sid hdr w = Some ((sock_put sid (credit_sock hdr s) w)
    \<lparr>w_events := (w_events w)(p := credit_events (credit_sock hdr s) (w_events w p))\<rparr>)"
  using assms
  by (simp add: update_credit_def sock_upd_def sock_get_def uk_vsock_notify_writable_def posix_sock_event_set_def
      posix_sock_event_clear_def credit_events_def credit_sock_def)

lemma deliver_data:
  assumes inv: "sock_inv w" and s: "w_socks w sid = Some s" "s_state s = UK_VSOCK_STATE_OPEN" "s_posix_sock s = Some p"
    and op: "h_op hdr = VIRTIO_VSOCK_OP_RW" and pkt: "wf_netbuf pkt"
  obtains rx w' where "deliver sid hdr pkt w = Some (if b_count (s_rx s) + unat (nb_len pkt) \<le> b_capacity (s_rx s)
        then 0 else - ENOSPC, w')"
    and "w_socks w' = (w_socks w)(sid \<mapsto> (credit_sock hdr s)\<lparr>s_rx := rx\<rparr>)"
    and "if b_count (s_rx s) + unat (nb_len pkt) \<le> b_capacity (s_rx s)
      then contents rx = contents (s_rx s) @ nb_payload pkt \<and> w_events w' = (w_events w)
        (p := credit_events (credit_sock hdr s) (w_events w p) OR EPOLLIN)
      else rx = s_rx s \<and> w_events w' = (w_events w)(p := credit_events (credit_sock hdr s) (w_events w p))"
    and "wf_buffer rx"
proof -
  have wf: "wf_buffer (s_rx s)" using sock_invD(2) [OF inv s(1)] by (simp add: wf_sock_def)
  have bytes: "chain_bytes [pkt] = nb_payload pkt" by (simp add: chain_bytes_def)
  have len: "length (nb_payload pkt) = unat (nb_len pkt)" using pkt by simp
  let ?w = "(sock_put sid (credit_sock hdr s) w)
    \<lparr>w_events := (w_events w)(p := credit_events (credit_sock hdr s) (w_events w p))\<rparr>"
  have run: "deliver sid hdr pkt w = uk_vsock_rx_payload sid [pkt] ?w"
    using update_credit_run [OF s(1,3), of hdr] op s by (simp add: deliver_def sock_get_def dispatch_op_def)
  show thesis
  proof (cases "b_count (s_rx s) + unat (nb_len pkt) \<le> b_capacity (s_rx s)")
    case True
    then obtain b where b: "uk_vsock_buffer_append (s_rx s) [pkt] = Some (0, b)" "wf_buffer b"
      "contents b = contents (s_rx s) @ nb_payload pkt"
      using buffer_append_fits [OF wf, of "[pkt]"] pkt bytes len by auto
    let ?w' = "(sock_put sid ((credit_sock hdr s)\<lparr>s_rx := b\<rparr>) w)
      \<lparr>w_events := (w_events w)(p := credit_events (credit_sock hdr s) (w_events w p) OR EPOLLIN)\<rparr>"
    have "deliver sid hdr pkt w = Some (0, ?w')"
      using run b s by (simp add: uk_vsock_rx_payload_def sock_get_def posix_sock_event_set_def sock_put_def)
    then show thesis by (intro that [of ?w' b]) (use True b in simp_all)
  next
    case False
    then have b: "uk_vsock_buffer_append (s_rx s) [pkt] = Some (- ENOSPC, s_rx s)"
      using buffer_append_full [OF wf, of "[pkt]"] pkt bytes len by auto
    let ?w' = "(sock_put sid ((credit_sock hdr s)\<lparr>s_rx := s_rx s\<rparr>) w)
      \<lparr>w_events := (w_events w)(p := credit_events (credit_sock hdr s) (w_events w p))\<rparr>"
    have "deliver sid hdr pkt w = Some (- ENOSPC, ?w')"
      using run b s by (simp add: uk_vsock_rx_payload_def sock_get_def Let_def sock_put_def)
    then show thesis by (intro that [of ?w' "s_rx s"]) (use False wf in simp_all)
  qed
qed

text \<open>
  C4: A data packet for an open connection. When the receive buffer has room for it, exactly its
  payload is appended to what waits there and the socket becomes readable; otherwise nothing of it
  is taken and the error says so. In both cases the announced credit of the peer is stored and the
  socket is writable exactly when the peer has room.
\<close>

theorem data_packet_appended:
  assumes "sock_inv w" and "rx_target hdr pkt w = Some sid" and "w_socks w sid = Some s"
    and "s_state s = UK_VSOCK_STATE_OPEN" and "s_posix_sock s = Some p" and "h_op hdr = VIRTIO_VSOCK_OP_RW"
    and "wf_netbuf pkt"
  shows "\<exists>rx w'. let fits = b_count (s_rx s) + unat (nb_len pkt) \<le> b_capacity (s_rx s) in
    handle_packet hdr pkt w = Some (if fits then 0 else - ENOSPC, w')
    \<and> w_socks w' = (w_socks w)(sid \<mapsto> (credit_sock hdr s)\<lparr>s_rx := rx\<rparr>)
    \<and> contents rx = contents (s_rx s) @ (if fits then nb_payload pkt else [])
    \<and> w_events w' = (w_events w)(p := credit_events (credit_sock hdr s) (w_events w p) OR (if fits then EPOLLIN else 0))"
proof -
  obtain rx w' where d: "deliver sid hdr pkt w = Some (if b_count (s_rx s) + unat (nb_len pkt) \<le> b_capacity (s_rx s)
        then 0 else - ENOSPC, w')" "w_socks w' = (w_socks w)(sid \<mapsto> (credit_sock hdr s)\<lparr>s_rx := rx\<rparr>)"
    "if b_count (s_rx s) + unat (nb_len pkt) \<le> b_capacity (s_rx s)
      then contents rx = contents (s_rx s) @ nb_payload pkt \<and> w_events w' = (w_events w)
        (p := credit_events (credit_sock hdr s) (w_events w p) OR EPOLLIN)
      else rx = s_rx s \<and> w_events w' = (w_events w)(p := credit_events (credit_sock hdr s) (w_events w p))"
    by (rule deliver_data [OF assms(1,3-7)]) (rule that)
  then show ?thesis using assms(2) unfolding Let_def
    by (intro exI [of _ rx] exI [of _ w']) (auto simp: handle_packet_eq split: if_splits)
qed

text \<open>A packet from the peer of the example connection, with one byte of payload.\<close>

definition example_hdr :: virtio_vsock_hdr where
  "example_hdr = \<lparr>h_src_cid = 2, h_dst_cid = 3, h_src_port = 5000, h_dst_port = 1024, h_len = 1,
     h_type = VIRTIO_VSOCK_TYPE_STREAM, h_op = VIRTIO_VSOCK_OP_RW, h_flags = 0, h_buf_alloc = 4096, h_fwd_cnt = 0\<rparr>"

definition example_data :: uk_netbuf where
  "example_data = \<lparr>nb_buf = [7], nb_base = 4096, nb_data = 0, nb_len = 1, nb_flags = 0, nb_csum_start = 0, nb_refcount = 1\<rparr>"

lemma example_target: "rx_target example_hdr example_data example_world = Some 0"
proof -
  have "uk_vsockets_FIND (uk_vsock_sockaddr_key example_sock) example_world = Some 0"
    unfolding find_exact [OF sock_invD(1) [OF example_world_inv], of "uk_vsock_sockaddr_key example_sock",
        unfolded uk_vsock_sockaddr_key_def, simplified, folded uk_vsock_sockaddr_key_def]
    by (simp add: table_ids_def key_of_def example_world_def uk_vsock_sockaddr_key_def)
  then show ?thesis
    by (simp add: rx_target_def example_hdr_def example_data_def uk_vsock_lookup_def example_sock_def
        uk_vsock_sockaddr_key_def) (simp add: example_world_def)
qed

theorem data_packet_appended_witness:
  "\<exists>rx w'. handle_packet example_hdr example_data example_world = Some (0, w')
    \<and> contents rx = contents example_buffer @ [7] \<and> w_socks w' 0 = Some ((credit_sock example_hdr example_sock)\<lparr>s_rx := rx\<rparr>)"
proof -
  have w: "w_socks example_world 0 = Some example_sock" "s_state example_sock = UK_VSOCK_STATE_OPEN"
    "s_posix_sock example_sock = Some 0" "h_op example_hdr = VIRTIO_VSOCK_OP_RW" "wf_netbuf example_data"
    by (simp_all add: example_world_def example_sock_def example_hdr_def example_data_def wf_netbuf_def)
  have "b_count (s_rx example_sock) + unat (nb_len example_data) \<le> b_capacity (s_rx example_sock)"
    "nb_payload example_data = [7]" "s_rx example_sock = example_buffer"
    by (simp_all add: example_sock_def example_buffer_def example_data_def nb_payload_def)
  with data_packet_appended [OF example_world_inv example_target w] show ?thesis
    by (simp add: Let_def) fastforce
qed



section \<open>From one end to the other\<close>

lemma strip_header:
  assumes "wf_netbuf p" and "nb_payload p = encode_hdr h @ bytes" and "\<not> bit (nb_flags p) UK_NETBUF_F_PARTIAL_CSUM_BIT"
  obtains hb p' where "mem_read (nb_buf p) (nb_data p) sizeof_hdr = Some hb" and "decode_hdr hb = h"
    and "uk_netbuf_header p (- of_nat sizeof_hdr) = (1, p')" and "wf_netbuf p'" and "nb_payload p' = bytes"
    and "unat (nb_len p') = length bytes"
proof -
  have len: "unat (nb_len p) = sizeof_hdr + length bytes"
    using assms(1,2) nb_payload_length [OF assms(1)] by simp
  have u: "unat (of_nat sizeof_hdr :: u16) = sizeof_hdr" by (simp add: sizeof_hdr_def)
  let ?p = "p\<lparr>nb_data := nb_data p + sizeof_hdr, nb_len := nb_len p - of_nat sizeof_hdr\<rparr>"
  have pop: "uk_netbuf_header p (- of_nat sizeof_hdr) = (1, ?p)"
    using uk_netbuf_header_pop [of "of_nat sizeof_hdr" p] assms(3) len unfolding u by (simp add: sizeof_hdr_def)
  have wf: "wf_netbuf ?p" using uk_netbuf_header_wf [OF assms(1), of "- of_nat sizeof_hdr"] pop by simp
  have len': "unat (nb_len ?p) = length bytes"
    using len u by (simp add: unat_sub word_le_nat_alt)
  have "nb_payload ?p = drop sizeof_hdr (nb_payload p)"
    using len len' unfolding nb_payload_def by (simp add: drop_take add.commute)
  then have pay: "nb_payload ?p = bytes" using assms(2) by simp
  have rd: "mem_read (nb_buf p) (nb_data p) sizeof_hdr = Some (encode_hdr h)"
    using mem_read_payload [OF assms(1), of 0 sizeof_hdr] assms(2) len by simp
  show thesis by (rule that [OF rd _ pop wf pay len']) (use decode_encode_hdr [of h "[]"] in simp)
qed

text \<open>The two ends of a connection.\<close>

definition connected :: "virtio_vsock \<Rightarrow> virtio_vsock \<Rightarrow> bool" where
  "connected a b \<longleftrightarrow> s_local_addr a = s_peer_addr b \<and> s_peer_addr a = s_local_addr b
     \<and> v_type a = (if s_sock_type b = SOCK_STREAM then VIRTIO_VSOCK_TYPE_STREAM else VIRTIO_VSOCK_TYPE_SEQPACKET)
     \<and> (s_sock_type b = SOCK_STREAM \<or> s_sock_type b = SOCK_SEQPACKET)"

lemma target_connected:
  assumes inv: "sock_inv w" and b: "w_socks w sid = Some b" "active (s_state b)" and conn: "connected a b"
    and len: "unat (h_len h) \<le> unat (nb_len pkt)"
    and h: "h_src_cid h = ucast (a_cid (s_local_addr a))" "h_dst_cid h = ucast (a_cid (s_peer_addr a))"
      "h_src_port h = a_port (s_local_addr a)" "h_dst_port h = a_port (s_peer_addr a)" "h_type h = v_type a"
  shows "rx_target h pkt w = Some sid"
proof -
  have cid: "a_cid (s_local_addr b) = d_cid (w_dev w)"
    using sock_invD(4) [OF inv b(1)] b(2) table_invD(4) [OF sock_invD(1) [OF inv], of sid] key_of_eq [OF b(1)]
    by (simp add: uk_vsock_sockaddr_key_def)
  have "uk_vsockets_FIND (uk_vsock_sockaddr_key b) w = Some sid"
    using find_exact [OF sock_invD(1) [OF inv], of "uk_vsock_sockaddr_key b" sid] sock_invD(4) [OF inv b(1)] b(2)
      key_of_eq [OF b(1)] by (simp add: uk_vsock_sockaddr_key_def)
  then have look: "uk_vsock_lookup (s_sock_type b) (s_local_addr b) (s_peer_addr b) w = Some sid"
    by (simp add: uk_vsock_lookup_def uk_vsock_sockaddr_key_def)
  have addr: "\<lparr>a_cid = d_cid (w_dev w), a_port = a_port (s_local_addr b)\<rparr> = s_local_addr b"
    "\<lparr>a_cid = a_cid (s_peer_addr b), a_port = a_port (s_peer_addr b)\<rparr> = s_peer_addr b"
    using cid by (cases "s_local_addr b"; cases "s_peer_addr b"; simp)+
  show ?thesis using look conn h len cid by (auto simp: rx_target_def connected_def ucast_ucast_cid addr)
qed


text \<open>The other end of the example connection.\<close>

definition example_peer :: virtio_vsock where
  "example_peer = example_sock\<lparr>s_local_addr := s_peer_addr example_sock, s_peer_addr := s_local_addr example_sock\<rparr>"

lemma example_send: "\<exists>w'. virtio_vsock_send 0 [1, 2, 3] example_world = Some (int 3, w')"
proof -
  have w: "w_socks example_world 0 = Some example_sock" by (simp add: example_world_def)
  have n: "3 = min (unat (virtio_vsock_peer_rx_free example_sock)) (length [1, 2, 3 :: u8])"
    by (simp add: virtio_vsock_peer_rx_free_def example_sock_def)
  have put: "sock_put 0 example_sock example_world = example_world"
    by (simp add: sock_put_def example_world_def)
  obtain p w1 where m: "drv_netbuf_alloc (3 + sizeof_hdr) sizeof_hdr example_world = Some (Some p, w1)"
    using example_alloc [of "3 + sizeof_hdr" 0 example_sock] unfolding put by (auto simp: sizeof_hdr_def)
  show ?thesis by (rule send_idle [OF example_world_idle w n _ _ m]) (simp_all add: sizeof_hdr_def)
qed


end
