(* ===== verification/Posix_Props.thy ===== *)
theory Posix_Props
  imports Rx_Props
begin

text \<open>
  Properties of the socket calls over the virtio driver: binding and ports, accepting, reading,
  closing, options and shutdown.
\<close>

section \<open>Binding and ports\<close>

text \<open>
  C13: A successful \<open>bind\<close> gives the socket the address that \<open>getsockname\<close> then reports: the context
  of the device, and the port that was asked for or, for an unspecified one, a port that no socket
  of the type used. A search for the new address finds the socket.
\<close>

theorem bind_getsockname:
  assumes "sock_inv w" and "vsock_bind virtio_vsockdev_ops sid svm len w = Some (0, w')"
  shows "\<exists>s port. w_socks w sid = Some s
    \<and> vsock_getsockname sid (Some sizeof_svm) w' =
        Some (0, svm_bytes \<lparr>svm_family = AF_VSOCK, svm_port = port, svm_cid = d_cid (w_dev w)\<rparr>)
    \<and> (if svm_port svm = VMADDR_PORT_ANY then \<not> port_used w (s_sock_type s) port else port = svm_port svm)
    \<and> uk_vsockets_FIND \<lparr>ci_type = s_sock_type s, ci_local = \<lparr>a_cid = d_cid (w_dev w), a_port = port\<rparr>,
        ci_peer = any_addr, ci_mask = {}\<rparr> w' = Some sid"
  using assms
proof (cases rule: virtio.bind_cases)
  case (err n)
  then show ?thesis by simp
next
  case (ok s port t n)
  let ?b = "bound_sock (d_cid (w_dev w)) port s"
  have b: "w_socks w' sid = Some ?b" unfolding ok(4) by simp
  have len: "length (svm_bytes x) = sizeof_svm" for x by (simp add: svm_bytes_def sizeof_svm_def)
  have key: "uk_vsock_sockaddr_key ?b = \<lparr>ci_type = s_sock_type s, ci_local = \<lparr>a_cid = d_cid (w_dev w), a_port = port\<rparr>,
        ci_peer = any_addr, ci_mask = {}\<rparr>" by (simp add: uk_vsock_sockaddr_key_def bound_sock_def)
  have "sid \<in> set (table_ids w')" using sock_invD(4) [OF ok(5) b] by (simp add: bound_sock_def)
  then have "uk_vsockets_FIND (uk_vsock_sockaddr_key ?b) w' = Some sid"
    using find_exact [OF sock_invD(1) [OF ok(5)], of "uk_vsock_sockaddr_key ?b" sid] key_of_eq [OF b]
    by (simp add: uk_vsock_sockaddr_key_def)
  moreover have "vsock_getsockname sid (Some sizeof_svm) w' =
      Some (0, svm_bytes \<lparr>svm_family = AF_VSOCK, svm_port = port, svm_cid = d_cid (w_dev w)\<rparr>)"
    using b len by (simp add: vsock_getsockname_def sock_get_def bound_sock_def)
  ultimately show ?thesis using ok(2,7) unfolding key by blast
qed

text \<open>The example system with a second socket that has no address yet.\<close>

definition example_ready :: virtio_vsock where
  "example_ready = example_sock\<lparr>s_state := UK_VSOCK_STATE_READY, s_local_addr := any_addr, s_peer_addr := any_addr\<rparr>"

definition example_two :: vsock_world where
  "example_two = add_sock example_ready example_world"

lemma example_two_inv: "sock_inv example_two"
  unfolding example_two_def
  by (rule inv_add [OF example_world_inv]) (simp_all add: example_ready_def example_sock_def wf_sock_def example_buffer_wf)

lemma example_bind: "\<exists>w'. vsock_bind virtio_vsockdev_ops 1
    \<lparr>svm_family = AF_VSOCK, svm_port = 7, svm_cid = VMADDR_CID_ANY\<rparr> sizeof_svm example_two = Some (0, w')"
proof -
  have s: "w_socks example_two 1 = Some example_ready" "s_state example_ready = UK_VSOCK_STATE_READY" "w_main_dev example_two"
    by (simp_all add: example_two_def add_sock_def example_world_def example_ready_def)
  have tab: "table_ids example_two = [0]" "key_of example_two 0 = uk_vsock_sockaddr_key example_sock"
    by (simp_all add: table_ids_def key_of_def example_two_def add_sock_def example_world_def)
  let ?k = "\<lparr>ci_type = s_sock_type example_ready, ci_local = \<lparr>a_cid = 0, a_port = 7\<rparr>, ci_peer = any_addr,
    ci_mask = {MASK_LOCAL_CID}\<rparr>"
  have "uk_vsockets_FIND ?k example_two \<noteq> Some x" for x
    using find_any_local_cid [OF sock_invD(1) [OF example_two_inv], of ?k x] tab
    by (auto simp: uk_vsock_sockaddr_key_def example_sock_def)
  then have "uk_vsockets_FIND ?k example_two = None" by (cases "uk_vsockets_FIND ?k example_two") auto
  with virtio.bind_run [OF s(1,2), of sizeof_svm "\<lparr>svm_family = AF_VSOCK, svm_port = 7, svm_cid = VMADDR_CID_ANY\<rparr>"
      0 example_two "w_port_alloc_next example_two" 7] s(3) show ?thesis by simp
qed

theorem bind_getsockname_witness:
  "\<exists>w'. vsock_bind virtio_vsockdev_ops 1 \<lparr>svm_family = AF_VSOCK, svm_port = 7, svm_cid = VMADDR_CID_ANY\<rparr> sizeof_svm
      example_two = Some (0, w')
    \<and> vsock_getsockname 1 (Some sizeof_svm) w' = Some (0, svm_bytes \<lparr>svm_family = AF_VSOCK, svm_port = 7, svm_cid = 3\<rparr>)"
proof -
  obtain w' where b: "vsock_bind virtio_vsockdev_ops 1 \<lparr>svm_family = AF_VSOCK, svm_port = 7, svm_cid = VMADDR_CID_ANY\<rparr>
      sizeof_svm example_two = Some (0, w')" using example_bind by blast
  have "d_cid (w_dev example_two) = 3" by (simp add: example_two_def add_sock_def example_world_def)
  with bind_getsockname [OF example_two_inv b] b show ?thesis by auto
qed



section \<open>Control packets of the example\<close>

lemma ctrl_idle:
  assumes env: "tx_env w" and ok: "tx_queue_ok free [] (tx_queue w)" and num: "VSOCK_MAX_FRAGMENTS \<le> vr_num (q_vq (tx_queue w))"
    and mem: "drv_netbuf_alloc sizeof_hdr 0 w = Some (Some p, w1)"
  shows "\<exists>w'. xmit_ctrl hdr w = Some (0, w')"
proof -
  have good: "tx_good (w_live_netbufs w) w" using env ok unfolding tx_good_def by fastforce
  have sz: "0 < sizeof_hdr" "0 \<le> sizeof_hdr" by (simp_all add: sizeof_hdr_def)
  have p: "nb_data p = 0" "sizeof_hdr \<le> length (nb_buf p)" "nb_flags p = 0" "nb_refcount p = 1" "tx_env w1"
    by (rule netbuf_alloc_live [OF good sz]; use mem in \<open>simp add: tx_good_def\<close>)+
  let ?p = "p\<lparr>nb_len := of_nat sizeof_hdr\<rparr>"
  have len: "unat (of_nat sizeof_hdr :: u16) = sizeof_hdr" by (simp add: sizeof_hdr_def)
  have wf: "wf_netbuf ?p" using p len by (simp add: wf_netbuf_def)
  obtain m where pkt: "write_hdr hdr ?p = Some (?p\<lparr>nb_buf := m\<rparr>)"
    by (rule write_hdr_payload [of ?p hdr]) (use p len wf in simp_all)
  have q: "tx_queue w1 = tx_queue w" using mem by (auto simp: drv_netbuf_alloc_def returns)
  have ref: "nb_refcount (?p\<lparr>nb_buf := m\<rparr>) = 1" "0 < unat (nb_len (?p\<lparr>nb_buf := m\<rparr>))" using p(4) len sz by simp_all
  obtain w2 where "virtio_vsockdev_xmit (?p\<lparr>nb_buf := m\<rparr>) w1 = Some (0, w2)"
    using xmit_idle [OF p(5) _ _ ref] ok num q by metis
  then have "virtio_vsockdev_xmit_retry (?p\<lparr>nb_buf := m\<rparr>) w1 = Some (0, w2)"
    by (simp add: virtio_vsockdev_xmit_retry.simps)
  with mem pkt show ?thesis by (simp add: xmit_ctrl_def)
qed

lemma example_ctrl:
  assumes "tx_env w" and "tx_queue w = example_queue" and "w_alloc w = alloc_plenty\<lparr>al_requests := r\<rparr>" and "r < 1000"
  shows "\<exists>w'. xmit_ctrl hdr w = Some (0, w')"
proof -
  have "8 * Suc r + (align_up sizeof_hdr 8 + align_up 96 8) \<le> 2 ^ 64"
    using assms(4) by (simp add: align_up_def sizeof_hdr_def)
  moreover have "align_down (8 * Suc r + (align_up sizeof_hdr 8 + align_up 96 8)) 8 =
      8 * Suc r + (align_up sizeof_hdr 8 + align_up 96 8)"
    by (intro align_down_dvd dvd_add dvd_align_up) simp_all
  ultimately obtain p w1 where "drv_netbuf_alloc sizeof_hdr 0 w = Some (Some p, w1)" using assms(3)
    by (auto simp: drv_netbuf_alloc_def uk_netbuf_alloc_buf_def uk_netbuf_prepare_buf_def uk_netbuf_init_indir_def
        uk_memalign_def alloc_plenty_def sizeof_uk_netbuf_def NETBUF_ADDR_ALIGNMENT_def sizeof_hdr_def Let_def align_up_def)
  then show ?thesis using ctrl_idle [OF assms(1), of "[0..<32]"] example_world_idle(2,3) assms(2)
    by (simp add: example_world_def)
qed

section \<open>Accepting\<close>

text \<open>
  What an accepted connection leaves: the state \<open>w2\<close> of the driver after its answer, in which the
  new socket \<open>s2\<close> is then opened and entered into the table.
\<close>

lemma accept_result:
  assumes inv: "sock_inv w"
    and run: "vsock_accept4 virtio_vsockdev_ops ps sid addr len w = Some (Inr (new, copied), w')"
  obtains l e q w2 s2 where "w_socks w sid = Some l" and "s_state l = UK_VSOCK_STATE_LISTENING"
    and "s_accept_queue l = e # q" and "new = w_next_sock w" and "w_socks w2 new = Some s2" and "sock_inv w2"
    and "uk_vsock_sockaddr_key s2 = \<lparr>ci_type = s_sock_type l, ci_local =
      \<lparr>a_cid = d_cid (w_dev w), a_port = a_port (s_local_addr l)\<rparr>, ci_peer = ae_peer e, ci_mask = {}\<rparr>"
    and "contents (s_rx s2) = []" and "table_ids w2 = table_ids w" and "\<forall>x\<in>set (table_ids w). key_of w2 x = key_of w x"
    and "new \<notin> set (table_ids w)"
    and "w_socks w' = (w_socks w2)(new \<mapsto> s2\<lparr>s_state := UK_VSOCK_STATE_OPEN\<rparr>)"
    and "w_sockets w' = w_sockets (snd (uk_vsockets_INSERT new (sock_put new (s2\<lparr>s_state := UK_VSOCK_STATE_OPEN\<rparr>) w2)))"
    and "\<exists>l'. w_socks w' sid = Some l' \<and> s_accept_queue l' = q \<and> s_accept_queue_length l' = s_accept_queue_length l - 1"
  using inv run
proof (cases rule: virtio.accept_cases)
  case (refused e)
  then show thesis by simp
next
  case (failed l entry q rc)
  then show thesis by simp
next
  case (accepted l entry q s w2 s2 w3 c)
  let ?w = "sock_put sid (pop_accept q l) w" and ?new = "w_next_sock w"
  note f = fresh_sockD [OF accepted(5)] and tf = truncate_fields [OF accepted(10)]
  have inv2: "sock_inv w2"
    by (rule sock_inv_core [OF accepted(8) inv_add [OF pop_accept_inv [OF inv accepted(1,3)] f(1,2)]])
  have ids: "table_ids w2 = table_ids w" using core_fields(7) [OF accepted(8)] by (simp add: add_sock_def table_ids_def)
  have key: "key_of w2 x = key_of w x \<and> x \<noteq> ?new" if mem: "x \<in> set (table_ids w)" for x
  proof -
    obtain sx where sx: "w_socks w x = Some sx" using table_invD(3) [OF sock_invD(1) [OF inv] mem] by blast
    then have ne: "x \<noteq> ?new" using sock_invD(3) [OF inv sx] by simp
    then have "w_socks (add_sock s ?w) x \<noteq> None" using sx by (simp add: add_sock_def)
    from core_key [OF accepted(8) this] ne sx accepted(1) show ?thesis
      by (auto simp: add_sock_def key_of_def pop_accept_def uk_vsock_sockaddr_key_def)
  qed
  have k2: "uk_vsock_sockaddr_key s2 = \<lparr>ci_type = s_sock_type l, ci_local =
      \<lparr>a_cid = d_cid (w_dev w), a_port = a_port (s_local_addr l)\<rparr>, ci_peer = ae_peer entry, ci_mask = {}\<rparr>"
    using tf accepted(6,7) f(3) by (simp add: uk_vsock_sockaddr_key_def)
  have cont: "contents (s_rx s2) = []" using tf(8) accepted(5) by (simp add: fresh_sock_def)
  have new: "new = ?new" using accepted(4) by simp
  have ne: "sid \<noteq> ?new" using sock_invD(3) [OF inv accepted(1)] by simp
  have socks: "w_socks w' = (w_socks w2)(new \<mapsto> s2\<lparr>s_state := UK_VSOCK_STATE_OPEN\<rparr>)"
    using accepted(11,12) by (simp add: new uk_vsockets_INSERT_def sock_put_def case_prod_unfold Let_def)
  have "w_socks (add_sock s ?w) sid = Some (pop_accept q l)" using ne by (simp add: add_sock_def)
  from core_sock [OF accepted(8) this] obtain l2 where l2: "w_socks w2 sid = Some l2"
    "uk_vsock.truncate l2 = uk_vsock.truncate (pop_accept q l)" .
  have "\<exists>l'. w_socks w' sid = Some l' \<and> s_accept_queue l' = q \<and> s_accept_queue_length l' = s_accept_queue_length l - 1"
    using l2(1) truncate_fields [OF l2(2)] ne by (simp add: socks new pop_accept_def)
  moreover have "w_sockets w' = w_sockets (snd (uk_vsockets_INSERT new (sock_put new (s2\<lparr>s_state := UK_VSOCK_STATE_OPEN\<rparr>) w2)))"
    using accepted(11,12) by (simp add: new)
  ultimately show thesis
    using that [OF accepted(1-3) new _ inv2 k2 cont ids _ _ socks] accepted(9) key new by blast
qed



text \<open>The example system with a socket that listens and has requests of two peers.\<close>

definition example_request :: "u32 \<Rightarrow> virtio_vsock_accept_entry" where
  "example_request port = \<lparr>ae_peer = \<lparr>a_cid = 2, a_port = port\<rparr>, ae_peer_buf_alloc = 64, ae_peer_fwd_count = 0\<rparr>"

definition example_listener :: virtio_vsock where
  "example_listener = example_sock\<lparr>s_state := UK_VSOCK_STATE_LISTENING, s_peer_addr := any_addr,
     s_accept_queue := [example_request 5000, example_request 6000], s_accept_queue_length := 2, s_accept_queue_limit := 4\<rparr>"

lemma example_listener_inv: "sock_inv (single_world example_listener 3)"
  by (rule single_world_inv) (simp_all add: example_listener_def example_sock_def wf_sock_def example_buffer_wf)

lemma example_accept:
  assumes l: "w_socks w sid = Some l" "s_state l = UK_VSOCK_STATE_LISTENING" "s_accept_queue l = e # q"
      "0 < s_accept_queue_length l" "w_main_dev w" "sid \<noteq> w_next_sock w"
    and env: "tx_env w" "tx_queue w = example_queue" "w_alloc w = alloc_plenty"
  shows "\<exists>copied w'. vsock_accept4 virtio_vsockdev_ops ps sid False None w = Some (Inr (w_next_sock w, copied), w')"
proof -
  let ?w0 = "sock_put sid (pop_accept q l) w"
  let ?w1 = "?w0\<lparr>w_alloc := alloc_plenty\<lparr>al_requests := 2\<rparr>\<rparr>"
  obtain s0 where i: "uk_vsock_init (alloc_plenty\<lparr>al_requests := Suc 0\<rparr>) (s_sock_type l) =
      (0, Some s0, alloc_plenty\<lparr>al_requests := 2\<rparr>)"
    by (simp add: uk_vsock_init_def uk_vsock_buffer_init_def uk_malloc_def uk_memalign_def alloc_plenty_def)
  have m: "uk_malloc alloc_plenty sizeof_virtio_vsock = (Some (8, \<lambda>_. 0), alloc_plenty\<lparr>al_requests := Suc 0\<rparr>)"
    by (simp add: uk_malloc_def uk_memalign_def alloc_plenty_def sizeof_virtio_vsock_def)
  have env1: "tx_env ?w1" "tx_queue ?w1 = example_queue" using env
    by (simp_all add: tx_env_def sock_put_def alloc_ok_def)
  let ?vs = "\<lambda>w. (uk_vsock.extend s0 \<lparr>v_type = v_type l, v_peer_buf_alloc = ae_peer_buf_alloc e,
      v_peer_fwd_count = ae_peer_fwd_count e, v_tx_count = 0\<rparr>)\<lparr>s_peer_addr := ae_peer e,
      s_local_addr := \<lparr>a_cid = d_cid (w_dev w), a_port = a_port (s_local_addr l)\<rparr>\<rparr>"
  obtain w2 where x: "xmit_ctrl (conn_respond_hdr (?vs ?w1) ?w1) ?w1 = Some (0, w2)"
    using example_ctrl [OF env1, of 2] by fastforce
  have nx: "w_next_sock w2 = w_next_sock w" "w_socks w2 = w_socks ?w0"
    using tx_frame_fields(1,2) [OF xmit_ctrl_frame [OF x]] by simp_all
  have p: "w_alloc ?w0 = alloc_plenty" "w_socks ?w0 sid = Some (pop_accept q l)" "s_sock_type (pop_accept q l) = s_sock_type l"
    "v_type (pop_accept q l) = v_type l" "s_local_addr (pop_accept q l) = s_local_addr l" "w_dev ?w1 = w_dev w"
    using env(3) by (simp_all add: sock_put_def pop_accept_def)
  have a: "virtio_vsock_accept sid e ?w0 = Some (0, Some (w_next_sock w),
      (sock_put (w_next_sock w) (?vs ?w1) w2)\<lparr>w_next_sock := Suc (w_next_sock w)\<rparr>)"
    using i m x nx p unfolding virtio_vsock_accept_def sock_get_def virtio_vsock_conn_respond_def by (simp add: Let_def)
  show ?thesis using l a nx
    by (simp add: vsock_accept4_def sock_get_def sock_upd_def virtio_vsockdev_ops_def pop_accept_def
        virtio_vsock_free_accept_entry_def uk_vsockets_INSERT_def case_prod_unfold Let_def posix_sock_event_clear_def)
qed

lemma single_world_good: "tx_env (single_world s cid)" "tx_queue (single_world s cid) = example_queue"
  "w_alloc (single_world s cid) = alloc_plenty"
  using example_world_idle(1) by (simp_all add: tx_env_def single_world_def example_world_def)


text \<open>The example connection beside a listening socket on the same port, with a request of the same peer.\<close>

definition example_again :: virtio_vsock where
  "example_again = example_listener\<lparr>s_accept_queue := [example_request 5000], s_accept_queue_length := 1\<rparr>"

lemma example_again_world:
  obtains t where "sock_inv ((add_sock example_again example_world)\<lparr>w_sockets := t\<rparr>)" and "0 \<in> set (inorder t)"
proof -
  let ?r = "example_again\<lparr>s_state := UK_VSOCK_STATE_READY\<rparr>"
  have e: "wf_sock example_again" "s_local_addr example_again = \<lparr>a_cid = 3, a_port = 1024\<rparr>" "s_peer_addr example_again = any_addr"
    "s_state example_again = UK_VSOCK_STATE_LISTENING"
    by (simp_all add: example_again_def example_listener_def example_sock_def wf_sock_def example_buffer_wf)
  have w: "w_next_sock example_world = 1" "table_ids example_world = [0]" "w_socks example_world 0 = Some example_sock"
    "d_cid (w_dev example_world) = 3"
    by (simp_all add: example_world_def table_ids_def)
  have inv: "sock_inv (add_sock ?r example_world)"
    by (rule inv_add [OF example_world_inv]) (use e(1) in \<open>simp_all add: wf_sock_def\<close>)
  have s: "w_socks (add_sock ?r example_world) 1 = Some ?r" "\<not> active (s_state ?r)"
    "a_cid (s_local_addr example_again) = d_cid (w_dev (add_sock ?r example_world))"
    using w e(2) by (simp_all add: add_sock_def)
  have fresh: "\<forall>x\<in>set (table_ids (add_sock ?r example_world)). key_of (add_sock ?r example_world) x \<noteq> uk_vsock_sockaddr_key example_again"
    using w e(3) by (simp add: add_sock_def table_ids_def key_of_def uk_vsock_sockaddr_key_def example_sock_def any_addr_def)
  obtain t where t: "\<And>s''. active (s_state s'') \<Longrightarrow> wf_sock s'' \<Longrightarrow> uk_vsock_sockaddr_key s'' = uk_vsock_sockaddr_key example_again \<Longrightarrow>
      sock_inv ((sock_put 1 s'' (add_sock ?r example_world))\<lparr>w_sockets := t\<rparr>)"
    "set (inorder t) = insert 1 (set (table_ids (add_sock ?r example_world)))"
    by (rule inv_insert [OF inv s fresh]) (rule that)
  have "sock_put 1 example_again (add_sock ?r example_world) = add_sock example_again example_world"
    using w by (simp add: add_sock_def sock_put_def)
  then have "sock_inv ((add_sock example_again example_world)\<lparr>w_sockets := t\<rparr>)"
    using t(1) [of example_again] e by simp
  moreover have "0 \<in> set (inorder t)" using t(2) w by (simp add: add_sock_def table_ids_def)
  ultimately show thesis by (rule that)
qed


section \<open>Closing\<close>

text \<open>
  C11: A successful \<open>close\<close> removes the socket and exactly this socket: its number is free, a search
  for its addresses finds nothing, and every other socket, with the state, the addresses and the
  data that it had, stays.
\<close>

theorem close_removes_socket:
  assumes "sock_inv w" and "w_socks w sid = Some s" and "vsock_close virtio_vsockdev_ops sid w = Some (0, w')"
  shows "w_socks w' sid = None
    \<and> (\<forall>x. x \<noteq> sid \<longrightarrow> map_option uk_vsock.truncate (w_socks w' x) = map_option uk_vsock.truncate (w_socks w x))
    \<and> set (table_ids w') = set (table_ids w) - {sid}
    \<and> (active (s_state s) \<longrightarrow> uk_vsockets_FIND (uk_vsock_sockaddr_key s) w' = None)"
proof -
  obtain rc1 w1 where c: "uk_vsock_close virtio_vsockdev_ops sid False w = Some (rc1, w1)"
    and r: "(if rc1 \<noteq> 0 then Some (rc1, w1) else dev_call (op_destroy virtio_vsockdev_ops sid) w1) = Some (0, w')"
    using assms(3) unfolding vsock_close_def uk_vsock_destroy_def by (rule bind_pairE)
  have rc1: "rc1 = 0" using r by (simp split: if_splits)
  then have core': "core w' = core (del_sock sid w1)"
    using r by (auto simp: dev_call_def virtio.destroy_core split: if_splits)
  have socks1: "map_option uk_vsock.truncate (w_socks w1 x) = map_option uk_vsock.truncate (w_socks w x)" if "x \<noteq> sid" for x
    using assms(1,2) c
    by (cases rule: virtio.close_cases) (use that rc1 in \<open>auto simp: closed_world_def dest: core_socks [of _ _ x]\<close>)
  have ids1: "set (table_ids w1) = set (table_ids w) - {sid}"
    using assms(1,2) c
  proof (cases rule: virtio.close_cases)
    case idle
    then show ?thesis using core_fields(7) [OF idle(2)] sock_invD(4) [OF assms(1,2)] by auto
  next
    case (closed t p)
    then show ?thesis using core_fields(7) [OF closed(5)] set_remove1_eq [OF table_distinct [OF sock_invD(1) [OF assms(1)]]]
      by (simp add: closed_world_def table_ids_def)
  qed (use rc1 in simp)
  have none: "w_socks w' sid = None" using core_sock_None [OF core', of sid] by (simp add: del_sock_def)
  have socks: "map_option uk_vsock.truncate (w_socks w' x) = map_option uk_vsock.truncate (w_socks w x)" if "x \<noteq> sid" for x
    using core_socks [OF core', of x] socks1 [OF that] that by (simp add: del_sock_def)
  have ids: "set (table_ids w') = set (table_ids w) - {sid}"
    using core_fields(7) [OF core'] ids1 by (simp add: del_sock_def table_ids_def)
  have find: "uk_vsockets_FIND (uk_vsock_sockaddr_key s) w' = None" if act: "active (s_state s)"
  proof (rule ccontr)
    assume "uk_vsockets_FIND (uk_vsock_sockaddr_key s) w' \<noteq> None"
    then obtain x where "uk_vsockets_FIND (uk_vsock_sockaddr_key s) w' = Some x" by blast
    then have x: "x \<in> set (table_ids w')" "key_of w' x = uk_vsock_sockaddr_key s"
      using find_exact [OF sock_invD(1) [OF close_step_inv [OF assms(1,3)]], of "uk_vsock_sockaddr_key s" x]
      by (simp_all add: uk_vsock_sockaddr_key_def)
    then have "x \<in> set (table_ids w)" "x \<noteq> sid" using ids by auto
    moreover have "key_of w' x = key_of w x"
    proof -
      obtain y where y: "w_socks w x = Some y" using table_invD(3) [OF sock_invD(1) [OF assms(1)] calculation(1)] by blast
      then obtain y' where "w_socks w' x = Some y'" "uk_vsock.truncate y' = uk_vsock.truncate y"
        using socks [OF calculation(2)] by (cases "w_socks w' x") auto
      with y show ?thesis using key_truncate [of y' y] by (simp add: key_of_def)
    qed
    moreover have "sid \<in> set (table_ids w)" using sock_invD(4) [OF assms(1,2)] act by simp
    ultimately show False using table_key_inj [OF sock_invD(1) [OF assms(1)], of x sid] x(2) key_of_eq [OF assms(2)] by simp
  qed
  from none socks ids find show ?thesis by blast
qed

theorem close_removes_socket_witness:
  "\<exists>w'. vsock_close virtio_vsockdev_ops 0 (single_world example_listener 3) = Some (0, w') \<and> w_socks w' 0 = None
    \<and> uk_vsockets_FIND (uk_vsock_sockaddr_key example_listener) w' = None"
proof -
  have l: "w_socks (single_world example_listener 3) 0 = Some example_listener" "active (s_state example_listener)"
    by (simp_all add: single_world_def example_listener_def)
  have "bal (Node False False Null (0 :: nat) Null) 1" by simp
  then obtain t where "rb_remove (0 :: nat) (Node False False Null 0 Null) = Some t"
    by (rule rb_remove_correct [of _ _ 0]) simp_all
  then have "\<exists>w'. vsock_close virtio_vsockdev_ops 0 (single_world example_listener 3) = Some (0, w')"
    by (simp add: vsock_close_def uk_vsock_destroy_def uk_vsock_close_def single_world_def example_world_def
        example_listener_def example_sock_def sock_get_def sock_upd_def sock_put_def dev_call_def uk_vsock_drain_accept_queue_def
        virtio_vsockdev_ops_def virtio_vsock_free_accept_entry_def Let_def uk_vsockets_REMOVE_def close_finish_def
        posix_sock_event_clear_def posix_sock_event_set_def virtio_vsock_destroy_def)
  then obtain w' where r: "vsock_close virtio_vsockdev_ops 0 (single_world example_listener 3) = Some (0, w')" ..
  from close_removes_socket [OF example_listener_inv l(1) r] l(2) r show ?thesis by auto
qed

section \<open>Reading\<close>

text \<open>
  C7: A read returns a prefix of the received bytes and leaves the rest: as many bytes as the
  vector, up to its first empty element, and the buffer have. With nothing to read it fails with
  \<open>EAGAIN\<close>, or returns the end of the stream when the peer has ended it. The consumed bytes are
  added to the count that the credit updates report, and the state of the socket stays.
\<close>

theorem read_returns_prefix:
  assumes "sock_inv w" and "w_socks w sid = Some s"
    and "s_state s \<in> {UK_VSOCK_STATE_OPEN, UK_VSOCK_STATE_CLOSED}"
    and "vsock_read virtio_vsockdev_ops ps sid iov w = Some (ret, out, w')"
  shows "\<exists>s'. w_socks w' sid = Some s' \<and> out @ contents (s_rx s') = contents (s_rx s)
    \<and> length out = min (sum_list (takeWhile (\<lambda>l. l \<noteq> 0) iov)) (b_count (s_rx s))
    \<and> ret = (if out \<noteq> [] \<or> iov = [] \<or> s_rx_shutdown s then int (length out) else - EAGAIN)
    \<and> b_total_processed (s_rx s') = b_total_processed (s_rx s) + of_nat (length out)
    \<and> s_state s' = s_state s \<and> b_capacity (s_rx s') = b_capacity (s_rx s)"
proof -
  obtain w1 where r: "read_loop virtio_vsockdev_ops sid iov [] w = Some (ret, out, w1)" "read_finish ps sid w1 = Some w'"
    using assms(2-4) by (auto simp: vsock_read_def sock_get_def returns)
  have wf: "wf_buffer (s_rx s)" using sock_invD(2) [OF assms(1,2)] by (simp add: wf_sock_def)
  obtain rx where rx: "out = [] @ take (taken iov (b_count (s_rx s))) (contents (s_rx s))"
    "ret = (if out \<noteq> [] \<or> iov = [] \<or> s_rx_shutdown s then int (length out) else - EAGAIN)"
    "contents rx = drop (taken iov (b_count (s_rx s))) (contents (s_rx s))" "b_capacity rx = b_capacity (s_rx s)"
    "b_total_processed rx = b_total_processed (s_rx s) + of_nat (taken iov (b_count (s_rx s)))"
    "core w1 = core (sock_put sid (s\<lparr>s_rx := rx\<rparr>) w)"
    using virtio.read_loop_spec [OF assms(2) wf r(1)] by blast
  obtain s1 where s1: "w_socks w1 sid = Some s1" "uk_vsock.truncate s1 = uk_vsock.truncate (s\<lparr>s_rx := rx\<rparr>)"
    by (rule core_sock [OF rx(6), of sid "s\<lparr>s_rx := rx\<rparr>"]) simp_all
  have "w_socks w' = w_socks w1" using r(2) by (auto simp: read_finish_def returns posix_sock_event_clear_def split: if_splits)
  moreover have "length out = taken iov (b_count (s_rx s))" using rx(1) by (simp add: taken_def)
  ultimately show ?thesis using s1 truncate_fields [OF s1(2)] rx
    by (intro exI [of _ s1]) (simp add: taken_def)
qed

lemma example_read: "\<exists>ret out w'. vsock_read virtio_vsockdev_ops 0 0 [2] example_world = Some (ret, out, w')"
proof -
  let ?b = "example_buffer"
  have "contents ?b = [40]" by (simp add: contents_def example_buffer_def ring_take_def)
  then have rd: "uk_vsock_buffer_read ?b 2 = Some [40]" by (simp add: buffer_read_contents [OF example_buffer_wf])
  obtain b where b: "uk_vsock_buffer_consume ?b (Suc 0) = Some b"
    using buffer_consume_contents [OF example_buffer_wf, of "Suc 0"] by (auto simp: example_buffer_def)
  let ?s = "example_sock\<lparr>s_rx := b\<rparr>"
  let ?w = "sock_put 0 ?s example_world"
  have env: "tx_env ?w" "tx_queue ?w = example_queue" "w_alloc ?w = alloc_plenty\<lparr>al_requests := 0\<rparr>" "w_main_dev ?w"
    using example_world_idle(1) by (simp_all add: tx_env_def example_world_def sock_put_def alloc_plenty_def)
  have "\<exists>w1. virtio_vsock_send_credit_update 0 ?w = Some (0, w1)"
    using example_ctrl [OF env(1-3)]
    by (simp add: virtio_vsock_send_credit_update_def virtio_vsock_work_credit_request_def sock_get_def)
  then obtain w1 where w1: "virtio_vsock_send_credit_update 0 ?w = Some (0, w1)" ..
  then have "w_socks w1 0 = Some ?s"
    using virtio.credit_core [of 0 ?w 0 w1] tx_frame_fields(1) [OF credit_request_frame]
    by (simp add: virtio_vsock_send_credit_update_def)
  moreover have "w_socks example_world 0 = Some example_sock" "s_rx example_sock = ?b" "s_state example_sock = UK_VSOCK_STATE_OPEN"
    by (simp_all add: example_world_def example_sock_def)
  ultimately show ?thesis using rd b w1 env(4)
    by (simp add: vsock_read_def sock_get_def credit_notify_def virtio_vsockdev_ops_def read_finish_def
        posix_sock_event_clear_def)
qed

theorem read_returns_prefix_witness:
  "\<exists>w' s'. vsock_read virtio_vsockdev_ops 0 0 [2] example_world = Some (1, [40], w') \<and> w_socks w' 0 = Some s'
    \<and> contents (s_rx s') = []"
proof -
  obtain ret out w' where r: "vsock_read virtio_vsockdev_ops 0 0 [2] example_world = Some (ret, out, w')"
    using example_read by blast
  have w: "w_socks example_world 0 = Some example_sock"
    "s_state example_sock \<in> {UK_VSOCK_STATE_OPEN, UK_VSOCK_STATE_CLOSED}"
    and b: "contents (s_rx example_sock) = [40]" "b_count (s_rx example_sock) = 1"
    by (simp_all add: example_world_def example_sock_def contents_def example_buffer_def ring_take_def)
  from read_returns_prefix [OF example_world_inv w r] obtain s' where s': "w_socks w' 0 = Some s'"
    "out @ contents (s_rx s') = [40]" "length out = 1" "ret = (if out \<noteq> [] \<or> [2 :: nat] = [] \<or> s_rx_shutdown example_sock
      then int (length out) else - EAGAIN)" unfolding b by auto
  then have "out = [40]" "contents (s_rx s') = []" by (cases out; simp)+
  with s' r show ?thesis by simp
qed

section \<open>Shutdown\<close>

text \<open>
  C30: The flags of a shutdown are swapped: \<open>shutdown(fd, SHUT_WR)\<close> tells the peer that no more data is
  sent, but marks the own socket as closed for receiving, and leaves it open for sending, since the
  flags are handed to a function that expects those of the peer.
\<close>

theorem shutdown_write_ends_reading:
  assumes "sock_inv w" and "w_socks w sid = Some s" and "s_posix_sock s = Some p" and "\<not> s_tx_shutdown s"
    and "vsock_shutdown virtio_vsockdev_ops sid SHUT_WR w = Some (0, w')" 
  shows "\<exists>s'. w_socks w' sid = Some s' \<and> s_state s' = UK_VSOCK_STATE_OPEN \<and> s_rx_shutdown s' \<and> \<not> s_tx_shutdown s'
    \<and> w_events w' p = w_events w p OR EPOLLRDHUP"
proof -
  have "w_main_dev w \<and> s_state s = UK_VSOCK_STATE_OPEN"
    using assms(2,5) by (auto simp: vsock_shutdown_def sock_get_def returns split: if_splits)
  then obtain w1 where w1: "virtio_vsock_shutdown sid False True w = Some (0, w1)"
    "uk_vsock_conn_shutdown virtio_vsockdev_ops sid False True w1 = Some (0, w')" and o: "s_state s = UK_VSOCK_STATE_OPEN"
    using assms(2,5) by (auto simp: vsock_shutdown_def sock_get_def returns virtio_vsockdev_ops_def split: if_splits)
  have fr: "tx_frame w w1" using w1(1) by (auto simp: virtio_vsock_shutdown_def returns intro: xmit_ctrl_frame)
  then have ev: "w_events w1 = w_events w" by (auto simp: tx_frame_def)
  have s1: "w_socks w1 sid = Some s" by (simp add: tx_frame_fields(1) [OF fr] assms(2))
  from w1(2) show ?thesis
    unfolding conn_shutdown_eq [OF s1 o assms(3)] using assms(4) o ev by (auto simp: shut_sock_def shut_events_def)
qed

theorem shutdown_write_ends_reading_witness:
  "\<exists>w' s'. vsock_shutdown virtio_vsockdev_ops 0 SHUT_WR example_world = Some (0, w') \<and> w_socks w' 0 = Some s'
    \<and> s_rx_shutdown s' \<and> \<not> s_tx_shutdown s'"
proof -
  have w: "w_socks example_world 0 = Some example_sock" "s_posix_sock example_sock = Some 0" "\<not> s_tx_shutdown example_sock"
    "s_state example_sock = UK_VSOCK_STATE_OPEN" "\<not> s_rx_shutdown example_sock" "w_main_dev example_world"
    by (simp_all add: example_world_def example_sock_def)
  have env: "tx_queue example_world = example_queue" "w_alloc example_world = alloc_plenty\<lparr>al_requests := 0\<rparr>"
    by (simp_all add: example_world_def alloc_plenty_def)
  obtain w1 where w1: "virtio_vsock_shutdown 0 False True example_world = Some (0, w1)"
    using example_ctrl [OF example_world_idle(1) env, of "sock_hdr example_sock VIRTIO_VSOCK_OP_SHUTDOWN VIRTIO_VSOCK_SHUTDOWN_F_SEND"] w(1)
    by (auto simp: virtio_vsock_shutdown_def sock_get_def)
  have fr: "tx_frame example_world w1" using w1 by (auto simp: virtio_vsock_shutdown_def returns intro: xmit_ctrl_frame)
  have s1: "w_socks w1 0 = Some example_sock" by (simp add: tx_frame_fields(1) [OF fr] w(1))
  have "\<exists>w'. vsock_shutdown virtio_vsockdev_ops 0 SHUT_WR example_world = Some (0, w')"
    using w w1 conn_shutdown_eq [OF s1 w(4,2), of virtio_vsockdev_ops False True]
    by (simp add: vsock_shutdown_def sock_get_def shut_sock_def) (simp add: virtio_vsockdev_ops_def)
  then obtain w' where r: "vsock_shutdown virtio_vsockdev_ops 0 SHUT_WR example_world = Some (0, w')" ..
  from shutdown_write_ends_reading [OF example_world_inv w(1-3) r] r show ?thesis by blast
qed

end
