(* ===== verification/Posix_Socket.thy ===== *)
theory Posix_Socket
  imports Vsock
begin

text \<open>
  The POSIX socket layer (\<open>lib/posix-socket/socket.c\<close>, \<open>driver.c\<close>, \<open>include/uk/socket_driver.h\<close>): the
  system calls on descriptors, which find the driver of the address family and call its operations.
  The layer puts an AF_VSOCK socket behind every AF_INET stream socket: such a facade keeps the node of
  the AF_INET driver as its stub, and \<open>bind\<close> and \<open>getsockname\<close> translate between the addresses.

  A driver is a record of operations over the state \<open>'s\<close> of all drivers. The driver of AF_VSOCK is
  \<open>socket_vsock_ops\<close>; that of AF_INET belongs to lwIP, which is not in the repository, and is an entry of
  the list of drivers, as any other. The parameters of the environment are this list, the choice of a
  descriptor by the descriptor table, and what happens to the state while a call waits for an event.
  The events for tracing are compiled out.
\<close>

section \<open>Drivers\<close>

text \<open>
  The operations get the POSIX socket and its data. Addresses are bytes, with their length where it is
  an argument of its own; a result with bytes has what is copied to the caller. Pointers to functions
  that the code tests are options.
\<close>

record 's posix_socket_ops =
  ps_create :: "int \<Rightarrow> int \<Rightarrow> int \<Rightarrow> 's \<Rightarrow> ((int + nat) \<times> 's) option"
  ps_accept4 :: "nat \<Rightarrow> nat \<Rightarrow> bool \<Rightarrow> nat option \<Rightarrow> int \<Rightarrow> 's \<Rightarrow> ((int + nat \<times> u8 list option) \<times> 's) option"
  ps_socketpair :: "int \<Rightarrow> int \<Rightarrow> int \<Rightarrow> 's \<Rightarrow> ((int + nat \<times> nat) \<times> 's) option"
  ps_socketpair_post :: "(nat \<Rightarrow> nat \<Rightarrow> 's \<Rightarrow> 's option) option"
  ps_bind :: "nat \<Rightarrow> nat \<Rightarrow> u8 list \<Rightarrow> nat \<Rightarrow> 's \<Rightarrow> (int \<times> 's) option"
  ps_listen :: "nat \<Rightarrow> nat \<Rightarrow> int \<Rightarrow> 's \<Rightarrow> (int \<times> 's) option"
  ps_connect :: "nat \<Rightarrow> nat \<Rightarrow> u8 list \<Rightarrow> nat \<Rightarrow> 's \<Rightarrow> (int \<times> 's) option"
  ps_shutdown :: "nat \<Rightarrow> nat \<Rightarrow> int \<Rightarrow> 's \<Rightarrow> (int \<times> 's) option"
  ps_getsockname :: "nat \<Rightarrow> nat \<Rightarrow> nat option \<Rightarrow> 's \<Rightarrow> (int \<times> u8 list \<times> 's) option"
  ps_getpeername :: "nat \<Rightarrow> nat \<Rightarrow> nat option \<Rightarrow> 's \<Rightarrow> (int \<times> u8 list \<times> 's) option"
  ps_getsockopt :: "nat \<Rightarrow> nat \<Rightarrow> int \<Rightarrow> int \<Rightarrow> nat option \<Rightarrow> 's \<Rightarrow> (int \<times> u8 list \<times> 's) option"
  ps_setsockopt :: "nat \<Rightarrow> nat \<Rightarrow> int \<Rightarrow> int \<Rightarrow> u8 list \<Rightarrow> 's \<Rightarrow> (int \<times> 's) option"
  ps_recvfrom :: "nat \<Rightarrow> nat \<Rightarrow> nat \<Rightarrow> int \<Rightarrow> bool \<Rightarrow> 's \<Rightarrow> (int \<times> u8 list \<times> 's) option"
  ps_recvmsg :: "(nat \<Rightarrow> nat \<Rightarrow> nat list \<Rightarrow> int \<Rightarrow> 's \<Rightarrow> (int \<times> u8 list \<times> 's) option) option"
  ps_sendto :: "nat \<Rightarrow> nat \<Rightarrow> u8 list \<Rightarrow> int \<Rightarrow> bool \<Rightarrow> 's \<Rightarrow> (int \<times> 's) option"
  ps_sendmsg :: "(nat \<Rightarrow> nat \<Rightarrow> u8 list list \<Rightarrow> int \<Rightarrow> 's \<Rightarrow> (int \<times> 's) option) option"
  ps_write :: "(nat \<Rightarrow> nat \<Rightarrow> u8 list list \<Rightarrow> 's \<Rightarrow> (int \<times> 's) option) option"
  ps_read :: "(nat \<Rightarrow> nat \<Rightarrow> nat list \<Rightarrow> 's \<Rightarrow> (int \<times> u8 list \<times> 's) option) option"
  ps_close :: "nat \<Rightarrow> nat \<Rightarrow> 's \<Rightarrow> (int \<times> 's) option"
  ps_ioctl :: "nat \<Rightarrow> nat \<Rightarrow> int \<Rightarrow> 's \<Rightarrow> (int \<times> 's) option"
  ps_poll_setup :: "nat \<Rightarrow> nat \<Rightarrow> 's \<Rightarrow> 's option"

abbreviation AF_INET :: int where "AF_INET \<equiv> 2"

text \<open>The drivers in the order of the linker section, with their families.\<close>

fun posix_socket_driver_get :: "(int \<times> 's posix_socket_ops) list \<Rightarrow> int \<Rightarrow> 's posix_socket_ops option" where
  "posix_socket_driver_get [] family = None"
| "posix_socket_driver_get ((fam, ops) # ds) family = (if fam = family then Some ops else posix_socket_driver_get ds family)"

section \<open>The driver of AF_VSOCK\<close>

text \<open>The other drivers have the second part of the state.\<close>

definition on_vsock :: "(vsock_world \<Rightarrow> ('r \<times> vsock_world) option) \<Rightarrow> vsock_world \<times> 'l \<Rightarrow> ('r \<times> vsock_world \<times> 'l) option" where
  "on_vsock f s = map_option (\<lambda>(r, w). (r, w, snd s)) (f (fst s))"

definition on_vsock_out ::
    "(vsock_world \<Rightarrow> (int \<times> u8 list \<times> vsock_world) option) \<Rightarrow> vsock_world \<times> 'l \<Rightarrow> (int \<times> u8 list \<times> vsock_world \<times> 'l) option" where
  "on_vsock_out f s = map_option (\<lambda>(r, out, w). (r, out, w, snd s)) (f (fst s))"

text \<open>Reading the structure from the memory of the caller.\<close>

definition svm_of_bytes :: "u8 list \<Rightarrow> sockaddr_vm" where
  "svm_of_bytes bs = \<lparr>svm_family = field 0 2 bs, svm_port = field 4 4 bs, svm_cid = field 8 4 bs\<rparr>"

definition socket_vsock_ops :: "uk_vsockdev_ops \<Rightarrow> (vsock_world \<times> 'l) posix_socket_ops" where
  "socket_vsock_ops ops =
     \<lparr>ps_create = (\<lambda>family type protocol. on_vsock (vsock_create ops (word_of_int family) type protocol)),
      ps_accept4 = (\<lambda>ps sid addr addr_len flags. on_vsock (vsock_accept4 ops ps sid addr addr_len)),
      ps_socketpair = (\<lambda>family type protocol s. Some (Inl vsock_socketpair, s)),
      ps_socketpair_post = None,
      ps_bind = (\<lambda>ps sid addr addr_len. on_vsock (vsock_bind ops sid (svm_of_bytes addr) addr_len)),
      ps_listen = (\<lambda>ps sid backlog. on_vsock (vsock_listen ops sid backlog)),
      ps_connect = (\<lambda>ps sid addr addr_len. on_vsock (vsock_connect ops sid (svm_of_bytes addr) addr_len)),
      ps_shutdown = (\<lambda>ps sid how. on_vsock (vsock_shutdown ops sid how)),
      ps_getsockname = (\<lambda>ps sid addr_len s. map_option (\<lambda>(rc, out). (rc, out, s)) (vsock_getsockname sid addr_len (fst s))),
      ps_getpeername = (\<lambda>ps sid addr_len s. map_option (\<lambda>(rc, out). (rc, out, s)) (vsock_getpeername sid addr_len (fst s))),
      ps_getsockopt = (\<lambda>ps sid level optname optlen. on_vsock_out (vsock_getsockopt sid level optname optlen)),
      ps_setsockopt = (\<lambda>ps sid level optname optval s. Some (vsock_setsockopt, s)),
      ps_recvfrom = (\<lambda>ps sid len flags from. on_vsock_out (vsock_recvfrom ops ps sid len from)),
      ps_recvmsg = None,
      ps_sendto = (\<lambda>ps sid buf flags dest. on_vsock (vsock_sendto ops ps sid buf dest)),
      ps_sendmsg = None,
      ps_write = Some (\<lambda>ps sid iov. on_vsock (vsock_write ops ps sid iov)),
      ps_read = Some (\<lambda>ps sid iov. on_vsock_out (vsock_read ops ps sid iov)),
      ps_close = (\<lambda>ps sid. on_vsock (vsock_close ops sid)),
      ps_ioctl = (\<lambda>ps sid request s. Some (vsock_ioctl, s)),
      ps_poll_setup = (\<lambda>ps sid s. map_option (\<lambda>w. (w, snd s)) (vsock_poll_setup ps sid (fst s)))\<rparr>"

abbreviation ESPIPE :: int where "ESPIPE \<equiv> 29"
abbreviation ENOSYS :: int where "ENOSYS \<equiv> 38"

section \<open>Sockets and descriptors\<close>

record 's posix_socket_node =
  n_data :: nat
  n_driver :: "'s posix_socket_ops"

text \<open>A stub without a driver is \<open>None\<close>.\<close>

record 's socket_alloc =
  al_node :: "'s posix_socket_node"
  al_stub :: "'s posix_socket_node option"

text \<open>An open file; \<open>of_socket\<close> says that the volume of its file is that of the sockets.\<close>

record uk_ofile =
  of_file :: nat
  of_mode :: int
  of_socket :: bool

record 's posix_world =
  x_sys :: 's
  x_socks :: "nat \<Rightarrow> 's socket_alloc option"
  x_next :: nat
  x_fds :: "int \<Rightarrow> uk_ofile option"
  x_alloc :: ukalloc

text \<open>\<open>e_fd_open\<close> is the free descriptor or the error of \<open>uk_fdtab_open_named\<close>, \<open>e_poll\<close> the wait of \<open>uk_file_poll\<close>,
  and \<open>e_sizeof_socket\<close> the size of \<open>struct socket_alloc\<close>.\<close>

record 's posix_env =
  e_drivers :: "(int \<times> 's posix_socket_ops) list"
  e_fd_open :: "nat \<Rightarrow> int \<Rightarrow> (int \<Rightarrow> uk_ofile option) \<Rightarrow> int"
  e_poll :: "nat \<Rightarrow> int \<Rightarrow> 's \<Rightarrow> 's"
  e_sizeof_socket :: nat

abbreviation SOCK_NONBLOCK :: int where "SOCK_NONBLOCK \<equiv> 2048"
abbreviation SOCK_CLOEXEC :: int where "SOCK_CLOEXEC \<equiv> 524288"
abbreviation O_NONBLOCK :: int where "O_NONBLOCK \<equiv> 2048"
abbreviation O_CLOEXEC :: int where "O_CLOEXEC \<equiv> 524288"
abbreviation MSG_DONTWAIT :: int where "MSG_DONTWAIT \<equiv> 64"
abbreviation SOCKET_MODE :: int where "SOCKET_MODE \<equiv> 26"
abbreviation UKFD_POLLIN :: int where "UKFD_POLLIN \<equiv> 193"
abbreviation UKFD_POLLOUT :: int where "UKFD_POLLOUT \<equiv> 772"
abbreviation UKFD_POLL_ALWAYS :: int where "UKFD_POLL_ALWAYS \<equiv> 24"
abbreviation UKFILE_CTL_IOCTL :: int where "UKFILE_CTL_IOCTL \<equiv> 1"

definition SHOULD_BLOCK :: "int \<Rightarrow> bool" where
  "SHOULD_BLOCK m \<longleftrightarrow> m AND O_NONBLOCK = 0"

definition socketfd_get :: "int \<Rightarrow> 's posix_world \<Rightarrow> int + uk_ofile" where
  "socketfd_get fd x = (case x_fds x fd of
     None \<Rightarrow> Inl (- EBADF)
   | Some ofl \<Rightarrow> if \<not> of_socket ofl then Inl (- ENOTSOCK) else Inr ofl)"

text \<open>A call of an operation of the driver of a socket.\<close>

definition sock_call ::
    "nat \<Rightarrow> ('s posix_socket_ops \<Rightarrow> nat \<Rightarrow> nat \<Rightarrow> 's \<Rightarrow> (int \<times> 's) option) \<Rightarrow> 's posix_world \<Rightarrow> (int \<times> 's posix_world) option" where
  "sock_call f op x = do {
     al \<leftarrow> x_socks x f;
     (rc, s) \<leftarrow> op (n_driver (al_node al)) f (n_data (al_node al)) (x_sys x);
     Some (rc, x\<lparr>x_sys := s\<rparr>)
   }"

definition sock_call_out ::
    "nat \<Rightarrow> ('s posix_socket_ops \<Rightarrow> nat \<Rightarrow> nat \<Rightarrow> 's \<Rightarrow> (int \<times> u8 list \<times> 's) option) \<Rightarrow> 's posix_world
      \<Rightarrow> (int \<times> u8 list \<times> 's posix_world) option" where
  "sock_call_out f op x = do {
     al \<leftarrow> x_socks x f;
     (rc, out, s) \<leftarrow> op (n_driver (al_node al)) f (n_data (al_node al)) (x_sys x);
     Some (rc, out, x\<lparr>x_sys := s\<rparr>)
   }"

section \<open>File operations\<close>

text \<open>\<open>vol\<close> says that the volume of the file is that of the sockets.\<close>

definition socket_read ::
    "bool \<Rightarrow> nat \<Rightarrow> nat list \<Rightarrow> nat \<Rightarrow> 's posix_world \<Rightarrow> (int \<times> u8 list \<times> 's posix_world) option" where
  "socket_read vol f iov off x = (
     if \<not> vol then Some (- EINVAL, [], x)
     else if off \<noteq> 0 then Some (- ESPIPE, [], x)
     else do {
       al \<leftarrow> x_socks x f;
       case ps_read (n_driver (al_node al)) of
         Some rd \<Rightarrow> sock_call_out f (\<lambda>_ ps data. rd ps data iov) x
       | None \<Rightarrow> do {
           rm \<leftarrow> ps_recvmsg (n_driver (al_node al));
           sock_call_out f (\<lambda>_ ps data. rm ps data iov 0) x
         }
     })"

definition socket_write ::
    "bool \<Rightarrow> nat \<Rightarrow> u8 list list \<Rightarrow> nat \<Rightarrow> 's posix_world \<Rightarrow> (int \<times> 's posix_world) option" where
  "socket_write vol f iov off x = (
     if \<not> vol then Some (- EINVAL, x)
     else if off \<noteq> 0 then Some (- ESPIPE, x)
     else do {
       al \<leftarrow> x_socks x f;
       case ps_write (n_driver (al_node al)) of
         Some wr \<Rightarrow> sock_call f (\<lambda>_ ps data. wr ps data iov) x
       | None \<Rightarrow> do {
           sm \<leftarrow> ps_sendmsg (n_driver (al_node al));
           sock_call f (\<lambda>_ ps data. sm ps data iov 0) x
         }
     })"

definition socket_ctl :: "nat \<Rightarrow> int \<Rightarrow> int \<Rightarrow> 's posix_world \<Rightarrow> (int \<times> 's posix_world) option" where
  "socket_ctl f fam req x = (
     if fam = UKFILE_CTL_IOCTL then sock_call f (\<lambda>d ps data. ps_ioctl d ps data req) x
     else Some (- ENOSYS, x))"

text \<open>\<open>res\<close> and \<open>obj\<close> are the bits of \<open>what\<close>; the result of closing is ignored.\<close>

definition socket_release :: "nat \<Rightarrow> bool \<Rightarrow> bool \<Rightarrow> 's posix_world \<Rightarrow> 's posix_world option" where
  "socket_release f res obj x = do {
     x \<leftarrow> (if res then map_option snd (sock_call f ps_close x) else Some x);
     Some (if obj then x\<lparr>x_socks := (x_socks x)(f := None)\<rparr> else x)
   }"

section \<open>Creating sockets\<close>

text \<open>The result is the new file.\<close>

definition socket_init :: "'s posix_socket_ops \<Rightarrow> nat \<Rightarrow> 's posix_world \<Rightarrow> (nat \<times> 's posix_world) option" where
  "socket_init d sock_data x = do {
     let f = x_next x;
     let x = x\<lparr>x_socks := (x_socks x)(f \<mapsto> \<lparr>al_node = \<lparr>n_data = sock_data, n_driver = d\<rparr>, al_stub = None\<rparr>),
               x_next := Suc f\<rparr>;
     s \<leftarrow> ps_poll_setup d f sock_data (x_sys x);
     Some (f, x\<lparr>x_sys := s\<rparr>)
   }"

definition socket_malloc :: "'s posix_env \<Rightarrow> 's posix_world \<Rightarrow> bool \<times> 's posix_world" where
  "socket_malloc env x = (let (mem, a) = uk_malloc (x_alloc x) (e_sizeof_socket env) in (mem \<noteq> None, x\<lparr>x_alloc := a\<rparr>))"

text \<open>The facade: an AF_VSOCK socket takes the place of the AF_INET one, whose node becomes the stub.\<close>

definition inet_facade ::
    "'s posix_env \<Rightarrow> int \<Rightarrow> nat \<Rightarrow> 's posix_world \<Rightarrow> 's posix_world option" where
  "inet_facade env type f x = do {
     vsock_driver \<leftarrow> posix_socket_driver_get (e_drivers env) (uint AF_VSOCK);
     (vsock_data, s) \<leftarrow> ps_create vsock_driver (uint AF_VSOCK) type 0 (x_sys x);
     let x = x\<lparr>x_sys := s\<rparr>;
     case vsock_data of
       Inl _ \<Rightarrow> Some x
     | Inr vsock_data \<Rightarrow> do {
         al \<leftarrow> x_socks x f;
         let x = x\<lparr>x_socks := (x_socks x)(f \<mapsto>
               \<lparr>al_node = \<lparr>n_data = vsock_data, n_driver = vsock_driver\<rparr>, al_stub = Some (al_node al)\<rparr>)\<rparr>;
         s \<leftarrow> ps_poll_setup vsock_driver f vsock_data (x_sys x);
         Some (x\<lparr>x_sys := s\<rparr>)
       }
   }"

definition uk_socket_create ::
    "'s posix_env \<Rightarrow> int \<Rightarrow> int \<Rightarrow> int \<Rightarrow> 's posix_world \<Rightarrow> ((int + nat) \<times> 's posix_world) option" where
  "uk_socket_create env family type protocol x = (case posix_socket_driver_get (e_drivers env) family of
     None \<Rightarrow> Some (Inl (- EAFNOSUPPORT), x)
   | Some d \<Rightarrow>
       let (mem, x) = socket_malloc env x in
       if \<not> mem then Some (Inl (- ENOMEM), x)
       else do {
         (sock_data, s) \<leftarrow> ps_create d family type protocol (x_sys x);
         let x = x\<lparr>x_sys := s\<rparr>;
         case sock_data of
           Inl e \<Rightarrow> Some (Inl e, x)
         | Inr sock_data \<Rightarrow> do {
             (f, x) \<leftarrow> socket_init d sock_data x;
             x \<leftarrow> (if family = AF_INET \<and> type = SOCK_STREAM then inet_facade env type f x else Some x);
             Some (Inr f, x)
           }
       })"

definition mode_flags :: "int \<Rightarrow> int" where
  "mode_flags flags = SOCKET_MODE OR (if flags AND SOCK_NONBLOCK \<noteq> 0 then O_NONBLOCK else 0)
     OR (if flags AND SOCK_CLOEXEC \<noteq> 0 then O_CLOEXEC else 0)"

text \<open>
  The file is opened and the reference of the caller is dropped; when there is no descriptor, this was
  the last one.
\<close>

definition fd_install :: "'s posix_env \<Rightarrow> nat \<Rightarrow> int \<Rightarrow> 's posix_world \<Rightarrow> (int \<times> 's posix_world) option" where
  "fd_install env f mode x = (
     let fd = e_fd_open env f mode (x_fds x) in
     if fd < 0 then do { x \<leftarrow> socket_release f True True x; Some (fd, x) }
     else Some (fd, x\<lparr>x_fds := (x_fds x)(fd \<mapsto> \<lparr>of_file = f, of_mode = mode, of_socket = True\<rparr>)\<rparr>))"

definition uk_sys_socket ::
    "'s posix_env \<Rightarrow> int \<Rightarrow> int \<Rightarrow> int \<Rightarrow> 's posix_world \<Rightarrow> (int \<times> 's posix_world) option" where
  "uk_sys_socket env family type protocol x = do {
     (sock, x) \<leftarrow> uk_socket_create env family type protocol x;
     case sock of
       Inl e \<Rightarrow> Some (e, x)
     | Inr f \<Rightarrow> fd_install env f (mode_flags type) x
   }"

section \<open>Blocking\<close>

text \<open>
  The loop of the calls that wait: the operation is repeated, with a wait in between, while its result
  says so. A wait for something that never happens is a loop that does not return.
\<close>

partial_function (option) block_until ::
    "('s \<Rightarrow> 's) \<Rightarrow> ('r \<Rightarrow> bool) \<Rightarrow> ('s posix_world \<Rightarrow> ('r \<times> 's posix_world) option) \<Rightarrow> 's posix_world
      \<Rightarrow> ('r \<times> 's posix_world) option" where
  "block_until poll again op x = op x \<bind> (\<lambda>r.
     if again (fst r) then block_until poll again op ((snd r)\<lparr>x_sys := poll (x_sys (snd r))\<rparr>)
     else Some r)"

section \<open>Accepting\<close>

definition uk_socket_accept ::
    "'s posix_env \<Rightarrow> nat \<Rightarrow> bool \<Rightarrow> bool \<Rightarrow> nat option \<Rightarrow> int \<Rightarrow> 's posix_world
      \<Rightarrow> ((int + nat \<times> u8 list option) \<times> 's posix_world) option" where
  "uk_socket_accept env f blocking addr addr_len flags x = do {
     al \<leftarrow> x_socks x f;
     let (mem, x) = socket_malloc env x;
     if \<not> mem then Some (Inl (- ENOMEM), x)
     else do {
       (new_data, x) \<leftarrow> block_until (e_poll env f UKFD_POLLIN)
         (\<lambda>r. blocking \<and> (case r of Inl e \<Rightarrow> e = - EAGAIN | Inr _ \<Rightarrow> False))
         (\<lambda>x. do {
            al \<leftarrow> x_socks x f;
            (r, s) \<leftarrow> ps_accept4 (n_driver (al_node al)) f (n_data (al_node al)) addr addr_len flags (x_sys x);
            Some (r, x\<lparr>x_sys := s\<rparr>)
          }) x;
       case new_data of
         Inl e \<Rightarrow> Some (Inl e, x)
       | Inr (new_data, copied) \<Rightarrow> do {
           (new, x) \<leftarrow> socket_init (n_driver (al_node al)) new_data x;
           Some (Inr (new, copied), x)
         }
     }
   }"

definition uk_sys_accept ::
    "'s posix_env \<Rightarrow> nat \<Rightarrow> bool \<Rightarrow> bool \<Rightarrow> nat option \<Rightarrow> int \<Rightarrow> 's posix_world
      \<Rightarrow> (int \<times> u8 list option \<times> 's posix_world) option" where
  "uk_sys_accept env f blocking addr addr_len flags x = do {
     (sockfile, x) \<leftarrow> uk_socket_accept env f blocking addr addr_len flags x;
     case sockfile of
       Inl e \<Rightarrow> Some (e, None, x)
     | Inr (new, copied) \<Rightarrow> do {
         (fd, x) \<leftarrow> fd_install env new (mode_flags flags) x;
         Some (fd, copied, x)
       }
   }"

definition do_accept4 ::
    "'s posix_env \<Rightarrow> int \<Rightarrow> bool \<Rightarrow> nat option \<Rightarrow> int \<Rightarrow> 's posix_world \<Rightarrow> (int \<times> u8 list option \<times> 's posix_world) option" where
  "do_accept4 env sock addr addr_len flags x = (case socketfd_get sock x of
     Inl e \<Rightarrow> Some (e, None, x)
   | Inr ofl \<Rightarrow> uk_sys_accept env (of_file ofl) (SHOULD_BLOCK (of_mode ofl)) addr addr_len flags x)"

section \<open>Addresses\<close>

definition bswap_16 :: "u16 \<Rightarrow> u16" where
  "bswap_16 x = push_bit 8 x OR drop_bit 8 x"

text \<open>The machines are little-endian. \<open>htons\<close> of the C library is the same function.\<close>

definition ntohs :: "u16 \<Rightarrow> u16" where
  "ntohs n = bswap_16 n"

text \<open>The port is kept as the 16-bit value that the code loads, in network byte order.\<close>

record sockaddr_in =
  sin_family :: u16
  sin_port :: u16
  sin_addr :: u32

definition sizeof_sin :: nat where "sizeof_sin = 16"

definition sin_bytes :: "sockaddr_in \<Rightarrow> u8 list" where
  "sin_bytes a = le_bytes 2 (sin_family a) @ le_bytes 2 (sin_port a) @ le_bytes 4 (sin_addr a) @ [0, 0, 0, 0, 0, 0, 0, 0]"

section \<open>System calls\<close>

text \<open>
  Each call finds the socket of the descriptor first. A pointer to an address, a buffer or an option that
  may be missing is an option; the checks for it come before the descriptor, as in the code.
\<close>

definition sys_bind :: "int \<Rightarrow> u8 list option \<Rightarrow> nat \<Rightarrow> 's posix_world \<Rightarrow> (int \<times> 's posix_world) option" where
  "sys_bind sock addr addr_len x = (case addr of
     None \<Rightarrow> Some (- EFAULT, x)
   | Some addr \<Rightarrow> (case socketfd_get sock x of
       Inl e \<Rightarrow> Some (e, x)
     | Inr ofl \<Rightarrow> do {
         al \<leftarrow> x_socks x (of_file ofl);
         (addr, addr_len) \<leftarrow> (if al_stub al \<noteq> None
            then do {
              uk_assert (4 \<le> length addr);
              let addr_vm = \<lparr>svm_family = AF_VSOCK, svm_port = ucast (ntohs (field 2 2 addr)), svm_cid = VMADDR_CID_ANY\<rparr>;
              Some (svm_bytes addr_vm, sizeof_svm)
            }
            else Some (addr, addr_len));
         sock_call (of_file ofl) (\<lambda>d ps data. ps_bind d ps data addr addr_len) x
       }))"

definition sys_shutdown :: "int \<Rightarrow> int \<Rightarrow> 's posix_world \<Rightarrow> (int \<times> 's posix_world) option" where
  "sys_shutdown sock how x = (
     if \<not> (how = SHUT_RD \<or> how = SHUT_WR \<or> how = SHUT_RDWR) then Some (- EINVAL, x)
     else (case socketfd_get sock x of
       Inl e \<Rightarrow> Some (e, x)
     | Inr ofl \<Rightarrow> sock_call (of_file ofl) (\<lambda>d ps data. ps_shutdown d ps data how) x))"

definition sys_getpeername ::
    "int \<Rightarrow> nat option \<Rightarrow> 's posix_world \<Rightarrow> (int \<times> u8 list \<times> 's posix_world) option" where
  "sys_getpeername sock addr_len x = (case socketfd_get sock x of
     Inl e \<Rightarrow> Some (e, [], x)
   | Inr ofl \<Rightarrow> sock_call_out (of_file ofl) (\<lambda>d ps data. ps_getpeername d ps data addr_len) x)"

text \<open>
  The facade asks for the whole AF_VSOCK address and copies an AF_INET address with its port, as much as
  the caller has room for; a missing length is not checked for.
\<close>

definition sys_getsockname ::
    "int \<Rightarrow> nat option \<Rightarrow> 's posix_world \<Rightarrow> (int \<times> u8 list \<times> 's posix_world) option" where
  "sys_getsockname sock addr_len x = (case socketfd_get sock x of
     Inl e \<Rightarrow> Some (e, [], x)
   | Inr ofl \<Rightarrow> do {
       al \<leftarrow> x_socks x (of_file ofl);
       if al_stub al \<noteq> None
       then do {
         (ret, out, x) \<leftarrow> sock_call_out (of_file ofl) (\<lambda>d ps data. ps_getsockname d ps data (Some sizeof_svm)) x;
         if ret = 0
         then do {
           n \<leftarrow> addr_len;
           let addr_in = \<lparr>sin_family = word_of_int AF_INET, sin_port = ntohs (ucast (svm_port (svm_of_bytes out))), sin_addr = 0\<rparr>;
           Some (ret, take (min n sizeof_sin) (sin_bytes addr_in), x)
         }
         else Some (ret, [], x)
       }
       else sock_call_out (of_file ofl) (\<lambda>d ps data. ps_getsockname d ps data addr_len) x
     })"

definition sys_getsockopt ::
    "int \<Rightarrow> int \<Rightarrow> int \<Rightarrow> nat option \<Rightarrow> 's posix_world \<Rightarrow> (int \<times> u8 list \<times> 's posix_world) option" where
  "sys_getsockopt sock level optname optlen x = (case socketfd_get sock x of
     Inl e \<Rightarrow> Some (e, [], x)
   | Inr ofl \<Rightarrow> sock_call_out (of_file ofl) (\<lambda>d ps data. ps_getsockopt d ps data level optname optlen) x)"

definition sys_setsockopt ::
    "int \<Rightarrow> int \<Rightarrow> int \<Rightarrow> u8 list option \<Rightarrow> 's posix_world \<Rightarrow> (int \<times> 's posix_world) option" where
  "sys_setsockopt sock level optname optval x = (case optval of
     None \<Rightarrow> Some (- EFAULT, x)
   | Some optval \<Rightarrow> (case socketfd_get sock x of
       Inl e \<Rightarrow> Some (e, x)
     | Inr ofl \<Rightarrow> sock_call (of_file ofl) (\<lambda>d ps data. ps_setsockopt d ps data level optname optval) x))"

text \<open>
  A connection in progress is waited for, and then the pending error of the socket is the result: its
  bytes overwrite those of \<open>ret\<close>.
\<close>

definition sys_connect ::
    "'s posix_env \<Rightarrow> int \<Rightarrow> u8 list option \<Rightarrow> nat \<Rightarrow> 's posix_world \<Rightarrow> (int \<times> 's posix_world) option" where
  "sys_connect env sock addr addr_len x = (case addr of
     None \<Rightarrow> Some (- EFAULT, x)
   | Some addr \<Rightarrow> (case socketfd_get sock x of
       Inl e \<Rightarrow> Some (e, x)
     | Inr ofl \<Rightarrow> do {
         (ret, x) \<leftarrow> sock_call (of_file ofl) (\<lambda>d ps data. ps_connect d ps data addr addr_len) x;
         if ret = - EINPROGRESS \<and> SHOULD_BLOCK (of_mode ofl)
         then do {
           let x = x\<lparr>x_sys := e_poll env (of_file ofl) (UKFD_POLLOUT OR UKFD_POLL_ALWAYS) (x_sys x)\<rparr>;
           (rc, out, x) \<leftarrow> sock_call_out (of_file ofl) (\<lambda>d ps data. ps_getsockopt d ps data SOL_SOCKET SO_ERROR (Some 4)) x;
           let bytes = out @ drop (length out) (le_bytes 4 (word_of_int ret :: u32));
           Some (sint (of_le bytes :: u32), x)
         }
         else Some (ret, x)
       }))"

definition sys_listen :: "int \<Rightarrow> int \<Rightarrow> 's posix_world \<Rightarrow> (int \<times> 's posix_world) option" where
  "sys_listen sock backlog x = (case socketfd_get sock x of
     Inl e \<Rightarrow> Some (e, x)
   | Inr ofl \<Rightarrow> sock_call (of_file ofl) (\<lambda>d ps data. ps_listen d ps data backlog) x)"

text \<open>When a call waits: the mode of the file and the flags of the call allow it.\<close>

definition may_wait :: "uk_ofile \<Rightarrow> int \<Rightarrow> int \<Rightarrow> bool" where
  "may_wait ofl flags ret \<longleftrightarrow> SHOULD_BLOCK (of_mode ofl) \<and> flags AND MSG_DONTWAIT = 0 \<and> ret = - EAGAIN"

definition pair_out :: "('a \<times> 'b \<times> 'c) option \<Rightarrow> (('a \<times> 'b) \<times> 'c) option" where
  "pair_out = map_option (\<lambda>(a, b, c). ((a, b), c))"

definition sys_recvfrom ::
    "'s posix_env \<Rightarrow> int \<Rightarrow> bool \<Rightarrow> nat \<Rightarrow> int \<Rightarrow> bool \<Rightarrow> 's posix_world \<Rightarrow> (int \<times> u8 list \<times> 's posix_world) option" where
  "sys_recvfrom env sock buf len flags from x = (
     if \<not> buf then Some (- EFAULT, [], x)
     else (case socketfd_get sock x of
       Inl e \<Rightarrow> Some (e, [], x)
     | Inr ofl \<Rightarrow> do {
         ((ret, out), x) \<leftarrow> block_until (e_poll env (of_file ofl) UKFD_POLLIN) (\<lambda>r. may_wait ofl flags (fst r))
           (\<lambda>x. pair_out (sock_call_out (of_file ofl) (\<lambda>d ps data. ps_recvfrom d ps data len flags from) x)) x;
         Some (ret, out, x)
       }))"

definition sys_recvmsg ::
    "'s posix_env \<Rightarrow> int \<Rightarrow> nat list option \<Rightarrow> int \<Rightarrow> 's posix_world \<Rightarrow> (int \<times> u8 list \<times> 's posix_world) option" where
  "sys_recvmsg env sock iov flags x = (case iov of
     None \<Rightarrow> Some (- EFAULT, [], x)
   | Some iov \<Rightarrow> (case socketfd_get sock x of
       Inl e \<Rightarrow> Some (e, [], x)
     | Inr ofl \<Rightarrow> do {
         ((ret, out), x) \<leftarrow> block_until (e_poll env (of_file ofl) UKFD_POLLIN) (\<lambda>r. may_wait ofl flags (fst r))
           (\<lambda>x. pair_out (sock_call_out (of_file ofl)
                  (\<lambda>d ps data s. ps_recvmsg d \<bind> (\<lambda>rm. rm ps data iov flags s)) x)) x;
         Some (ret, out, x)
       }))"

definition sys_sendmsg ::
    "'s posix_env \<Rightarrow> int \<Rightarrow> u8 list list option \<Rightarrow> int \<Rightarrow> 's posix_world \<Rightarrow> (int \<times> 's posix_world) option" where
  "sys_sendmsg env sock iov flags x = (case iov of
     None \<Rightarrow> Some (- EFAULT, x)
   | Some iov \<Rightarrow> (case socketfd_get sock x of
       Inl e \<Rightarrow> Some (e, x)
     | Inr ofl \<Rightarrow> block_until (e_poll env (of_file ofl) UKFD_POLLOUT) (may_wait ofl flags)
         (sock_call (of_file ofl) (\<lambda>d ps data s. ps_sendmsg d \<bind> (\<lambda>sm. sm ps data iov flags s))) x))"

definition sys_sendto ::
    "'s posix_env \<Rightarrow> int \<Rightarrow> u8 list option \<Rightarrow> int \<Rightarrow> bool \<Rightarrow> 's posix_world \<Rightarrow> (int \<times> 's posix_world) option" where
  "sys_sendto env sock buf flags dest x = (case buf of
     None \<Rightarrow> Some (- EFAULT, x)
   | Some buf \<Rightarrow> (case socketfd_get sock x of
       Inl e \<Rightarrow> Some (e, x)
     | Inr ofl \<Rightarrow> block_until (e_poll env (of_file ofl) UKFD_POLLOUT) (may_wait ofl flags)
         (sock_call (of_file ofl) (\<lambda>d ps data. ps_sendto d ps data buf flags dest)) x))"

section \<open>Socket pairs\<close>

definition uk_socketpair_create ::
    "'s posix_env \<Rightarrow> int \<Rightarrow> int \<Rightarrow> int \<Rightarrow> 's posix_world \<Rightarrow> ((int + nat \<times> nat) \<times> 's posix_world) option" where
  "uk_socketpair_create env family type protocol x = (case posix_socket_driver_get (e_drivers env) family of
     None \<Rightarrow> Some (Inl (- EAFNOSUPPORT), x)
   | Some d \<Rightarrow>
       let (mem0, x) = socket_malloc env x; (mem1, x) = socket_malloc env x in
       if \<not> mem0 \<or> \<not> mem1 then Some (Inl (- ENOMEM), x)
       else do {
         (sock_data, s) \<leftarrow> ps_socketpair d family type protocol (x_sys x);
         let x = x\<lparr>x_sys := s\<rparr>;
         case sock_data of
           Inl e \<Rightarrow> Some (Inl e, x)
         | Inr (data0, data1) \<Rightarrow> do {
             (f0, x) \<leftarrow> socket_init d data0 x;
             (f1, x) \<leftarrow> socket_init d data1 x;
             s \<leftarrow> (case ps_socketpair_post d of Some post \<Rightarrow> post f0 f1 (x_sys x) | None \<Rightarrow> Some (x_sys x));
             Some (Inr (f0, f1), x\<lparr>x_sys := s\<rparr>)
           }
       })"

text \<open>
  Both files are opened and then released. A file without a descriptor goes away with that; when the
  second file gets none, the descriptor of the first one is closed before.
\<close>

definition uk_sys_socketpair ::
    "'s posix_env \<Rightarrow> int \<Rightarrow> int \<Rightarrow> int \<Rightarrow> 's posix_world \<Rightarrow> ((int + int \<times> int) \<times> 's posix_world) option" where
  "uk_sys_socketpair env family type protocol x = do {
     (socks, x) \<leftarrow> uk_socketpair_create env family type protocol x;
     case socks of
       Inl e \<Rightarrow> Some (Inl e, x)
     | Inr (f0, f1) \<Rightarrow> do {
         let mode = mode_flags type;
         let fd0 = e_fd_open env f0 mode (x_fds x);
         if fd0 < 0
         then do { x \<leftarrow> socket_release f0 True True x; x \<leftarrow> socket_release f1 True True x; Some (Inl fd0, x) }
         else do {
           let fds = (x_fds x)(fd0 \<mapsto> \<lparr>of_file = f0, of_mode = mode, of_socket = True\<rparr>);
           let fd1 = e_fd_open env f1 mode fds;
           if fd1 < 0
           then do { x \<leftarrow> socket_release f0 True True x; x \<leftarrow> socket_release f1 True True x; Some (Inl fd1, x) }
           else Some (Inr (fd0, fd1), x\<lparr>x_fds := fds(fd1 \<mapsto> \<lparr>of_file = f1, of_mode = mode, of_socket = True\<rparr>)\<rparr>)
         }
       }
   }"

definition sys_socketpair ::
    "'s posix_env \<Rightarrow> int \<Rightarrow> int \<Rightarrow> int \<Rightarrow> bool \<Rightarrow> 's posix_world \<Rightarrow> ((int + int \<times> int) \<times> 's posix_world) option" where
  "sys_socketpair env family type protocol usockfd x = (
     if \<not> usockfd then Some (Inl (- EFAULT), x)
     else uk_sys_socketpair env family type protocol x)"

end
