(* ===== verification/Inet_Props.thy ===== *)
theory Inet_Props
  imports Posix_Props Posix_Socket
begin

text \<open>
  Properties of the POSIX socket layer over the virtio driver: the AF_INET facade of an AF_VSOCK socket.
\<close>

section \<open>Helper lemmas\<close>

lemma svm_roundtrip: "svm_of_bytes (svm_bytes svm) = svm"
  by (cases svm) (simp add: svm_of_bytes_def svm_bytes_def field_def of_le_le_bytes take_bit_word_eq_self)

lemma sin_port_field: "field 2 2 (sin_bytes a) = sin_port a" "field 0 2 (sin_bytes a) = sin_family a"
  by (simp_all add: sin_bytes_def field_def of_le_le_bytes take_bit_word_eq_self)

lemma sin_bytes_length [simp]: "length (sin_bytes a) = sizeof_sin"
  by (simp add: sin_bytes_def sizeof_sin_def)

lemma svm_bytes_length [simp]: "length (svm_bytes svm) = sizeof_svm"
  by (simp add: svm_bytes_def sizeof_svm_def)

lemma ntohs_ntohs [simp]: "ntohs (ntohs p) = p"
  by (rule bit_word_eqI) (auto simp: ntohs_def bswap_16_def bit_simps dest: bit_imp_le_length)

lemma ucast_port [simp]: "(ucast (ucast (p :: u16) :: u32) :: u16) = p"
  by (rule bit_word_eqI) (simp add: bit_simps)

text \<open>A descriptor of a facade whose AF_VSOCK socket is that of the virtio driver.\<close>

definition is_facade :: "int \<Rightarrow> nat \<Rightarrow> nat \<Rightarrow> (vsock_world \<times> 'l) posix_world \<Rightarrow> bool" where
  "is_facade fd f sid x \<longleftrightarrow> (\<exists>ofl al. x_fds x fd = Some ofl \<and> of_socket ofl \<and> of_file ofl = f \<and> x_socks x f = Some al
     \<and> al_stub al \<noteq> None \<and> al_node al = \<lparr>n_data = sid, n_driver = socket_vsock_ops virtio_vsockdev_ops\<rparr>)"

lemma facade_bind:
  assumes "is_facade fd f sid x"
  shows "sys_bind fd (Some (sin_bytes a)) len x = do {
      (rc, w) \<leftarrow> vsock_bind virtio_vsockdev_ops sid
        \<lparr>svm_family = AF_VSOCK, svm_port = ucast (ntohs (sin_port a)), svm_cid = VMADDR_CID_ANY\<rparr> sizeof_svm (fst (x_sys x));
      Some (rc, x\<lparr>x_sys := (w, snd (x_sys x))\<rparr>) }"
  using assms by (auto simp: is_facade_def sys_bind_def socketfd_get_def sin_port_field sizeof_sin_def sock_call_def
      socket_vsock_ops_def on_vsock_def svm_roundtrip split: option.splits bind_splits)

text \<open>A driver of AF_INET that keeps nothing, and a process with one facade, whose descriptor is 3.\<close>

definition example_inet :: "(vsock_world \<times> unit) posix_socket_ops" where
  "example_inet = (socket_vsock_ops virtio_vsockdev_ops)\<lparr>
     ps_create := \<lambda>family type protocol s. Some (Inr 0, s), ps_poll_setup := \<lambda>ps data s. Some s\<rparr>"

definition example_env :: "(vsock_world \<times> unit) posix_env" where
  "example_env = \<lparr>e_drivers = [(AF_INET, example_inet), (uint AF_VSOCK, socket_vsock_ops virtio_vsockdev_ops)],
     e_fd_open = \<lambda>f mode fds. 4, e_poll = \<lambda>f events s. s, e_sizeof_socket = 64\<rparr>"

definition facade_process :: "nat \<Rightarrow> vsock_world \<Rightarrow> (vsock_world \<times> unit) posix_world" where
  "facade_process sid w = \<lparr>x_sys = (w, ()), x_socks = [0 \<mapsto>
     \<lparr>al_node = \<lparr>n_data = sid, n_driver = socket_vsock_ops virtio_vsockdev_ops\<rparr>, al_stub = Some \<lparr>n_data = 0, n_driver = example_inet\<rparr>\<rparr>],
     x_next = 1, x_fds = [3 \<mapsto> \<lparr>of_file = 0, of_mode = 0, of_socket = True\<rparr>], x_alloc = alloc_plenty\<rparr>"

lemma facade_process: "is_facade 3 0 sid (facade_process sid w)"
  by (simp add: is_facade_def facade_process_def)

text \<open>
  C15: An application that uses AF_INET sees its own addresses: after it bound a socket to a port,
  \<open>getsockname\<close> returns an AF_INET address with this port in network byte order, although the socket
  behind it is bound to an AF_VSOCK address. This holds for port 0 too, which does not ask for any
  unused port here.
\<close>

theorem inet_bind_getsockname:
  assumes "is_facade fd f sid x" and "sock_inv (fst (x_sys x))"
    and "sys_bind fd (Some (sin_bytes a)) len x = Some (0, x')"
  shows "sys_getsockname fd (Some sizeof_sin) x' =
      Some (0, sin_bytes \<lparr>sin_family = 2, sin_port = sin_port a, sin_addr = 0\<rparr>, x')
    \<and> (\<exists>s. w_socks (fst (x_sys x')) sid = Some s \<and> a_port (s_local_addr s) = ucast (ntohs (sin_port a)))"
proof -
  obtain ofl al where o: "x_fds x fd = Some ofl" "of_socket ofl" "of_file ofl = f" "x_socks x f = Some al" "al_stub al \<noteq> None"
    "al_node al = \<lparr>n_data = sid, n_driver = socket_vsock_ops virtio_vsockdev_ops\<rparr>"
    using assms(1) by (auto simp: is_facade_def)
  let ?svm = "\<lparr>svm_family = AF_VSOCK, svm_port = ucast (ntohs (sin_port a)), svm_cid = VMADDR_CID_ANY\<rparr>"
  from assms(3) [unfolded facade_bind [OF assms(1)]] obtain w where
    w: "vsock_bind virtio_vsockdev_ops sid ?svm sizeof_svm (fst (x_sys x)) = Some (0, w)" "x' = x\<lparr>x_sys := (w, snd (x_sys x))\<rparr>"
    by (rule bind_pairE) auto
  have any: "svm_port ?svm \<noteq> VMADDR_PORT_ANY"
  proof
    assume "svm_port ?svm = VMADDR_PORT_ANY"
    then have "bit (ucast (ntohs (sin_port a)) :: u32) 31" by simp
    then show False by (auto simp: bit_simps dest: bit_imp_le_length)
  qed
  from assms(2) w(1) obtain s where s: "w_socks w sid = Some s" "a_port (s_local_addr s) = ucast (ntohs (sin_port a))"
  proof (cases rule: virtio.bind_cases)
    case (ok s port t n)
    then show thesis using that any by (simp add: bound_sock_def)
  qed simp
  have "vsock_getsockname sid (Some sizeof_svm) w = Some (0, svm_bytes \<lparr>svm_family = AF_VSOCK,
      svm_port = ucast (ntohs (sin_port a)), svm_cid = a_cid (s_local_addr s)\<rparr>)"
    using s by (simp add: vsock_getsockname_def sock_get_def)
  then have "sys_getsockname fd (Some sizeof_sin) x' =
      Some (0, sin_bytes \<lparr>sin_family = 2, sin_port = sin_port a, sin_addr = 0\<rparr>, x')"
    using o by (simp add: sys_getsockname_def socketfd_get_def w(2) sock_call_out_def socket_vsock_ops_def svm_roundtrip
        sizeof_sin_def [symmetric])
  with s show ?thesis by (simp add: w(2))
qed

theorem inet_bind_getsockname_witness:
  "\<exists>x'. sys_bind 3 (Some (sin_bytes \<lparr>sin_family = 2, sin_port = 1792, sin_addr = 0\<rparr>)) 16 (facade_process 1 example_two) = Some (0, x')
    \<and> sys_getsockname 3 (Some sizeof_sin) x' = Some (0, sin_bytes \<lparr>sin_family = 2, sin_port = 1792, sin_addr = 0\<rparr>, x')"
proof -
  have f: "is_facade 3 0 1 (facade_process 1 example_two)" by (rule facade_process)
  have p: "ucast (ntohs 1792) = (7 :: u32)" by (simp add: ntohs_def bswap_16_def)
  have w: "fst (x_sys (facade_process 1 example_two)) = example_two" by (simp add: facade_process_def)
  obtain x' where b: "sys_bind 3 (Some (sin_bytes \<lparr>sin_family = 2, sin_port = 1792, sin_addr = 0\<rparr>)) 16 (facade_process 1 example_two)
      = Some (0, x')"
    using facade_bind [OF f, of "\<lparr>sin_family = 2, sin_port = 1792, sin_addr = 0\<rparr>" 16] example_bind p w by auto
  from inet_bind_getsockname [OF f _ b] example_two_inv w b show ?thesis by auto
qed

section \<open>Creation\<close>

text \<open>The driver of AF_INET works on its own part of the state.\<close>

definition keeps_vsock :: "(vsock_world \<times> 'l) posix_socket_ops \<Rightarrow> bool" where
  "keeps_vsock d \<longleftrightarrow> (\<forall>family type protocol s r s'. ps_create d family type protocol s = Some (r, s') \<longrightarrow> fst s' = fst s)
     \<and> (\<forall>f data s s'. ps_poll_setup d f data s = Some s' \<longrightarrow> fst s' = fst s)"

lemma vsock_ops_calls:
  "ps_create (socket_vsock_ops ops) 40 type protocol s =
     map_option (\<lambda>(r, w). (r, w, snd s)) (vsock_create ops AF_VSOCK type protocol (fst s))"
  "ps_poll_setup (socket_vsock_ops ops) f sid s = map_option (\<lambda>w. (w, snd s)) (vsock_poll_setup f sid (fst s))"
  "ps_getsockname (socket_vsock_ops ops) f sid n s = map_option (\<lambda>(rc, out). (rc, out, s)) (vsock_getsockname sid n (fst s))"
  "ps_accept4 (socket_vsock_ops ops) f sid addr n flags s =
     map_option (\<lambda>(r, w). (r, w, snd s)) (vsock_accept4 ops f sid addr n (fst s))"
  by (simp_all add: socket_vsock_ops_def on_vsock_def)

lemma vsock_create_cases:
  assumes "sock_inv w" and "vsock_create virtio_vsockdev_ops AF_VSOCK type 0 w = Some (r, w')"
  obtains (err) e where "r = Inl e" and "core w' = core w"
    | (ok) s where "r = Inr (w_next_sock w)" and "fresh_sock type s" and "core w' = core (add_sock s w)"
proof (cases "w_main_dev w")
  case True
  with assms(2) obtain rc out where c: "op_create virtio_vsockdev_ops type 0 w = Some (rc, out, w')"
    "if rc = 0 then map_option Inr out = Some r else r = Inl rc"
    by (auto simp: vsock_create_def returns split: if_splits)
  show thesis
  proof (cases "rc = 0")
    case True
    with virtio.create_core [OF c(1)] c(2) ok show thesis by auto
  next
    case False
    with virtio.create_core [OF c(1)] c(2) err show thesis by auto
  qed
qed (use assms(2) err in \<open>auto simp: vsock_create_def returns split: if_splits\<close>)

lemma inet_facade_result:
  assumes drv: "posix_socket_driver_get (e_drivers env) (uint AF_VSOCK) = Some (socket_vsock_ops virtio_vsockdev_ops)"
    and inv: "sock_inv (fst (x_sys x))" and al: "x_socks x f = Some al"
    and run: "inet_facade env type f x = Some x'"
  obtains (fallback) "x_socks x' = x_socks x" and "core (fst (x_sys x')) = core (fst (x_sys x))"
    | (facade) sid s where "x_socks x' f = Some \<lparr>al_node = \<lparr>n_data = sid, n_driver = socket_vsock_ops virtio_vsockdev_ops\<rparr>,
          al_stub = Some (al_node al)\<rparr>"
        and "sock_inv (fst (x_sys x'))" and "sid = w_next_sock (fst (x_sys x))"
        and "w_socks (fst (x_sys x')) sid = Some s" and "s_state s = UK_VSOCK_STATE_READY" and "s_posix_sock s = Some f"
proof -
  obtain r w where c: "vsock_create virtio_vsockdev_ops AF_VSOCK type 0 (fst (x_sys x)) = Some (r, w)"
    using run drv by (auto simp: inet_facade_def vsock_ops_calls bind_eq_Some_conv)
  from inv c show thesis
  proof (cases rule: vsock_create_cases)
    case (err e)
    with run drv c have "x' = x\<lparr>x_sys := (w, snd (x_sys x))\<rparr>"
      by (simp add: inet_facade_def vsock_ops_calls)
    with err fallback show thesis by simp
  next
    case (ok s)
    let ?sid = "w_next_sock (fst (x_sys x))"
    have new: "w_socks (add_sock s (fst (x_sys x))) ?sid = Some s" by (simp add: add_sock_def)
    obtain s2 where s2: "w_socks w ?sid = Some s2" "uk_vsock.truncate s2 = uk_vsock.truncate s"
      by (rule core_sock [OF ok(3) new])
    have invw: "sock_inv w"
      by (rule sock_inv_core [OF ok(3) inv_add [OF inv fresh_sockD(1,2) [OF ok(2)]]])
    let ?w = "sock_put ?sid (s2\<lparr>s_posix_sock := Some f\<rparr>) w"
    have p: "vsock_poll_setup f ?sid w = Some ?w" using s2 by (simp add: vsock_poll_setup_def sock_upd_def sock_get_def)
    have "x' = x\<lparr>x_socks := (x_socks x)(f \<mapsto> \<lparr>al_node = \<lparr>n_data = ?sid, n_driver = socket_vsock_ops virtio_vsockdev_ops\<rparr>,
        al_stub = Some (al_node al)\<rparr>), x_sys := (?w, snd (x_sys x))\<rparr>"
      using run drv c ok(1) p al by (auto simp: inet_facade_def vsock_ops_calls)
    moreover have "sock_inv ?w" by (rule poll_setup_inv [OF invw p])
    moreover have "s_state s2 = UK_VSOCK_STATE_READY" using truncate_fields(1) [OF s2(2)] ok(2) by (simp add: fresh_sock_def)
    ultimately show thesis by (intro facade [of ?sid "s2\<lparr>s_posix_sock := Some f\<rparr>"]) simp_all
  qed
qed



section \<open>Connecting\<close>

text \<open>
  C37: An address of AF_INET is not translated for \<open>connect\<close>: on a facade the call is refused, with the
  error for a wrong family when the address has the size of an AF_VSOCK address, and nothing changes.
\<close>

theorem inet_connect_refused:
  assumes "is_facade fd f sid x" and "w_main_dev (fst (x_sys x))" and "w_socks (fst (x_sys x)) sid = Some s"
    and "sin_family a \<noteq> AF_VSOCK"
  shows "sys_connect env fd (Some (sin_bytes a)) len x = Some (if len = sizeof_svm then - EAFNOSUPPORT else - EINVAL, x)"
  using assms by (auto simp: is_facade_def sys_connect_def socketfd_get_def sock_call_def socket_vsock_ops_def on_vsock_def
      vsock_connect_def sock_get_def svm_of_bytes_def sin_port_field)

theorem inet_connect_refused_witness:
  "sys_connect example_env 3 (Some (sin_bytes \<lparr>sin_family = 2, sin_port = 1792, sin_addr = 0\<rparr>)) 16 (facade_process 1 example_two)
    = Some (- EAFNOSUPPORT, facade_process 1 example_two)"
  using inet_connect_refused [OF facade_process, of 1 example_two example_ready "\<lparr>sin_family = 2, sin_port = 1792, sin_addr = 0\<rparr>"
      example_env 16]
  by (simp add: facade_process_def example_two_def example_world_def add_sock_def sizeof_svm_def)

section \<open>Accepting\<close>

text \<open>What a waiting call returns is what its last attempt returned; an invariant holds before that attempt.\<close>

lemma block_until_last:
  assumes "block_until poll again op x = Some r"
  shows "I x \<longrightarrow> (\<forall>x r s. op x = Some r \<longrightarrow> I x \<longrightarrow> I ((snd r)\<lparr>x_sys := s\<rparr>)) \<longrightarrow> (\<exists>y. I y \<and> op y = Some r \<and> \<not> again (fst r))"
  using assms
proof (rule block_until.raw_induct [where P = "\<lambda>poll again op x r. I x \<longrightarrow>
    (\<forall>x r s. op x = Some r \<longrightarrow> I x \<longrightarrow> I ((snd r)\<lparr>x_sys := s\<rparr>)) \<longrightarrow> (\<exists>y. I y \<and> op y = Some r \<and> \<not> again (fst r))"
    and xa = "(((poll, again), op), x)", unfolded prod.case, rotated])
qed (auto simp: bind_eq_Some_conv split: if_split_asm)

lemma accept_attempt:
  assumes al: "x_socks x f = Some al" "al_node al = \<lparr>n_data = sid, n_driver = socket_vsock_ops virtio_vsockdev_ops\<rparr>"
    and run: "uk_socket_accept env f blocking addr addr_len flags x = Some (r, x')"
  obtains (nomem) "r = Inl (- ENOMEM)" and "x_fds x' = x_fds x"
    | (err) w e w' where "r = Inl e" and "x_fds x' = x_fds x" and "vsock_accept4 virtio_vsockdev_ops f sid addr addr_len w = Some (Inl e, w')"
        and "blocking \<longrightarrow> e \<noteq> - EAGAIN"
    | (ok) w sid' copied w' new where "vsock_accept4 virtio_vsockdev_ops f sid addr addr_len w = Some (Inr (sid', copied), w')"
        and "r = Inr (new, copied)" and "x_fds x' = x_fds x" and "w_socks (fst (x_sys x')) sid' \<noteq> None"
        and "x_socks x' new = Some \<lparr>al_node = \<lparr>n_data = sid', n_driver = socket_vsock_ops virtio_vsockdev_ops\<rparr>, al_stub = None\<rparr>"
proof (cases "fst (socket_malloc env x)")
  case False
  with run al nomem show thesis by (auto simp: uk_socket_accept_def socket_malloc_def case_prod_unfold Let_def)
next
  case True
  let ?op = "\<lambda>x. do {
      al \<leftarrow> x_socks x f;
      (r, s) \<leftarrow> ps_accept4 (n_driver (al_node al)) f (n_data (al_node al)) addr addr_len flags (x_sys x);
      Some (r, x\<lparr>x_sys := s\<rparr>) }"
  let ?again = "\<lambda>r. blocking \<and> (case r of Inl e \<Rightarrow> e = - EAGAIN | Inr _ \<Rightarrow> False)"
  from run True al(1) obtain a z where b: "block_until (e_poll env f UKFD_POLLIN) ?again ?op (snd (socket_malloc env x)) = Some (a, z)"
    by (auto simp: uk_socket_accept_def case_prod_unfold Let_def bind_eq_Some_conv)
  let ?I = "\<lambda>y. x_socks y f = Some al \<and> x_fds y = x_fds x"
  have "?I (snd (socket_malloc env x))" using al(1) by (simp add: socket_malloc_def case_prod_unfold Let_def)
  then obtain y where y: "?I y" "?op y = Some (a, z)" "\<not> ?again a"
    using block_until_last [OF b, where I = ?I] by (auto simp: bind_eq_Some_conv)
  have z: "x_fds z = x_fds x" using y(1,2) by (auto simp: bind_eq_Some_conv)
  obtain w where w: "vsock_accept4 virtio_vsockdev_ops f sid addr addr_len (fst (x_sys y)) = Some (a, w)"
    using al(2) y by (auto simp: socket_vsock_ops_def on_vsock_def bind_eq_Some_conv)
  show thesis
  proof (cases a)
    case (Inl e)
    with run True al(1) b have "r = Inl e" "x' = z" by (simp_all add: uk_socket_accept_def case_prod_unfold Let_def)
    with w y(3) z Inl err show thesis by simp
  next
    case (Inr p)
    with run True al b obtain new where n: "socket_init (socket_vsock_ops virtio_vsockdev_ops) (fst p) z = Some (new, x')"
      "r = Inr (new, snd p)"
      by (auto simp: uk_socket_accept_def case_prod_unfold Let_def bind_eq_Some_conv)
    have "w_socks (fst (x_sys x')) (fst p) \<noteq> None" "x_fds x' = x_fds x"
      "x_socks x' new = Some \<lparr>al_node = \<lparr>n_data = fst p, n_driver = socket_vsock_ops virtio_vsockdev_ops\<rparr>, al_stub = None\<rparr>"
      using n(1) z by (auto simp: socket_init_def Let_def bind_eq_Some_conv vsock_ops_calls vsock_poll_setup_def sock_upd_def)
    with w n(2) Inr ok [of "fst (x_sys y)" "fst p" "snd p" w new] show thesis by simp
  qed
qed


text \<open>The facade of a listening socket with two requests.\<close>

lemma block_until_done: "op x = Some r \<Longrightarrow> \<not> again (fst r) \<Longrightarrow> block_until poll again op x = Some r"
  by (subst block_until.simps) simp

definition example_listening :: "(vsock_world \<times> unit) posix_world" where
  "example_listening = facade_process 0 (single_world example_listener 3)"

lemma example_facade_accept:
  "\<exists>copied x'. uk_socket_accept example_env 0 True False None 0 example_listening = Some (Inr (1, copied), x') \<and> x_fds x' 4 = None"
proof -
  let ?w = "single_world example_listener 3" and ?x = "snd (socket_malloc example_env example_listening)"
  have l: "w_socks ?w 0 = Some example_listener" "s_state example_listener = UK_VSOCK_STATE_LISTENING"
    "s_accept_queue example_listener = example_request 5000 # [example_request 6000]" "0 < s_accept_queue_length example_listener"
    "w_main_dev ?w" "0 \<noteq> w_next_sock ?w" and n: "w_next_sock ?w = 1"
    by (simp_all add: single_world_def example_listener_def example_world_def)
  obtain c w where r: "vsock_accept4 virtio_vsockdev_ops 0 0 False None ?w = Some (Inr (1, c), w)"
    using example_accept [OF l single_world_good] n by metis
  obtain s where s: "w_socks w 1 = Some s" by (rule accept_result [OF example_listener_inv r]) simp
  have m: "fst (socket_malloc example_env example_listening)" "x_sys ?x = (?w, ())" "x_socks ?x = x_socks example_listening"
    "x_next ?x = 1" "x_fds ?x 4 = None"
    "x_socks example_listening 0 = Some \<lparr>al_node = \<lparr>n_data = 0, n_driver = socket_vsock_ops virtio_vsockdev_ops\<rparr>,
       al_stub = Some \<lparr>n_data = 0, n_driver = example_inet\<rparr>\<rparr>"
    by (simp_all add: socket_malloc_def example_listening_def facade_process_def example_env_def uk_malloc_def uk_memalign_def
        alloc_plenty_def)
  let ?again = "\<lambda>r :: int + nat \<times> u8 list option. True \<and> (case r of Inl e \<Rightarrow> e = - EAGAIN | Inr _ \<Rightarrow> False)"
  have "block_until (e_poll example_env 0 UKFD_POLLIN) ?again
     (\<lambda>x. do {
        al \<leftarrow> x_socks x 0;
        (r, s) \<leftarrow> ps_accept4 (n_driver (al_node al)) 0 (n_data (al_node al)) False None 0 (x_sys x);
        Some (r, x\<lparr>x_sys := s\<rparr>)
      }) ?x = Some (Inr (1, c), ?x\<lparr>x_sys := (w, ())\<rparr>)"
    by (rule block_until_done) (simp_all add: m r vsock_ops_calls)
  with m s show ?thesis
    by (simp add: uk_socket_accept_def case_prod_unfold Let_def socket_init_def vsock_ops_calls vsock_poll_setup_def sock_upd_def sock_get_def)
qed


text \<open>
  C38: The address that \<open>getsockname\<close> gives for a connection is an AF_VSOCK address, also when the
  connection was accepted on a socket that the application created for AF_INET.
\<close>

theorem inet_accepted_reports_vsock:
  assumes "is_facade fd f sid x" and "do_accept4 env fd addr addr_len flags x = Some (new_fd, copied, x')"
    and "x_fds x' new_fd \<noteq> x_fds x new_fd"
  shows "\<exists>svm. svm_family svm = AF_VSOCK \<and> sys_getsockname new_fd (Some sizeof_svm) x' = Some (0, svm_bytes svm, x')"
proof -
  from assms(1) obtain ofl al where o: "x_fds x fd = Some ofl" "of_socket ofl" "of_file ofl = f" "x_socks x f = Some al"
    "al_node al = \<lparr>n_data = sid, n_driver = socket_vsock_ops virtio_vsockdev_ops\<rparr>"
    by (auto simp: is_facade_def)
  from assms(2) o(1-3) obtain r y where r: "uk_socket_accept env f (SHOULD_BLOCK (of_mode ofl)) addr addr_len flags x = Some (r, y)"
    "(case r of Inl e \<Rightarrow> Some (e, None, y)
      | Inr (new, copied) \<Rightarrow> fd_install env new (mode_flags flags) y \<bind> (\<lambda>(fd, x). Some (fd, copied, x))) = Some (new_fd, copied, x')"
    by (auto simp: do_accept4_def socketfd_get_def uk_sys_accept_def elim!: bind_pairE)
  from o(4,5) r(1) show ?thesis
  proof (cases rule: accept_attempt)
    case (ok w sid' c w' new)
    let ?m = "mode_flags flags"
    have "x_fds z = x_fds y" if "socket_release new True True y = Some z" for z
      using that by (auto simp: socket_release_def sock_call_def bind_eq_Some_conv)
    then have "\<not> e_fd_open env new ?m (x_fds y) < 0"
      using r(2) ok(2,3) assms(3) by (auto simp: fd_install_def Let_def bind_eq_Some_conv)
    then have "x' = y\<lparr>x_fds := (x_fds y)(new_fd \<mapsto> \<lparr>of_file = new, of_mode = ?m, of_socket = True\<rparr>)\<rparr>"
      using r(2) ok(2) by (auto simp: fd_install_def Let_def)
    moreover obtain s where "w_socks (fst (x_sys y)) sid' = Some s" using ok(4) by blast
    ultimately show ?thesis using ok(5)
      by (intro exI [of _ "\<lparr>svm_family = AF_VSOCK, svm_port = a_port (s_local_addr s), svm_cid = a_cid (s_local_addr s)\<rparr>"])
        (simp add: sys_getsockname_def socketfd_get_def sock_call_out_def vsock_ops_calls vsock_getsockname_def sock_get_def)
  qed (use r(2) assms(3) in auto)
qed

theorem inet_accepted_reports_vsock_witness:
  "\<exists>copied x' svm. do_accept4 example_env 3 False None 0 example_listening = Some (4, copied, x') \<and> svm_family svm = AF_VSOCK
    \<and> sys_getsockname 4 (Some sizeof_svm) x' = Some (0, svm_bytes svm, x')"
proof -
  have f: "is_facade 3 0 0 example_listening" unfolding example_listening_def by (rule facade_process)
  have d: "x_fds example_listening 3 = Some \<lparr>of_file = 0, of_mode = 0, of_socket = True\<rparr>" "x_fds example_listening 4 = None"
    "e_fd_open example_env g m fds = 4" for g m fds
    by (simp_all add: example_listening_def facade_process_def example_env_def)
  obtain copied x' where r: "do_accept4 example_env 3 False None 0 example_listening = Some (4, copied, x')" "x_fds x' 4 \<noteq> None"
    using example_facade_accept d
    by (auto simp: do_accept4_def socketfd_get_def SHOULD_BLOCK_def uk_sys_accept_def fd_install_def)
  from inet_accepted_reports_vsock [OF f r(1)] r d(2) show ?thesis by auto
qed

end
