(* ===== verification/Sglist_Ops.thy ===== *)
theory Sglist_Ops
  imports Sglist
begin

text \<open>
  The operations of \<open>lib/uksglist/sglist.c\<close> that work on whole lists: copying a range of another list,
  joining, cloning, splitting and slicing. Two lists that are passed to one function are different
  objects with arrays that do not overlap. The lemmas compare the operations with operations on the
  sequence of bytes that the lists cover: a range that is copied or sliced is exactly that part of the
  sequence, and the head of a split is the prefix. For \<open>uk_sglist_join\<close> and the rest of a split
  they show what the code does instead.
\<close>

section \<open>Operations\<close>

text \<open>\<open>memmove\<close> of \<open>n\<close> segments from index \<open>j\<close> of one array to index \<open>i\<close> of another.\<close>

definition seg_move :: "uk_sglist_seg list \<Rightarrow> nat \<Rightarrow> uk_sglist_seg list \<Rightarrow> nat \<Rightarrow> nat \<Rightarrow> uk_sglist_seg list option" where
  "seg_move dst i src j n = (
     if i + n \<le> length dst \<and> j + n \<le> length src
     then Some (take i dst @ take n (drop j src) @ drop (i + n) dst)
     else None)"

text \<open>
  The loop of \<open>uk_sglist_append_sglist\<close> over the source; the result has the error and the length that
  is left. In an empty list there is no current segment: the code reads the one before the array.
\<close>

fun append_sglist_loop ::
    "uk_sglist_seg list \<Rightarrow> uk_sglist \<Rightarrow> nat option \<Rightarrow> int \<Rightarrow> nat \<Rightarrow> nat \<Rightarrow> (int \<times> nat \<times> uk_sglist) option" where
  "append_sglist_loop [] sg ss error offset len = Some (error, len, sg)"
| "append_sglist_loop (s # segs) sg ss error offset len = (
     if offset \<ge> ss_len s then append_sglist_loop segs sg ss error (offset - ss_len s) len
     else do {
       let seglen = min (ss_len s - offset) len;
       cur \<leftarrow> ss;
       (error, cur, sg) \<leftarrow> sglist_append_range sg cur (ss_paddr s + offset) seglen;
       if error \<noteq> 0 then Some (error, len, sg)
       else if len - seglen = 0 then Some (error, 0, sg)
       else append_sglist_loop segs sg (Some cur) error 0 (len - seglen)
     })"

definition uk_sglist_append_sglist ::
    "uk_sglist \<Rightarrow> uk_sglist \<Rightarrow> nat \<Rightarrow> nat \<Rightarrow> (int \<times> uk_sglist) option" where
  "uk_sglist_append_sglist sg source offset len = (
     if sg_maxseg sg = 0 \<or> len = 0 then Some (- EINVAL, sg)
     else do {
       let save = UK_SGLIST_SAVE sg;
       let ss = (if sg_nseg sg = 0 then None else Some (sg_nseg sg - 1));
       (error, len, sg) \<leftarrow>
         append_sglist_loop (take (sg_nseg source) (sg_segs source)) sg ss (- EINVAL) offset len;
       let error = (if len \<noteq> 0 then - EINVAL else error);
       Some (error, if error \<noteq> 0 then UK_SGLIST_RESTORE sg save else sg)
     })"

definition uk_sglist_join :: "uk_sglist \<Rightarrow> uk_sglist \<Rightarrow> (int \<times> uk_sglist \<times> uk_sglist) option" where
  "uk_sglist_join first second = (
     if sg_nseg second = 0 then Some (0, first, second)
     else do {
       let i = sg_nseg first - 1;
       let flast = sg_segs first ! i;
       let sfirst = sg_segs second ! 0;
       uk_assert (0 < length (sg_segs second) \<and> (sg_nseg first \<noteq> 0 \<longrightarrow> i < length (sg_segs first)));
       let append = (if sg_nseg first \<noteq> 0 \<and> ss_paddr flast + ss_len flast = ss_paddr sfirst then 1 else 0);
       if sg_nseg first + sg_nseg second - append > sg_maxseg first then Some (- EFBIG, first, second)
       else do {
         let first = (if append = 1
              then first\<lparr>sg_segs := (sg_segs first)[i := flast\<lparr>ss_len := ss_len flast + ss_len sfirst\<rparr>]\<rparr>
              else first);
         segs \<leftarrow> seg_move (sg_segs second) append (sg_segs first) (sg_nseg first) (sg_nseg second - append);
         Some (0, first\<lparr>sg_nseg := sg_nseg first + (sg_nseg second - append)\<rparr>,
               uk_sglist_reset (second\<lparr>sg_segs := segs\<rparr>))
       }
     })"

text \<open>What is left of the list; \<open>None\<close> when it was the last reference and the memory is free.\<close>

definition uk_sglist_free :: "uk_sglist \<Rightarrow> uk_sglist option option" where
  "uk_sglist_free sg = (
     let old = sg_refs sg in
     if old = 0 then None
     else if old > 1 then Some (Some (sg\<lparr>sg_refs := old - 1\<rparr>))
     else Some None)"

definition uk_sglist_clone ::
    "(nat \<Rightarrow> uk_sglist_seg) \<Rightarrow> uk_sglist option \<Rightarrow> ukalloc \<Rightarrow> (uk_sglist option \<times> ukalloc) option" where
  "uk_sglist_clone junk sg a = (case sg of
     None \<Rightarrow> Some (None, a)
   | Some sg \<Rightarrow> (case uk_sglist_alloc junk a (sg_maxseg sg) of
       (None, a) \<Rightarrow> Some (None, a)
     | (Some new, a) \<Rightarrow> do {
         segs \<leftarrow> seg_move (sg_segs new) 0 (sg_segs sg) 0 (sg_nseg sg);
         Some (Some (new\<lparr>sg_segs := segs, sg_nseg := sg_nseg sg\<rparr>), a)
       }))"

text \<open>The list that split and slice fill: a new one, or an empty one of the caller with enough room.\<close>

definition sglist_target ::
    "(nat \<Rightarrow> uk_sglist_seg) \<Rightarrow> uk_sglist option \<Rightarrow> ukalloc \<Rightarrow> nat \<Rightarrow> (int + uk_sglist) \<times> ukalloc" where
  "sglist_target junk head a count = (case head of
     None \<Rightarrow> (case uk_sglist_alloc junk a count of
       (None, a) \<Rightarrow> (Inl (- ENOMEM), a)
     | (Some sg, a) \<Rightarrow> (Inr sg, a))
   | Some sg \<Rightarrow>
       (if sg_maxseg sg < count then Inl (- EFBIG)
        else if sg_nseg sg \<noteq> 0 then Inl (- EINVAL)
        else Inr sg, a))"

text \<open>The number of segments for the head, and how much of the last one stays in the original list.\<close>

fun split_scan :: "nat \<Rightarrow> nat \<Rightarrow> nat \<Rightarrow> uk_sglist_seg list \<Rightarrow> nat \<times> nat" where
  "split_scan len count space [] = (count, 0)"
| "split_scan len count space (s # segs) = (
     let space = space + ss_len s; count = count + 1 in
     if space \<ge> len then (count, space - len)
     else split_scan len count space segs)"

text \<open>The result has the error code, the original list, and \<open>*head\<close>.\<close>

definition uk_sglist_split ::
    "(nat \<Rightarrow> uk_sglist_seg) \<Rightarrow> uk_sglist \<Rightarrow> uk_sglist option \<Rightarrow> ukalloc \<Rightarrow> nat
      \<Rightarrow> (int \<times> uk_sglist \<times> uk_sglist option \<times> ukalloc) option" where
  "uk_sglist_split junk original head a len = (
     if sg_refs original > 1 then Some (- EINVAL, original, head, a)
     else
       let (count, split) = split_scan len 0 0 (take (sg_nseg original) (sg_segs original)) in
       if count = 0 then Some (0, original, head, a)
       else (case sglist_target junk head a count of
         (Inl e, a) \<Rightarrow> Some (e, original, head, a)
       | (Inr sg, a) \<Rightarrow> do {
           segs \<leftarrow> seg_move (sg_segs sg) 0 (sg_segs original) 0 count;
           let nseg = count;
           let (count, segs, osegs) = (if split \<noteq> 0
             then let count = count - 1; last = segs ! count in
               (count, segs[count := last\<lparr>ss_len := ss_len last - split\<rparr>],
                (sg_segs original)[count := \<lparr>ss_paddr = ss_paddr last + split, ss_len = split\<rparr>])
             else (count, segs, sg_segs original));
           rest \<leftarrow> seg_move osegs 0 osegs count count;
           Some (0, original\<lparr>sg_segs := rest, sg_nseg := sg_nseg original - count\<rparr>,
                 Some (sg\<lparr>sg_segs := segs, sg_nseg := nseg\<rparr>), a)
         }))"

text \<open>
  The loop of \<open>uk_sglist_slice\<close> from segment \<open>i\<close> on; the result is the final \<open>space\<close>, \<open>count\<close>, \<open>fseg\<close>,
  \<open>foffs\<close> and \<open>loffs\<close>.
\<close>

fun slice_scan ::
    "nat \<Rightarrow> nat \<Rightarrow> nat \<Rightarrow> nat \<Rightarrow> nat \<Rightarrow> nat \<Rightarrow> nat \<Rightarrow> uk_sglist_seg list \<Rightarrow> nat \<times> nat \<times> nat \<times> nat \<times> nat" where
  "slice_scan offset end i space count fseg foffs [] = (space, count, fseg, foffs, 0)"
| "slice_scan offset end i space count fseg foffs (s # segs) = (
     let space = space + ss_len s in
     if space > offset
     then
       let (fseg, foffs) = (if count = 0 then (i, offset - (space - ss_len s)) else (fseg, foffs));
           count = count + 1
       in if space \<ge> end then (space, count, fseg, foffs, space - end)
          else slice_scan offset end (i + 1) space count fseg foffs segs
     else slice_scan offset end (i + 1) space count fseg foffs segs)"

definition uk_sglist_slice ::
    "(nat \<Rightarrow> uk_sglist_seg) \<Rightarrow> uk_sglist \<Rightarrow> uk_sglist option \<Rightarrow> ukalloc \<Rightarrow> nat \<Rightarrow> nat
      \<Rightarrow> (int \<times> uk_sglist option \<times> ukalloc) option" where
  "uk_sglist_slice junk original sl a offset len = (
     if len = 0 then Some (0, sl, a)
     else
       let end = (offset + len) mod 2 ^ 64;
           (space, count, fseg, foffs, loffs) =
             slice_scan offset end 0 0 0 0 0 (take (sg_nseg original) (sg_segs original))
       in if space < end then Some (- EINVAL, sl, a)
       else (case sglist_target junk sl a count of
         (Inl e, a) \<Rightarrow> Some (e, sl, a)
       | (Inr sg, a) \<Rightarrow> do {
           segs \<leftarrow> seg_move (sg_segs sg) 0 (sg_segs original) fseg count;
           let segs = (if foffs \<noteq> 0
             then segs[0 := \<lparr>ss_paddr = ss_paddr (segs ! 0) + foffs, ss_len = ss_len (segs ! 0) - foffs\<rparr>]
             else segs);
           let segs = (if loffs \<noteq> 0
             then segs[count - 1 := (segs ! (count - 1))\<lparr>ss_len := ss_len (segs ! (count - 1)) - loffs\<rparr>]
             else segs);
           Some (0, Some (sg\<lparr>sg_segs := segs, sg_nseg := count\<rparr>), a)
         }))"

section \<open>Bytes of segments\<close>

definition segs_bytes :: "uk_sglist_seg list \<Rightarrow> nat list" where
  "segs_bytes xs = concat (map seg_bytes xs)"

definition segs_len :: "uk_sglist_seg list \<Rightarrow> nat" where
  "segs_len xs = sum_list (map ss_len xs)"

lemma segs_bytes_simps [simp]:
  "segs_bytes [] = []" "segs_bytes (s # xs) = seg_bytes s @ segs_bytes xs" "segs_bytes (xs @ ys) = segs_bytes xs @ segs_bytes ys"
  and segs_len_simps [simp]: "segs_len [] = 0" "segs_len (s # xs) = ss_len s + segs_len xs"
    "segs_len (xs @ ys) = segs_len xs + segs_len ys"
  by (simp_all add: segs_bytes_def segs_len_def)

lemma seg_bytes_length [simp]: "length (seg_bytes s) = ss_len s"
  by (simp add: seg_bytes_def)

lemma segs_bytes_length [simp]: "length (segs_bytes xs) = segs_len xs"
  by (induction xs) simp_all

lemma sg_bytes_segs: "sg_bytes sg = segs_bytes (take (sg_nseg sg) (sg_segs sg))"
  by (simp add: sg_bytes_def segs_bytes_def)

text \<open>Cutting the end of the last segment, and the start of the first one.\<close>

lemma trim_last:
  assumes "lo \<le> ss_len x"
  shows "segs_bytes (xs @ [x\<lparr>ss_len := ss_len x - lo\<rparr>]) = take (segs_len (xs @ [x]) - lo) (segs_bytes (xs @ [x]))"
proof -
  have "seg_bytes (x\<lparr>ss_len := ss_len x - lo\<rparr>) = take (ss_len x - lo) (seg_bytes x)"
    using assms by (simp add: seg_bytes_def take_upt)
  then show ?thesis using assms by simp
qed

lemma trim_first:
  assumes "fo \<le> ss_len x"
  shows "segs_bytes (\<lparr>ss_paddr = ss_paddr x + fo, ss_len = ss_len x - fo\<rparr> # xs) = drop fo (segs_bytes (x # xs))"
  using assms by (simp add: seg_bytes_def)

lemma take_segs: "segs_bytes (take k xs) = take (segs_len (take k xs)) (segs_bytes xs)"
proof -
  have "segs_bytes xs = segs_bytes (take k xs) @ segs_bytes (drop k xs)" by (simp flip: segs_bytes_simps(3))
  then show ?thesis by simp
qed

lemma drop_segs: "segs_bytes (drop k xs) = drop (segs_len (take k xs)) (segs_bytes xs)"
proof -
  have "segs_bytes xs = segs_bytes (take k xs) @ segs_bytes (drop k xs)" by (simp flip: segs_bytes_simps(3))
  then show ?thesis by simp
qed

lemma segs_len_take_mono: "i \<le> j \<Longrightarrow> segs_len (take i xs) \<le> segs_len (take j xs)"
  using segs_len_simps(3) [of "take i xs" "take (j - i) (drop i xs)"] by (simp flip: take_add)

section \<open>Slices\<close>

lemma slice_scan_later:
  assumes "slice_scan offset end i space (Suc c) fseg foffs xs = (space', count, f, fo, lo)" and "offset < space" and "space < end"
  shows "f = fseg \<and> fo = foffs \<and> (if end \<le> space + segs_len xs
    then \<exists>n<length xs. count = Suc c + Suc n \<and> space + segs_len (take n xs) < end
      \<and> space + segs_len (take (Suc n) xs) = end + lo \<and> space' = end + lo
    else space' = space + segs_len xs)"
  using assms
proof (induction xs arbitrary: i space c)
  case (Cons s xs)
  show ?case
  proof (cases "end \<le> space + ss_len s")
    case True
    with Cons.prems show ?thesis by (auto simp: Let_def intro!: exI [of _ 0])
  next
    case False
    have "slice_scan offset end (i + 1) (space + ss_len s) (Suc (Suc c)) fseg foffs xs = (space', count, f, fo, lo)"
      using Cons.prems False by (simp add: Let_def)
    note l = Cons.IH [OF this]
    show ?thesis
    proof (cases "end \<le> space + ss_len s + segs_len xs")
      case True
      with l False Cons.prems(2) obtain n where "n < length xs" "count = Suc (Suc c) + Suc n"
        "space + ss_len s + segs_len (take n xs) < end"
        "space + ss_len s + segs_len (take (Suc n) xs) = end + lo" "space' = end + lo" "f = fseg" "fo = foffs" by auto
      with True show ?thesis by (auto simp: add.assoc intro!: exI [of _ "Suc n"])
    qed (use l False Cons.prems(2) in \<open>simp add: add.assoc\<close>)
  qed
qed simp

lemma slice_scan_spec:
  assumes "slice_scan offset end i space 0 fseg foffs xs = (space', count, f, fo, lo)" and "space \<le> offset" and "offset < end"
  shows "if end \<le> space + segs_len xs
    then \<exists>k n. k + n < length xs \<and> f = i + k \<and> count = Suc n \<and> offset = space + segs_len (take k xs) + fo
      \<and> fo < ss_len (xs ! k) \<and> space + segs_len (take (k + n) xs) < end
      \<and> space + segs_len (take (Suc (k + n)) xs) = end + lo \<and> space' = end + lo
    else space' = space + segs_len xs"
  using assms
proof (induction xs arbitrary: i space fseg foffs)
  case (Cons s xs)
  show ?case
  proof (cases "offset < space + ss_len s")
    case first: True
    show ?thesis
    proof (cases "end \<le> space + ss_len s")
      case True
      with Cons.prems first show ?thesis by (auto simp: Let_def intro!: exI [of _ 0])
    next
      case False
      have "slice_scan offset end (i + 1) (space + ss_len s) (Suc 0) i (offset - space) xs = (space', count, f, fo, lo)"
        using Cons.prems first False by (simp add: Let_def)
      note l = slice_scan_later [OF this first]
      show ?thesis
      proof (cases "end \<le> space + ss_len s + segs_len xs")
        case True
        with l False obtain n where "n < length xs" "count = Suc (Suc n)" "space + ss_len s + segs_len (take n xs) < end"
          "space + ss_len s + segs_len (take (Suc n) xs) = end + lo" "space' = end + lo" "f = i" "fo = offset - space" by auto
        with True Cons.prems(2) first show ?thesis
          by (auto simp: add.assoc intro!: exI [of _ 0] exI [of _ "Suc n"])
      qed (use l False in \<open>simp add: add.assoc\<close>)
    qed
  next
    case False
    have "slice_scan offset end (i + 1) (space + ss_len s) 0 fseg foffs xs = (space', count, f, fo, lo)"
      using Cons.prems False by (simp add: Let_def)
    note l = Cons.IH [OF this]
    show ?thesis
    proof (cases "end \<le> space + ss_len s + segs_len xs")
      case True
      with l False Cons.prems(3) obtain k n where "k + n < length xs" "f = i + 1 + k" "count = Suc n"
        "offset = space + ss_len s + segs_len (take k xs) + fo" "fo < ss_len (xs ! k)"
        "space + ss_len s + segs_len (take (k + n) xs) < end"
        "space + ss_len s + segs_len (take (Suc (k + n)) xs) = end + lo" "space' = end + lo" by auto
      with True show ?thesis
        by (auto simp: add.assoc intro!: exI [of _ "Suc k"])
    qed (use l False Cons.prems(3) in \<open>simp add: add.assoc\<close>)
  qed
qed simp

text \<open>Both ends of a non-empty list of segments are cut.\<close>

definition cut_first :: "nat \<Rightarrow> uk_sglist_seg list \<Rightarrow> uk_sglist_seg list" where
  "cut_first fo xs = (if fo \<noteq> 0
     then xs[0 := \<lparr>ss_paddr = ss_paddr (xs ! 0) + fo, ss_len = ss_len (xs ! 0) - fo\<rparr>] else xs)"

definition cut_last :: "nat \<Rightarrow> nat \<Rightarrow> uk_sglist_seg list \<Rightarrow> uk_sglist_seg list" where
  "cut_last lo n xs = (if lo \<noteq> 0 then xs[n := (xs ! n)\<lparr>ss_len := ss_len (xs ! n) - lo\<rparr>] else xs)"

lemma cut_length [simp]: "length (cut_first fo xs) = length xs" "length (cut_last lo n xs) = length xs"
  by (simp_all add: cut_first_def cut_last_def)

lemma cut_first_bytes:
  assumes "xs \<noteq> []" and "fo \<le> ss_len (xs ! 0)"
  shows "segs_bytes (cut_first fo xs) = drop fo (segs_bytes xs)"
    and "ss_len (cut_first fo xs ! 0) = ss_len (xs ! 0) - fo"
    and "0 < i \<Longrightarrow> cut_first fo xs ! i = xs ! i"
    and "segs_len (cut_first fo xs) = segs_len xs - fo"
  using assms trim_first [of fo "hd xs" "tl xs"] by (cases xs; auto simp: cut_first_def)+

lemma cut_last_bytes:
  assumes "length xs = Suc n" and "lo \<le> ss_len (xs ! n)"
  shows "segs_bytes (cut_last lo n xs) = take (segs_len xs - lo) (segs_bytes xs)"
proof -
  have "xs = take n xs @ [xs ! n]" using assms(1) take_Suc_conv_app_nth [of n xs] by simp
  then obtain ys x where xs: "xs = ys @ [x]" "length ys = n" "xs ! n = x" using assms(1) by auto
  then show ?thesis using trim_last [of lo x ys] assms(2) by (auto simp: cut_last_def)
qed

lemma cut_both:
  assumes "length xs = Suc n" and "fo \<le> ss_len (xs ! 0)" and "lo \<le> ss_len (xs ! n) - (if n = 0 then fo else 0)"
  shows "segs_bytes (cut_last lo n (cut_first fo xs)) = take (segs_len xs - fo - lo) (drop fo (segs_bytes xs))"
proof -
  have ne: "xs \<noteq> []" using assms(1) by auto
  note f = cut_first_bytes [OF ne assms(2)]
  have "lo \<le> ss_len (cut_first fo xs ! n)" using f(2,3) assms(3) by (cases "n = 0") simp_all
  with cut_last_bytes [of "cut_first fo xs" n lo] assms(1) f(1,4) show ?thesis by simp
qed

lemma cut_append:
  assumes "n < length xs"
  shows "cut_first fo (xs @ ys) = cut_first fo xs @ ys" and "cut_last lo n (xs @ ys) = cut_last lo n xs @ ys"
  using assms by (auto simp: cut_first_def cut_last_def nth_append list_update_append)

lemma slice_segs:
  assumes "k + n < length xs" and "offset = segs_len (take k xs) + fo" and "fo < ss_len (xs ! k)"
    and "segs_len (take (k + n) xs) < offset + len" and "segs_len (take (Suc (k + n)) xs) = offset + len + lo" and "0 < len"
  shows "segs_bytes (cut_last lo n (cut_first fo (take (Suc n) (drop k xs)))) = take len (drop offset (segs_bytes xs))"
proof -
  let ?ys = "take (Suc n) (drop k xs)" and ?S = "segs_len (take k xs)"
  have split: "segs_len (take (k + m) xs) = ?S + segs_len (take m (drop k xs))" for m by (simp add: take_add)
  have ys: "length ?ys = Suc n" "?ys ! 0 = xs ! k" "?ys ! n = xs ! (k + n)" using assms(1) by simp_all
  have len: "segs_len ?ys = fo + len + lo" using split [of "Suc n"] assms(2,5) by simp
  have "take (Suc n) (drop k xs) = take n (drop k xs) @ [xs ! (k + n)]" using assms(1) by (simp add: take_Suc_conv_app_nth)
  then have last: "ss_len (xs ! (k + n)) + segs_len (take n (drop k xs)) = fo + len + lo" using len by simp
  moreover have "segs_len (take n (drop k xs)) < fo + len" using split [of n] assms(2,4) by simp
  ultimately have "lo \<le> ss_len (xs ! (k + n)) - (if n = 0 then fo else 0)" by (cases "n = 0") simp_all
  then have "segs_bytes (cut_last lo n (cut_first fo ?ys)) = take (segs_len ?ys - fo - lo) (drop fo (segs_bytes ?ys))"
    using cut_both [OF ys(1), of fo lo] ys(2,3) assms(3) by simp
  also have "segs_bytes ?ys = take (segs_len ?ys) (drop ?S (segs_bytes xs))" by (simp add: take_segs drop_segs)
  finally show ?thesis using len assms(2) by (simp add: drop_take min_def add.commute)
qed

lemma sglist_target_cases:
  assumes "pred_option wf_sglist head"
  obtains (refused) e a' where "sglist_target junk head a count = (Inl e, a')" and "e \<in> {- ENOMEM, - EFBIG, - EINVAL}"
    | (list) sg a' where "sglist_target junk head a count = (Inr sg, a')" and "count \<le> sg_maxseg sg" and "wf_sglist sg"
proof (cases head)
  case None
  obtain m a' where "uk_malloc a (16 + count * 16) = (m, a')" by fastforce
  with None show thesis using that
    by (cases m) (auto simp: sglist_target_def uk_sglist_alloc_def wf_sglist_def uk_sglist_init_def)
next
  case (Some sg)
  then show thesis using that assms
    by (cases "sg_maxseg sg < count"; cases "sg_nseg sg = 0") (auto simp: sglist_target_def)
qed

lemma sglist_target_error: "sglist_target junk head a count = (Inl e, a') \<Longrightarrow> e \<noteq> 0"
  by (auto simp: sglist_target_def split: option.splits if_splits prod.splits)

text \<open>
  C36: A slice of a scatter/gather list covers exactly the bytes of the range that was asked for, also
  when the range starts or ends inside a segment. A range that ends behind the list is refused, and
  every refusal leaves the list of the caller as it is.
\<close>

theorem sglist_slice_exact:
  assumes "wf_sglist original" and "pred_option wf_sglist sl" and "0 < len" and "offset + len < 2 ^ 64"
  shows "\<exists>rc sl' a'. uk_sglist_slice junk original sl a offset len = Some (rc, sl', a')
    \<and> (if rc = 0
       then \<exists>sg. sl' = Some sg \<and> wf_sglist sg \<and> offset + len \<le> length (sg_bytes original)
         \<and> sg_bytes sg = take len (drop offset (sg_bytes original))
       else sl' = sl \<and> (length (sg_bytes original) < offset + len \<longrightarrow> rc = - EINVAL))"
proof -
  let ?xs = "take (sg_nseg original) (sg_segs original)"
  obtain space count f fo lo where scan: "slice_scan offset (offset + len) 0 0 0 0 0 ?xs = (space, count, f, fo, lo)"
    by (metis prod_cases5)
  have spec: "if offset + len \<le> segs_len ?xs
    then \<exists>k n. k + n < length ?xs \<and> f = k \<and> count = Suc n \<and> offset = segs_len (take k ?xs) + fo
      \<and> fo < ss_len (?xs ! k) \<and> segs_len (take (k + n) ?xs) < offset + len
      \<and> segs_len (take (Suc (k + n)) ?xs) = offset + len + lo \<and> space = offset + len + lo
    else space = segs_len ?xs"
    by (rule slice_scan_spec [OF scan, unfolded add_0]) (use assms(3) in simp_all)
  have run: "uk_sglist_slice junk original sl a offset len = (if space < offset + len then Some (- EINVAL, sl, a)
    else (case sglist_target junk sl a count of (Inl e, a) \<Rightarrow> Some (e, sl, a)
       | (Inr sg, a) \<Rightarrow> seg_move (sg_segs sg) 0 (sg_segs original) f count \<bind> (\<lambda>segs.
           Some (0, Some (sg\<lparr>sg_segs := cut_last lo (count - 1) (cut_first fo segs), sg_nseg := count\<rparr>), a))))"
    using assms(3,4) scan unfolding uk_sglist_slice_def cut_last_def cut_first_def Let_def
    by (simp cong: sum.case_cong prod.case_cong)
  have lb: "length (sg_bytes original) = segs_len ?xs" by (simp add: sg_bytes_segs)
  show ?thesis
  proof (cases "offset + len \<le> segs_len ?xs")
    case False
    then show ?thesis using spec run lb by simp
  next
    case True
    with spec obtain k n where kn: "k + n < length ?xs" "f = k" "count = Suc n" "offset = segs_len (take k ?xs) + fo"
      "fo < ss_len (?xs ! k)" "segs_len (take (k + n) ?xs) < offset + len"
      "segs_len (take (Suc (k + n)) ?xs) = offset + len + lo" "space = offset + len + lo" by auto
    from assms(2) show ?thesis
    proof (cases rule: sglist_target_cases [where junk = junk and a = a and count = count])
      case (refused e a')
      then show ?thesis using run kn(8) lb True by auto
    next
      case (list sg a')
      let ?ys = "take (Suc n) (drop k (sg_segs original))"
      have lt: "k + n < length (sg_segs original)" "k + n < sg_nseg original" using kn(1) by simp_all
      have ys: "?ys = take (Suc n) (drop k ?xs)" "length ?ys = Suc n" using lt by (simp_all add: drop_take min_absorb1 min_absorb2)
      have room: "Suc n \<le> length (sg_segs sg)" "k + Suc n \<le> length (sg_segs original)"
        using list(2,3) kn(1,3) by (simp_all add: wf_sglist_def)
      then have mv: "seg_move (sg_segs sg) 0 (sg_segs original) k (Suc n) = Some (?ys @ drop (Suc n) (sg_segs sg))"
        by (simp add: seg_move_def)
      let ?segs = "cut_last lo n (cut_first fo ?ys) @ drop (Suc n) (sg_segs sg)"
      have cut: "cut_last lo n (cut_first fo (?ys @ drop (Suc n) (sg_segs sg))) = ?segs"
        using ys(2) cut_append(1) [of n ?ys fo] cut_append(2) [of n "cut_first fo ?ys" lo] by simp
      let ?sg = "sg\<lparr>sg_segs := ?segs, sg_nseg := Suc n\<rparr>"
      have "uk_sglist_slice junk original sl a offset len = Some (0, Some ?sg, a')"
        using run kn(2,3,8) list(1) mv cut by simp
      moreover have "wf_sglist ?sg" using list(2,3) kn(3) ys(2) by (simp add: wf_sglist_def) linarith
      moreover have "sg_bytes ?sg = take len (drop offset (sg_bytes original))"
        using slice_segs [OF kn(1,4-7) assms(3)] ys by (simp add: sg_bytes_segs)
      ultimately show ?thesis using True lb by simp
    qed
  qed
qed

text \<open>Two segments of ten and five bytes.\<close>

definition example_sg :: uk_sglist where
  "example_sg = \<lparr>sg_segs = [\<lparr>ss_paddr = 100, ss_len = 10\<rparr>, \<lparr>ss_paddr = 500, ss_len = 5\<rparr>, \<lparr>ss_paddr = 0, ss_len = 0\<rparr>],
     sg_nseg = 2, sg_maxseg = 3, sg_refs = 1\<rparr>"

lemma example_sg_wf: "wf_sglist example_sg" "sg_bytes example_sg = [100..<110] @ [500..<505]"
  by (simp_all add: wf_sglist_def example_sg_def sg_bytes_def seg_bytes_def)

theorem sglist_slice_exact_witness:
  "\<exists>sg a'. uk_sglist_slice (\<lambda>_. \<lparr>ss_paddr = 0, ss_len = 0\<rparr>) example_sg None alloc_plenty 3 9 = Some (0, Some sg, a')
    \<and> sg_bytes sg = [103..<110] @ [500, 501]"
proof -
  let ?junk = "\<lambda>_. \<lparr>ss_paddr = 0, ss_len = 0\<rparr>"
  have "\<exists>sl' a'. uk_sglist_slice ?junk example_sg None alloc_plenty 3 9 = Some (0, sl', a')"
    by (simp add: uk_sglist_slice_def example_sg_def sglist_target_def uk_sglist_alloc_def uk_malloc_def uk_memalign_def
        alloc_plenty_def uk_sglist_init_def seg_move_def)
  then obtain sl' a' where r: "uk_sglist_slice ?junk example_sg None alloc_plenty 3 9 = Some (0, sl', a')" by blast
  have "\<exists>sg. sl' = Some sg \<and> sg_bytes sg = take 9 (drop 3 (sg_bytes example_sg))"
    using sglist_slice_exact [OF example_sg_wf(1), of None 9 3 ?junk alloc_plenty] r by auto
  moreover have "take 9 (drop 3 (sg_bytes example_sg)) = [103..<110] @ [500, 501]"
    by (simp add: example_sg_wf(2) upt_rec)
  ultimately show ?thesis using r by auto
qed

section \<open>Copying a range\<close>

lemma append_sglist_loop_spec:
  assumes "wf_sglist sg" and "sg_nseg sg = Suc ss" and "0 < len" and "extends sg0 sg" and "wf_sglist sg0"
  shows "\<exists>error l sg'. append_sglist_loop segs sg (Some ss) e offset len = Some (error, l, sg') \<and> wf_sglist sg' \<and> extends sg0 sg'
    \<and> (l = 0 \<longrightarrow> error = 0 \<and> offset + len \<le> segs_len segs
         \<and> sg_bytes sg' = sg_bytes sg @ take len (drop offset (segs_bytes segs)))"
  using assms
proof (induction segs arbitrary: sg ss e offset len)
  case (Cons s segs)
  show ?case
  proof (cases "ss_len s \<le> offset")
    case True
    from Cons.IH [OF Cons.prems, of e "offset - ss_len s"] True show ?thesis by auto
  next
    case False
    let ?n = "min (ss_len s - offset) len" and ?p = "ss_paddr s + offset"
    have n: "[?p..<?p + ?n] = take ?n (drop offset (seg_bytes s))" using False by (simp add: seg_bytes_def)
    have step: ?thesis if r: "sglist_append_range sg ss ?p ?n = Some (0, ss', sg1)" "wf_sglist sg1" "extends sg sg1"
        "sg_nseg sg1 = Suc ss'" "sg_bytes sg1 = sg_bytes sg @ [?p..<?p + ?n]" for ss' sg1
    proof (cases "len - ?n = 0")
      case True
      moreover have "extends sg0 sg1" by (rule extends_trans [OF Cons.prems(4) r(3) Cons.prems(5,1)])
      ultimately show ?thesis using r(1,2,5) n False by (auto simp: min_def split: if_splits)
    next
      case more: False
      then have len: "?n = ss_len s - offset" "0 < len - ?n" by (auto simp: min_def split: if_splits)
      have ext: "extends sg0 sg1" by (rule extends_trans [OF Cons.prems(4) r(3) Cons.prems(5,1)])
      from Cons.IH [OF r(2,4) len(2) ext Cons.prems(5), of 0 0] obtain error l sg' where i:
        "append_sglist_loop segs sg1 (Some ss') 0 0 (len - ?n) = Some (error, l, sg')" "wf_sglist sg'" "extends sg0 sg'"
        "l = 0 \<longrightarrow> error = 0 \<and> len - ?n \<le> segs_len segs \<and> sg_bytes sg' = sg_bytes sg1 @ take (len - ?n) (segs_bytes segs)" by auto
      have "append_sglist_loop (s # segs) sg (Some ss) e offset len = Some (error, l, sg')"
        using r(1) i(1) False more by (simp add: Let_def) linarith
      moreover have "sg_bytes sg1 @ take (len - ?n) (segs_bytes segs) = sg_bytes sg @ take len (drop offset (segs_bytes (s # segs)))"
        using r(5) n len(1) False by simp
      ultimately show ?thesis using i(2-4) len False by auto
    qed
    from Cons.prems(1,2) show ?thesis
    proof (cases rule: append_range_spec [where paddr = ?p and len = ?n])
      case (merge sg')
      then show ?thesis using step [of ss sg'] Cons.prems(2) by simp
    next
      case (new sg')
      then show ?thesis using step [of "Suc ss" sg'] Cons.prems(2) by simp
    next
      case full
      then show ?thesis using Cons.prems False by (simp add: Let_def)
    qed
  qed
qed simp

text \<open>
  Copying a range of a scatter/gather list to the end of another one that is not empty adds exactly
  the bytes of the range, or leaves the list as it was. Every failure is reported as an invalid
  argument, also the lack of segments, for which the documentation has another code.
\<close>

lemma sglist_copy_exact:
  assumes "wf_sglist sg" and "0 < sg_nseg sg"
  shows "\<exists>rc sg'. uk_sglist_append_sglist sg source offset len = Some (rc, sg') \<and> wf_sglist sg'
    \<and> (if rc = 0
       then 0 < len \<and> offset + len \<le> length (sg_bytes source)
         \<and> sg_bytes sg' = sg_bytes sg @ take len (drop offset (sg_bytes source))
       else rc = - EINVAL \<and> sg_bytes sg' = sg_bytes sg)"
proof (cases "sg_maxseg sg = 0 \<or> len = 0")
  case True
  then show ?thesis using assms by (simp add: uk_sglist_append_sglist_def)
next
  case False
  let ?segs = "take (sg_nseg source) (sg_segs source)"
  have len: "0 < len" and ss: "sg_nseg sg = Suc (sg_nseg sg - 1)" using False assms(2) by simp_all
  obtain error l sg' where r: "append_sglist_loop ?segs sg (Some (sg_nseg sg - 1)) (- EINVAL) offset len = Some (error, l, sg')"
    "wf_sglist sg'" "extends sg sg'" "l = 0 \<longrightarrow> error = 0 \<and> offset + len \<le> segs_len ?segs
         \<and> sg_bytes sg' = sg_bytes sg @ take len (drop offset (segs_bytes ?segs))"
    using append_sglist_loop_spec [OF assms(1) ss len extends_refl assms(1), of ?segs "- EINVAL" offset] by blast
  have run: "uk_sglist_append_sglist sg source offset len = Some (if l \<noteq> 0 then - EINVAL else error,
      if l \<noteq> 0 \<or> error \<noteq> 0 then UK_SGLIST_RESTORE sg' (UK_SGLIST_SAVE sg) else sg')"
    using False assms(2) r(1) by (simp add: uk_sglist_append_sglist_def)
  show ?thesis
  proof (cases "l = 0")
    case True
    with r(2,4) run len show ?thesis by (simp add: sg_bytes_segs)
  next
    case False
    with run extends_restore [OF r(3) assms(1)] show ?thesis by simp
  qed
qed

section \<open>Splitting and joining\<close>

lemma split_scan_spec:
  assumes "split_scan len count space xs = (c, split)" and "space \<le> len"
  shows "if xs \<noteq> [] \<and> len \<le> space + segs_len xs
    then \<exists>n<length xs. c = count + Suc n \<and> space + segs_len (take (Suc n) xs) = len + split \<and> space + segs_len (take n xs) \<le> len
    else c = count + length xs \<and> split = 0"
  using assms
proof (induction xs arbitrary: count space)
  case (Cons s xs)
  show ?case
  proof (cases "len \<le> space + ss_len s")
    case True
    with Cons.prems show ?thesis by (auto simp: Let_def intro!: exI [of _ 0])
  next
    case False
    then have "split_scan len (count + 1) (space + ss_len s) xs = (c, split)" "space + ss_len s \<le> len"
      using Cons.prems by (simp_all add: Let_def)
    note l = Cons.IH [OF this]
    show ?thesis
    proof (cases "xs \<noteq> [] \<and> len \<le> space + ss_len s + segs_len xs")
      case True
      with l obtain n where "n < length xs" "c = count + 1 + Suc n" "space + ss_len s + segs_len (take (Suc n) xs) = len + split"
        "space + ss_len s + segs_len (take n xs) \<le> len" by auto
      with True show ?thesis by (auto simp: add.assoc intro!: exI [of _ "Suc n"])
    next
      case False': False
      with l False show ?thesis by (auto simp: add.assoc)
    qed
  qed
qed simp

text \<open>
  The head of a split that succeeds covers exactly the first bytes of the list, as many as were
  asked for or all that there are, also when the split is inside a segment.
\<close>

lemma sglist_split_head:
  assumes wf: "wf_sglist original" "pred_option wf_sglist head" and n: "0 < sg_nseg original"
    and run: "uk_sglist_split junk original head a len = Some (0, original', head', a')"
  shows "\<exists>sg. head' = Some sg \<and> wf_sglist sg \<and> sg_bytes sg = take len (sg_bytes original)"
proof -
  let ?xs = "take (sg_nseg original) (sg_segs original)"
  obtain c split where scan: "split_scan len 0 0 ?xs = (c, split)" by fastforce
  have ne: "?xs \<noteq> []" "length ?xs = sg_nseg original" "sg_nseg original \<le> length (sg_segs original)"
    using wf(1) n by (auto simp: wf_sglist_def)
  have spec: "if len \<le> segs_len ?xs then \<exists>n<length ?xs. c = Suc n \<and> segs_len (take (Suc n) ?xs) = len + split
      \<and> segs_len (take n ?xs) \<le> len else c = length ?xs \<and> split = 0"
    using split_scan_spec [OF scan] ne(1) by (auto split: if_splits)
  obtain m where m: "c = Suc m" "m < sg_nseg original" "segs_len (take (Suc m) ?xs) - split = min len (segs_len ?xs)"
    "segs_len (take m ?xs) + split \<le> segs_len (take (Suc m) ?xs)"
  proof (cases "len \<le> segs_len ?xs")
    case True
    with spec ne(2) that show thesis by fastforce
  next
    case False
    with spec ne n that [of "sg_nseg original - 1"] show thesis
      by (simp add: segs_len_take_mono)
  qed
  have bytes: "segs_bytes (cut_last split m (take (Suc m) ?xs)) = take len (segs_bytes ?xs)"
  proof -
    have last: "take (Suc m) ?xs = take m ?xs @ [?xs ! m]" using m(2) ne(2) by (simp add: take_Suc_conv_app_nth)
    then have "split \<le> ss_len (take (Suc m) ?xs ! m)" using m(4) ne(2) m(2) by (simp add: nth_append)
    then have "segs_bytes (cut_last split m (take (Suc m) ?xs)) = take (segs_len (take (Suc m) ?xs) - split) (segs_bytes (take (Suc m) ?xs))"
      using m(2) ne(2) by (intro cut_last_bytes) simp_all
    then show ?thesis using m(3) by (simp add: take_segs)
  qed
  from wf(2) show ?thesis
  proof (cases rule: sglist_target_cases [where junk = junk and a = a and count = c])
    case (refused e b)
    then show ?thesis using run scan m(1) by (auto simp: uk_sglist_split_def split: if_splits)
  next
    case (list sg b)
    let ?ys = "take (Suc m) ?xs"
    have room: "Suc m \<le> length (sg_segs sg)" "Suc m \<le> length (sg_segs original)" "length ?ys = Suc m"
      using list(2,3) m(1,2) ne(2,3) by (auto simp: wf_sglist_def)
    have mv: "seg_move (sg_segs sg) 0 (sg_segs original) 0 (Suc m) = Some (?ys @ drop (Suc m) (sg_segs sg))"
      using room m(2) by (simp add: seg_move_def min_absorb1)
    have cut: "cut_last split m (?ys @ drop (Suc m) (sg_segs sg)) = cut_last split m ?ys @ drop (Suc m) (sg_segs sg)"
      using room by (intro cut_append) simp
    have "head' = Some (sg\<lparr>sg_segs := cut_last split m (?ys @ drop (Suc m) (sg_segs sg)), sg_nseg := Suc m\<rparr>)"
      using run scan m(1) list(1) mv
      by (auto simp: uk_sglist_split_def cut_last_def Let_def split: if_splits option.splits elim!: bind_eq_Some_conv [THEN iffD1, elim_format])
    then show ?thesis using cut bytes room list(2,3) m(1) by (auto simp: sg_bytes_segs wf_sglist_def)
  qed
qed



text \<open>
  C40: Joining two lists loses the segments of the second one. The arguments of the copy are swapped:
  behind its own segments, the last one of which may have grown by the first segment of the second list,
  the first list counts segments that are whatever its unused entries held.
\<close>

theorem sglist_join_loses_second:
  assumes "wf_sglist first" and "wf_sglist second" and "0 < sg_nseg second"
    and "uk_sglist_join first second = Some (0, first', second')"
  shows "\<exists>k \<le> 1. sg_nseg first' = sg_nseg first + sg_nseg second - k
    \<and> sg_bytes first' = sg_bytes first @ segs_bytes (take k (sg_segs second))
        @ segs_bytes (take (sg_nseg second - k) (drop (sg_nseg first) (sg_segs first)))
    \<and> sg_nseg second' = 0"
proof -
  let ?i = "sg_nseg first - 1"
  let ?l = "sg_segs first ! ?i" and ?f = "sg_segs second ! 0"
  let ?m = "sg_nseg first \<noteq> 0 \<and> ss_paddr ?l + ss_len ?l = ss_paddr ?f"
  have len: "sg_nseg first \<le> length (sg_segs first)" "0 < length (sg_segs second)"
    using assms(1-3) by (auto simp: wf_sglist_def)
  show ?thesis
  proof (cases ?m)
    case True
    let ?first = "first\<lparr>sg_segs := (sg_segs first)[?i := ?l\<lparr>ss_len := ss_len ?l + ss_len ?f\<rparr>]\<rparr>"
    have r: "first' = ?first\<lparr>sg_nseg := sg_nseg first + (sg_nseg second - 1)\<rparr>" "sg_nseg second' = 0"
      using assms(3,4) True
      by (auto simp: uk_sglist_join_def uk_sglist_reset_def Let_def bind_eq_Some_conv split: if_splits)
    have i: "?i < length (sg_segs first)" "sg_nseg first = Suc ?i" using True len by auto
    have "seg_bytes (?l\<lparr>ss_len := ss_len ?l + ss_len ?f\<rparr>) = seg_bytes ?l @ seg_bytes ?f"
      using True upt_add_eq_append [of "ss_paddr ?l" "ss_paddr ?l + ss_len ?l" "ss_len ?f"]
      by (auto simp: seg_bytes_def simp flip: add.assoc)
    then have "segs_bytes (take (sg_nseg first) (sg_segs ?first)) = sg_bytes first @ seg_bytes ?f"
      using i take_Suc_update [OF i(1)] take_Suc_conv_app_nth [OF i(1)] by (simp add: sg_bytes_segs)
    moreover have "take 1 (sg_segs second) = [?f]" using len(2) by (cases "sg_segs second") simp_all
    moreover have "drop (sg_nseg first) (sg_segs ?first) = drop (sg_nseg first) (sg_segs first)" using i by simp
    moreover have "sg_bytes first' = segs_bytes (take (sg_nseg first) (sg_segs ?first))
        @ segs_bytes (take (sg_nseg second - 1) (drop (sg_nseg first) (sg_segs ?first)))"
      using take_add [of "sg_nseg first" "sg_nseg second - 1" "sg_segs ?first"] r(1)
      by (simp add: sg_bytes_segs del: drop_update_cancel)
    ultimately show ?thesis using r assms(3) by (intro exI [of _ 1]) simp
  next
    case False
    have r: "first' = first\<lparr>sg_nseg := sg_nseg first + sg_nseg second\<rparr>" "sg_nseg second' = 0"
      using assms(3,4) False
      by (auto simp: uk_sglist_join_def uk_sglist_reset_def Let_def bind_eq_Some_conv split: if_splits)
    then show ?thesis by (intro exI [of _ 0]) (simp add: sg_bytes_segs take_add)
  qed
qed

theorem sglist_join_loses_second_witness:
  "\<exists>first' second'. uk_sglist_join (example_sg\<lparr>sg_nseg := 1\<rparr>) (example_sg\<lparr>sg_segs := [\<lparr>ss_paddr = 900, ss_len = 2\<rparr>], sg_nseg := 1, sg_maxseg := 1\<rparr>)
      = Some (0, first', second') \<and> sg_bytes first' = [100..<110] @ [500..<505]"
proof -
  let ?a = "example_sg\<lparr>sg_nseg := 1\<rparr>"
  let ?b = "example_sg\<lparr>sg_segs := [\<lparr>ss_paddr = 900, ss_len = 2\<rparr>], sg_nseg := 1, sg_maxseg := 1\<rparr>"
  have "\<exists>first' second'. uk_sglist_join ?a ?b = Some (0, first', second') \<and> sg_nseg first' = 2"
    by (simp add: uk_sglist_join_def example_sg_def seg_move_def Let_def)
  then obtain first' second' where r: "uk_sglist_join ?a ?b = Some (0, first', second')" "sg_nseg first' = 2" by blast
  have w: "wf_sglist ?a" "wf_sglist ?b" "0 < sg_nseg ?b" by (simp_all add: wf_sglist_def example_sg_def)
  from sglist_join_loses_second [OF w r(1)] obtain k where k: "sg_nseg first' = sg_nseg ?a + sg_nseg ?b - k"
    "sg_bytes first' = sg_bytes ?a @ segs_bytes (take k (sg_segs ?b)) @ segs_bytes (take (sg_nseg ?b - k) (drop (sg_nseg ?a) (sg_segs ?a)))"
    by blast
  then have "k = 0" using r(2) by simp
  with k(2) r show ?thesis by (auto simp: example_sg_def sg_bytes_def seg_bytes_def)
qed

end
