(* ===== verification/Virtio_Setup.thy ===== *)
theory Virtio_Setup
  imports Vsock_Props
begin

text \<open>
  The vsock device library, \<open>lib/ukvsockdev/vsockdev.c\<close>, and the start of the driver,
  \<open>virtio_vsock.c\<close>: registration of the device, the handlers that run the work of a queue in threads of
  their own, negotiation of features, creation of the queues, and the way back on errors. The registers
  of the device are a parameter.
\<close>

section \<open>Event handlers\<close>

text \<open>
  \<open>eh_sched\<close> and \<open>eh_dispatcher\<close> say that the scheduler and the thread are set, \<open>eh_events\<close> is the
  semaphore.
\<close>

record uk_vsockdev_event_handler =
  eh_callback :: bool
  eh_events :: nat
  eh_sched :: bool
  eh_dispatcher :: bool

text \<open>\<open>thread\<close> is whether the scheduler can create the thread.\<close>

definition create_event_handler ::
    "bool \<Rightarrow> bool \<Rightarrow> uk_vsockdev_event_handler \<Rightarrow> (int \<times> uk_vsockdev_event_handler) option" where
  "create_event_handler thread callback h = do {
     uk_assert (\<not> eh_dispatcher h);
     let h = h\<lparr>eh_callback := callback\<rparr>;
     if \<not> callback then Some (0, h)
     else do {
       let h = h\<lparr>eh_events := 0, eh_sched := True, eh_dispatcher := thread\<rparr>;
       Some (if eh_dispatcher h then 0 else - ENOMEM, h)
     }
   }"

definition destroy_event_handler :: "uk_vsockdev_event_handler \<Rightarrow> uk_vsockdev_event_handler option" where
  "destroy_event_handler h = do {
     uk_assert (eh_sched h);
     Some (if eh_dispatcher h then h\<lparr>eh_dispatcher := False\<rparr> else h)
   }"

text \<open>A queue that needs attention, from the interrupt.\<close>

definition uk_vsockdev_notify :: "uk_vsockdev_event_handler \<Rightarrow> uk_vsockdev_event_handler" where
  "uk_vsockdev_notify h = h\<lparr>eh_events := Suc (eh_events h)\<rparr>"

text \<open>
  One round of the endless loop of a thread, which takes all events at once and then calls the work of
  the queue; without an event the thread sleeps.
\<close>

definition dispatcher_round ::
    "(vsock_world \<Rightarrow> vsock_world option) \<Rightarrow> uk_vsockdev_event_handler \<Rightarrow> vsock_world
      \<Rightarrow> (uk_vsockdev_event_handler \<times> vsock_world) option" where
  "dispatcher_round work h w = do {
     uk_assert (eh_callback h);
     if eh_events h = 0 then Some (h, w)
     else do { w \<leftarrow> work w; Some (h\<lparr>eh_events := 0\<rparr>, w) }
   }"

section \<open>The device while it is set up\<close>

text \<open>
  \<open>b_max\<close> and \<open>b_vq\<close> are the size of a queue that the device offers and whether its ring exists, by the
  number of the queue; \<open>b_status\<close> has what was written to the status register, the last value first.
\<close>

record virtio_boot =
  b_w :: vsock_world
  b_features :: u64
  b_status :: "u8 list"
  b_max :: "nat \<Rightarrow> u16"
  b_vq :: "nat \<Rightarrow> bool"
  b_rxq :: uk_vsockdev_event_handler
  b_evq :: uk_vsockdev_event_handler

text \<open>
  What the registers of the device give: its features, its configuration (an error or the guest CID),
  its queues (their number or an error, and their sizes); whether its status can be written; whether
  the threads of the two handlers can be created; and the sizes of the two structures of the driver.
\<close>

record virtio_bus =
  vb_features :: u64
  vb_config :: "int \<times> u64"
  vb_vqs :: "int \<times> (nat \<Rightarrow> u16)"
  vb_status_set :: bool
  vb_rxq_thread :: bool
  vb_evq_thread :: bool
  vb_sizeof_dev :: nat
  vb_sizeof_queue :: nat

definition VIRTIO_VSOCK_F_STREAM :: nat where "VIRTIO_VSOCK_F_STREAM = 0"
definition VIRTIO_VSOCK_F_SEQPACKET :: nat where "VIRTIO_VSOCK_F_SEQPACKET = 1"
definition VIRTIO_VSOCK_F_NO_IMPLIED_STREAM :: nat where "VIRTIO_VSOCK_F_NO_IMPLIED_STREAM = 2"

abbreviation VIRTIO_CONFIG_STATUS_ACK :: u8 where "VIRTIO_CONFIG_STATUS_ACK \<equiv> 1"
abbreviation VIRTIO_CONFIG_STATUS_DRIVER :: u8 where "VIRTIO_CONFIG_STATUS_DRIVER \<equiv> 2"
abbreviation VIRTIO_CONFIG_STATUS_DRIVER_OK :: u8 where "VIRTIO_CONFIG_STATUS_DRIVER_OK \<equiv> 4"
abbreviation VIRTIO_CONFIG_STATUS_FEATURES_OK :: u8 where "VIRTIO_CONFIG_STATUS_FEATURES_OK \<equiv> 8"
abbreviation VIRTIO_CONFIG_STATUS_FAIL :: u8 where "VIRTIO_CONFIG_STATUS_FAIL \<equiv> 128"

text \<open>The handlers of the two queues, always with a callback.\<close>

definition uk_vsockdev_rxqueue_configure :: "virtio_bus \<Rightarrow> virtio_boot \<Rightarrow> (int \<times> virtio_boot) option" where
  "uk_vsockdev_rxqueue_configure bus b = do {
     (rc, h) \<leftarrow> create_event_handler (vb_rxq_thread bus) True (b_rxq b);
     Some (rc, b\<lparr>b_rxq := h\<rparr>)
   }"

definition uk_vsockdev_evqueue_configure :: "virtio_bus \<Rightarrow> virtio_boot \<Rightarrow> (int \<times> virtio_boot) option" where
  "uk_vsockdev_evqueue_configure bus b = do {
     (rc, h) \<leftarrow> create_event_handler (vb_evq_thread bus) True (b_evq b);
     Some (rc, b\<lparr>b_evq := h\<rparr>)
   }"

definition uk_vsockdev_rxqueue_unconfigure :: "virtio_boot \<Rightarrow> virtio_boot option" where
  "uk_vsockdev_rxqueue_unconfigure b = do { h \<leftarrow> destroy_event_handler (b_rxq b); Some (b\<lparr>b_rxq := h\<rparr>) }"

definition uk_vsockdev_evqueue_unconfigure :: "virtio_boot \<Rightarrow> virtio_boot option" where
  "uk_vsockdev_evqueue_unconfigure b = do { h \<leftarrow> destroy_event_handler (b_evq b); Some (b\<lparr>b_evq := h\<rparr>) }"

lemmas configure_defs = uk_vsockdev_rxqueue_configure_def uk_vsockdev_evqueue_configure_def

definition virtio_dev_status_update :: "virtio_bus \<Rightarrow> u8 \<Rightarrow> virtio_boot \<Rightarrow> int \<times> virtio_boot" where
  "virtio_dev_status_update bus status b =
     (if vb_status_set bus then (0, b\<lparr>b_status := status # b_status b\<rparr>) else (- EOPNOTSUPP, b))"

definition virtio_dev_drv_up :: "virtio_bus \<Rightarrow> virtio_boot \<Rightarrow> virtio_boot" where
  "virtio_dev_drv_up bus b = snd (virtio_dev_status_update bus (VIRTIO_CONFIG_STATUS_ACK OR VIRTIO_CONFIG_STATUS_DRIVER
     OR VIRTIO_CONFIG_STATUS_FEATURES_OK OR VIRTIO_CONFIG_STATUS_DRIVER_OK) b)"

definition VIRTIO_FEATURE_HAS :: "u64 \<Rightarrow> nat \<Rightarrow> bool" where
  "VIRTIO_FEATURE_HAS features bitpos \<longleftrightarrow> features AND push_bit bitpos 1 \<noteq> 0"

definition VIRTIO_FEATURE_SET :: "u64 \<Rightarrow> nat \<Rightarrow> u64" where
  "VIRTIO_FEATURE_SET features bitpos = features OR push_bit bitpos 1"

definition POWER_OF_2 :: "u16 \<Rightarrow> bool" where
  "POWER_OF_2 v \<longleftrightarrow> 0 \<noteq> v \<and> 0 = v AND (v - 1)"

section \<open>Registration\<close>

definition uk_vsockdev_register :: "vsock_world \<Rightarrow> (int \<times> vsock_world) option" where
  "uk_vsockdev_register w = do {
     uk_assert (\<not> w_main_dev w);
     Some (uk_vsockets_init (w\<lparr>w_main_dev := True\<rparr>))
   }"

definition vsockdev_get :: "vsock_world \<Rightarrow> bool" where
  "vsockdev_get w = w_main_dev w"

section \<open>Features\<close>

definition offered :: "u64 \<Rightarrow> nat \<Rightarrow> u64 \<Rightarrow> u64" where
  "offered host_features bitpos drv_features =
     (if VIRTIO_FEATURE_HAS host_features bitpos then VIRTIO_FEATURE_SET drv_features bitpos else drv_features)"

definition virtio_vsockdev_feature_negotiate :: "virtio_bus \<Rightarrow> virtio_boot \<Rightarrow> int \<times> virtio_boot" where
  "virtio_vsockdev_feature_negotiate bus b = (
     let host_features = vb_features bus;
         drv_features = offered host_features VIRTIO_F_VERSION_1 0;
         drv_features = offered host_features VIRTIO_VSOCK_F_NO_IMPLIED_STREAM drv_features;
         drv_features = offered host_features VIRTIO_VSOCK_F_STREAM drv_features;
         drv_features = offered host_features VIRTIO_VSOCK_F_SEQPACKET drv_features;
         drv_features = offered host_features VIRTIO_F_EVENT_IDX drv_features;
         (rc, guest_cid) = vb_config bus in
     if rc \<noteq> 0 then (- EAGAIN, b)
     else if guest_cid < 3 then (- EAGAIN, b)
     else if guest_cid > 0xFFFFFFFF then (- ERANGE, b)
     else virtio_dev_status_update bus
       (VIRTIO_CONFIG_STATUS_ACK OR VIRTIO_CONFIG_STATUS_DRIVER OR VIRTIO_CONFIG_STATUS_FEATURES_OK)
       (b\<lparr>b_w := (b_w b)\<lparr>w_dev := (w_dev (b_w b))\<lparr>d_cid := ucast guest_cid\<rparr>\<rparr>, b_features := drv_features\<rparr>))"

section \<open>Queues\<close>

text \<open>The transport creates the ring and tells the device where it is.\<close>

definition vm_setup_vq ::
    "(nat \<Rightarrow> 'c virtqueue_desc_info) \<Rightarrow> u64 \<Rightarrow> u16 \<Rightarrow> ukalloc \<Rightarrow> (int + 'c virtqueue_vring) \<times> ukalloc" where
  "vm_setup_vq junk features num_desc a = virtqueue_create junk a (unat num_desc) PAGE_SIZE features"

definition virtio_vsockdev_setup_queue ::
    "(nat \<Rightarrow> 'c virtqueue_desc_info) \<Rightarrow> u64 \<Rightarrow> u16 \<Rightarrow> u16 \<Rightarrow> 'c virtio_vsockdev_queue \<Rightarrow> ukalloc
      \<Rightarrow> int \<times> 'c virtio_vsockdev_queue \<times> ukalloc" where
  "virtio_vsockdev_setup_queue junk features max_nb_desc nb_desc queue a = (
     if max_nb_desc < nb_desc then (- ENOBUFS, queue, a)
     else let nb_desc = (if nb_desc = 0 \<or> \<not> VIRTIO_FEATURE_HAS features VIRTIO_F_VERSION_1 then max_nb_desc else nb_desc) in
       if \<not> POWER_OF_2 nb_desc then (- EINVAL, queue, a)
       else case vm_setup_vq junk features nb_desc a of
           (Inl e, a) \<Rightarrow> (e, queue, a)
         | (Inr vq, a) \<Rightarrow> (0, queue\<lparr>q_vq := vq, q_nb_desc := nb_desc\<rparr>, a))"

text \<open>The three calls of it, which differ in the type of what the ring refers to.\<close>

definition setup_rx :: "(nat \<Rightarrow> uk_netbuf virtqueue_desc_info) \<Rightarrow> virtio_boot \<Rightarrow> int \<times> virtio_boot" where
  "setup_rx junk b = (
     let w = b_w b; (rc, q, a) = virtio_vsockdev_setup_queue junk (b_features b) (b_max b 0) 0 (d_rx (w_dev w)) (w_alloc w) in
     (rc, b\<lparr>b_w := (put_rx q w)\<lparr>w_alloc := a\<rparr>, b_vq := (b_vq b)(0 := rc = 0 \<or> b_vq b 0)\<rparr>))"

definition setup_tx :: "(nat \<Rightarrow> uk_netbuf virtqueue_desc_info) \<Rightarrow> virtio_boot \<Rightarrow> int \<times> virtio_boot" where
  "setup_tx junk b = (
     let w = b_w b; (rc, q, a) = virtio_vsockdev_setup_queue junk (b_features b) (b_max b 1) 0 (d_tx (w_dev w)) (w_alloc w) in
     (rc, b\<lparr>b_w := (put_tx q w)\<lparr>w_alloc := a\<rparr>, b_vq := (b_vq b)(1 := rc = 0 \<or> b_vq b 1)\<rparr>))"

definition setup_ev :: "(nat \<Rightarrow> nat virtqueue_desc_info) \<Rightarrow> virtio_boot \<Rightarrow> int \<times> virtio_boot" where
  "setup_ev junk b = (
     let w = b_w b; (rc, q, a) = virtio_vsockdev_setup_queue junk (b_features b) (b_max b 2) 0 (d_ev (w_dev w)) (w_alloc w) in
     (rc, b\<lparr>b_w := (put_ev q w)\<lparr>w_alloc := a\<rparr>, b_vq := (b_vq b)(2 := rc = 0 \<or> b_vq b 2)\<rparr>))"

text \<open>The buffers in the rings stay allocated.\<close>

definition virtio_vsockdev_release_queues :: "virtio_boot \<Rightarrow> virtio_boot" where
  "virtio_vsockdev_release_queues b =
     fold (\<lambda>i b. if b_vq b i then b\<lparr>b_vq := (b_vq b)(i := False)\<rparr> else b) [0..<3] b"

definition virtio_vsockdev_setup_queues ::
    "virtio_bus \<Rightarrow> (nat \<Rightarrow> uk_netbuf virtqueue_desc_info) \<Rightarrow> (nat \<Rightarrow> nat virtqueue_desc_info) \<Rightarrow> virtio_boot
      \<Rightarrow> (int \<times> virtio_boot) option" where
  "virtio_vsockdev_setup_queues bus junk junk_ev b = do {
     let (rc, b) = setup_rx junk b;
     if rc \<noteq> 0 then Some (rc, b)
     else do {
       let (rc, b) = setup_tx junk b;
       if rc \<noteq> 0 then Some (rc, b)
       else do {
         let (rc, b) = setup_ev junk_ev b;
         if rc \<noteq> 0 then Some (rc, b)
         else do {
           (rc, w) \<leftarrow> virtio_vsockdev_evq_fillup (q_nb_desc (d_ev (w_dev (b_w b)))) False (b_w b);
           let b = b\<lparr>b_w := w\<rparr>;
           if rc < 0 then Some (rc, virtio_vsockdev_release_queues b)
           else do {
             (rc, w) \<leftarrow> virtio_vsockdev_rxq_fillup (q_nb_desc (d_rx (w_dev (b_w b)))) False (b_w b);
             let b = b\<lparr>b_w := w\<rparr>;
             if rc < 0 then Some (rc, virtio_vsockdev_release_queues b)
             else do {
               (rc, b) \<leftarrow> uk_vsockdev_evqueue_configure bus b;
               if rc \<noteq> 0 then Some (rc, virtio_vsockdev_release_queues b)
               else do {
                 (rc, b) \<leftarrow> uk_vsockdev_rxqueue_configure bus b;
                 if rc \<noteq> 0 then do {
                   b \<leftarrow> uk_vsockdev_evqueue_unconfigure b;
                   Some (rc, virtio_vsockdev_release_queues b)
                 }
                 else Some (0, b)
               }
             }
           }
         }
       }
     }
   }"

definition empty_queue :: "'c virtqueue_vring \<Rightarrow> 'c virtio_vsockdev_queue" where
  "empty_queue vq = \<lparr>q_vq = vq, q_nb_desc = 0, q_intr_enabled = 0,
     q_sg = uk_sglist_init VSOCK_MAX_FRAGMENTS (replicate VSOCK_MAX_FRAGMENTS \<lparr>ss_paddr = 0, ss_len = 0\<rparr>)\<rparr>"

text \<open>The fields of the queues are zero, with no ring; that of the state has no meaning then.\<close>

definition virtio_vsockdev_alloc_queues :: "virtio_bus \<Rightarrow> virtio_boot \<Rightarrow> int \<times> virtio_boot" where
  "virtio_vsockdev_alloc_queues bus b = (
     let w = b_w b; d = w_dev w; (queues, a) = uk_malloc (w_alloc w) (3 * vb_sizeof_queue bus); b = b\<lparr>b_w := w\<lparr>w_alloc := a\<rparr>\<rparr> in
     case queues of
       None \<Rightarrow> (- ENOMEM, b)
     | Some _ \<Rightarrow>
         let (vq_avail, qdesc_size) = vb_vqs bus in
         if vq_avail \<noteq> 3 then (- ENOMEM, b)
         else (0, b\<lparr>b_max := qdesc_size, b_vq := (\<lambda>_. False),
            b_w := (b_w b)\<lparr>w_dev := d\<lparr>d_rx := empty_queue (q_vq (d_rx d)), d_tx := empty_queue (q_vq (d_tx d)),
              d_ev := empty_queue (q_vq (d_ev d))\<rparr>\<rparr>\<rparr>))"

section \<open>Starting\<close>

definition virtio_vsockdev_start :: "virtio_bus \<Rightarrow> virtio_boot \<Rightarrow> int \<times> virtio_boot" where
  "virtio_vsockdev_start bus b = (
     let (rc, w) = virtio_vsockdev_rx_intr_enable (b_w b); b = b\<lparr>b_w := w\<rparr> in
     if rc \<noteq> 0 then (rc, b)
     else let (rc, w) = virtio_vsockdev_evq_intr_enable (b_w b); b = b\<lparr>b_w := w\<rparr> in
       if rc \<noteq> 0 then (rc, b)
       else (0, virtio_dev_drv_up bus b))"

text \<open>
  Freeing the structures at the end of the error path has no effect on the state; the registration
  of the device is not taken back.
\<close>

definition virtio_vsockdev_add_dev ::
    "virtio_bus \<Rightarrow> (nat \<Rightarrow> uk_netbuf virtqueue_desc_info) \<Rightarrow> (nat \<Rightarrow> nat virtqueue_desc_info) \<Rightarrow> virtio_boot
      \<Rightarrow> (int \<times> virtio_boot) option" where
  "virtio_vsockdev_add_dev bus junk junk_ev b = (
     let (vv, a) = uk_malloc (w_alloc (b_w b)) (vb_sizeof_dev bus); b = b\<lparr>b_w := (b_w b)\<lparr>w_alloc := a\<rparr>\<rparr> in
     case vv of
       None \<Rightarrow> Some (- ENOMEM, b)
     | Some _ \<Rightarrow> do {
         let no_handler = \<lparr>eh_callback = False, eh_events = 0, eh_sched = False, eh_dispatcher = False\<rparr>;
         (rc, w) \<leftarrow> uk_vsockdev_register (b_w b);
         let b = b\<lparr>b_w := w, b_rxq := no_handler, b_evq := no_handler\<rparr>;
         if rc \<noteq> 0 then Some (rc, b)
         else do {
           let (rc, b) = virtio_vsockdev_feature_negotiate bus b;
           if rc \<noteq> 0 then Some (rc, b)
           else do {
             let (rc, b) = virtio_vsockdev_alloc_queues bus b;
             if rc \<noteq> 0 then Some (rc, snd (virtio_dev_status_update bus VIRTIO_CONFIG_STATUS_FAIL b))
             else do {
               (rc, b) \<leftarrow> virtio_vsockdev_setup_queues bus junk junk_ev b;
               if rc \<noteq> 0 then Some (rc, snd (virtio_dev_status_update bus VIRTIO_CONFIG_STATUS_FAIL b))
               else do {
                 let (rc, b) = virtio_vsockdev_start bus b;
                 if rc \<noteq> 0
                 then do {
                   b \<leftarrow> uk_vsockdev_rxqueue_unconfigure b;
                   b \<leftarrow> uk_vsockdev_evqueue_unconfigure b;
                   let b = virtio_vsockdev_release_queues b;
                   Some (rc, snd (virtio_dev_status_update bus VIRTIO_CONFIG_STATUS_FAIL b))
                 }
                 else Some (0, b)
               }
             }
           }
         }
       })"

text \<open>The allocator that all of the driver uses.\<close>

definition virtio_vsockdev_drv_init :: "ukalloc option \<Rightarrow> vsock_world \<Rightarrow> int \<times> vsock_world" where
  "virtio_vsockdev_drv_init drv_allocator w = (case drv_allocator of
     None \<Rightarrow> (- EINVAL, w)
   | Some a \<Rightarrow> (0, w\<lparr>w_alloc := a\<rparr>))"

section \<open>The queues that are created\<close>

lemma power_of_2_nat:
  assumes "0 < n" and "n AND (n - 1) = (0 :: nat)"
  shows "\<exists>k. n = 2 ^ k"
proof -
  obtain k where k: "2 ^ k \<le> n" "n < 2 ^ Suc k" using ex_power_ivl1 [of 2 n] assms(1) by auto
  have top: "bit m k" if "2 ^ k \<le> m" and "m < 2 ^ Suc k" for m :: nat
  proof -
    have "m div 2 ^ k = 1" using that by (intro div_nat_eqI) simp_all
    then show ?thesis by (simp add: bit_iff_odd)
  qed
  have "\<not> 2 ^ k \<le> n - 1" using top [of n] top [of "n - 1"] k assms(2) by (metis bit_0_eq bit_and_iff bot_apply bot_bool_def diff_le_self le_less_trans)
  with k(1) assms(1) have "n = 2 ^ k" by simp
  then show ?thesis ..
qed

lemma POWER_OF_2_exp:
  assumes "POWER_OF_2 v"
  shows "\<exists>k \<le> 15. unat v = 2 ^ k"
proof -
  have v: "v \<noteq> 0" "v AND (v - 1) = 0" using assms by (simp_all add: POWER_OF_2_def)
  have "unat v AND unat (v - 1) = 0" using arg_cong [OF v(2), of unat] by (simp add: unsigned_and_eq)
  moreover have "unat (v - 1) = unat v - 1" using v(1) by (simp add: unat_minus_one)
  ultimately obtain k where k: "unat v = 2 ^ k" using power_of_2_nat [of "unat v"] v(1) by (auto simp: unat_gt_0)
  moreover have "k \<le> 15"
  proof (rule ccontr)
    assume "\<not> k \<le> 15"
    then have "(2 :: nat) ^ 16 \<le> 2 ^ k" by (intro power_increasing) simp_all
    moreover have "unat v < 65536" using unsigned_less [of v, where 'a = nat] by simp
    ultimately show False using k by simp
  qed
  ultimately show ?thesis by blast
qed

lemma setup_queue_ok:
  assumes "virtio_vsockdev_setup_queue junk features max_nb_desc 0 q a = (0, q', a')"
  obtains k where "k \<le> 15" and "unat max_nb_desc = 2 ^ k" and "vq_inv [0..<2 ^ k] [] (q_vq q')" and "q_nb_desc q' = max_nb_desc"
    and "q_sg q' = q_sg q"
proof -
  have p: "POWER_OF_2 max_nb_desc" using assms by (auto simp: virtio_vsockdev_setup_queue_def Let_def split: if_splits)
  then obtain k where k: "k \<le> 15" "unat max_nb_desc = 2 ^ k" using POWER_OF_2_exp by blast
  obtain vq where vq: "virtqueue_create junk a (2 ^ k) PAGE_SIZE features = (Inr vq, a')" "q' = q\<lparr>q_vq := vq, q_nb_desc := max_nb_desc\<rparr>"
    using assms p k(2)
    by (auto simp: virtio_vsockdev_setup_queue_def vm_setup_vq_def virtqueue_create_def Let_def split: if_splits prod.splits option.splits)
  show thesis by (rule that [OF k]) (use vring_create_inv [OF vq(1) k(1)] vq(2) in simp_all)
qed

section \<open>What set-up leaves alone\<close>

definition boot_frame :: "vsock_world \<Rightarrow> vsock_world \<Rightarrow> bool" where
  "boot_frame w w' \<longleftrightarrow> rx_frame w w' \<and> d_tx (w_dev w') = d_tx (w_dev w)"

lemma boot_frame_trans: "boot_frame w1 w2 \<Longrightarrow> boot_frame w2 w3 \<Longrightarrow> boot_frame w1 w3"
  using rx_frame_trans by (auto simp: boot_frame_def)

lemma boot_frame_fields:
  assumes "boot_frame w w'"
  shows "sock_inv w \<Longrightarrow> sock_inv w'" "w_main_dev w' = w_main_dev w" "d_cid (w_dev w') = d_cid (w_dev w)"
    "w_sockets w' = w_sockets w" "d_tx (w_dev w') = d_tx (w_dev w)"
proof -
  obtain q where q: "core w' = core (put_rx q w)" using assms by (auto simp: boot_frame_def rx_frame_def)
  show "w_main_dev w' = w_main_dev w" "d_cid (w_dev w') = d_cid (w_dev w)" "w_sockets w' = w_sockets w"
    using core_fields(1,4,5) [OF q] by (simp_all add: put_rx_def)
qed (use assms rx_frame_inv in \<open>auto simp: boot_frame_def\<close>)

lemma fillup_step_tx:
  "drv_netbuf_alloc n m w = Some (pkt, w') \<Longrightarrow> d_tx (w_dev w') = d_tx (w_dev w)"
  "drv_netbuf_free p w = Some w' \<Longrightarrow> d_tx (w_dev w') = d_tx (w_dev w)"
  "virtio_vsockdev_rxq_enqueue p w = Some (rc, w') \<Longrightarrow> d_tx (w_dev w') = d_tx (w_dev w)"
  "virtio_vsockdev_evq_enqueue ev w = Some (rc, w') \<Longrightarrow> d_tx (w_dev w') = d_tx (w_dev w)"
  by (auto simp: drv_netbuf_alloc_def drv_netbuf_free_def virtio_vsockdev_rxq_enqueue_def virtio_vsockdev_evq_enqueue_def
      put_rx_def put_ev_def Let_def bind_eq_Some_conv split: if_splits)

lemma rxq_fillup_loop_tx: "rxq_fillup_loop todo i w = Some (j, st, w') \<Longrightarrow> d_tx (w_dev w') = d_tx (w_dev w)"
proof (induction todo i w rule: rxq_fillup_loop.induct)
  case (2 todo i w)
  obtain pkt w1 where a: "drv_netbuf_alloc PAGE_SIZE 0 w = Some (pkt, w1)" using 2(2) by (auto simp: bind_eq_Some_conv)
  show ?case
  proof (cases pkt)
    case None
    with 2(2) a fillup_step_tx(1) [OF a] show ?thesis by simp
  next
    case (Some p)
    let ?p = "p\<lparr>nb_len := of_nat (length (nb_buf p))\<rparr>"
    obtain rc w2 where e: "virtio_vsockdev_rxq_enqueue ?p w1 = Some (rc, w2)"
      using 2(2) a Some by (auto simp: bind_eq_Some_conv Let_def)
    have "d_tx (w_dev w2) = d_tx (w_dev w)" using fillup_step_tx(1) [OF a] fillup_step_tx(3) [OF e] by simp
    then show ?thesis using 2(2) a Some e fillup_step_tx(2) [of ?p w2 w'] 2(1) [OF a refl Some refl e refl]
      by (auto simp: Let_def bind_eq_Some_conv split: if_split_asm)
  qed
qed simp

lemma evq_fillup_loop_tx: "evq_fillup_loop todo i w = Some (j, st, w') \<Longrightarrow> d_tx (w_dev w') = d_tx (w_dev w)"
proof (induction todo i w rule: evq_fillup_loop.induct)
  case (2 todo i w)
  obtain ev a where a: "uk_malloc (w_alloc w) sizeof_event = (ev, a)" by fastforce
  show ?case
  proof (cases ev)
    case None
    with 2(2) a show ?thesis by auto
  next
    case (Some e)
    obtain rc w2 where e: "virtio_vsockdev_evq_enqueue (fst e) (w\<lparr>w_alloc := a\<rparr>) = Some (rc, w2)"
      using 2(2) a Some by (cases e) (auto simp: bind_eq_Some_conv Let_def)
    have "d_tx (w_dev w2) = d_tx (w_dev w)" using fillup_step_tx(4) [OF e] by simp
    then show ?thesis using 2 a Some e by (cases e) (auto simp: Let_def split: if_split_asm)
  qed
qed simp

lemma fillup_boot_frame:
  "virtio_vsockdev_rxq_fillup n False w = Some (st, w') \<Longrightarrow> boot_frame w w'"
  "virtio_vsockdev_evq_fillup n False w = Some (st, w') \<Longrightarrow> boot_frame w w'"
  by (auto simp: boot_frame_def virtio_vsockdev_rxq_fillup_def virtio_vsockdev_evq_fillup_def bind_eq_Some_conv
      dest: rxq_fillup_loop_frame rx_frame_core [OF evq_fillup_loop_core] rxq_fillup_loop_tx evq_fillup_loop_tx)

section \<open>A successful start\<close>

lemma setup_queues_steps:
  assumes "virtio_vsockdev_setup_queues bus junk junk_ev b = Some (0, b')"
  obtains b1 b2 b3 r4 w4 r5 w5 h1 h2 where "setup_rx junk b = (0, b1)" and "setup_tx junk b1 = (0, b2)" and "setup_ev junk_ev b2 = (0, b3)"
    and "virtio_vsockdev_evq_fillup (q_nb_desc (d_ev (w_dev (b_w b3)))) False (b_w b3) = Some (r4, w4)"
    and "virtio_vsockdev_rxq_fillup (q_nb_desc (d_rx (w_dev w4))) False w4 = Some (r5, w5)"
    and "create_event_handler (vb_evq_thread bus) True (b_evq b3) = Some (0, h1)"
    and "create_event_handler (vb_rxq_thread bus) True (b_rxq b3) = Some (0, h2)"
    and "b' = b3\<lparr>b_w := w5, b_evq := h1, b_rxq := h2\<rparr>"
proof -
  obtain r1 b1 r2 b2 r3 b3 where q: "setup_rx junk b = (r1, b1)" "setup_tx junk b1 = (r2, b2)" "setup_ev junk_ev b2 = (r3, b3)"
    by (metis prod.exhaust)
  have z: "r1 = 0" "r2 = 0" "r3 = 0" using assms q by (auto simp: virtio_vsockdev_setup_queues_def split: if_split_asm)
  show thesis using assms q z
    by (auto simp: virtio_vsockdev_setup_queues_def configure_defs bind_eq_Some_conv Let_def split: if_split_asm intro!: that)
qed

lemma setup_queues_ok:
  assumes run: "virtio_vsockdev_setup_queues bus junk junk_ev b = Some (0, b')"
    and empty: "w_socks (b_w b) = Map.empty" "w_sockets (b_w b) = Null" "device_keeps (w_host (b_w b))"
    and sg: "wf_sglist (q_sg (tx_queue (b_w b)))" "VSOCK_MAX_FRAGMENTS \<le> sg_maxseg (q_sg (tx_queue (b_w b)))"
  shows "\<exists>k \<le> 15. unat (b_max b 1) = 2 ^ k \<and> tx_queue_ok [0..<2 ^ k] [] (tx_queue (b_w b'))"
    and "sock_inv (b_w b')" and "w_main_dev (b_w b') = w_main_dev (b_w b)" and "d_cid (w_dev (b_w b')) = d_cid (w_dev (b_w b))"
    and "w_sockets (b_w b') = Null" and "eh_dispatcher (b_rxq b')" and "eh_dispatcher (b_evq b')"
    and "b_features b' = b_features b" and "b_status b' = b_status b"
proof -
  obtain b1 b2 b3 r4 w4 r5 w5 h1 h2 where st: "setup_rx junk b = (0, b1)" "setup_tx junk b1 = (0, b2)" "setup_ev junk_ev b2 = (0, b3)"
    "virtio_vsockdev_evq_fillup (q_nb_desc (d_ev (w_dev (b_w b3)))) False (b_w b3) = Some (r4, w4)"
    "virtio_vsockdev_rxq_fillup (q_nb_desc (d_rx (w_dev w4))) False w4 = Some (r5, w5)"
    "create_event_handler (vb_evq_thread bus) True (b_evq b3) = Some (0, h1)"
    "create_event_handler (vb_rxq_thread bus) True (b_rxq b3) = Some (0, h2)"
    "b' = b3\<lparr>b_w := w5, b_evq := h1, b_rxq := h2\<rparr>"
    by (rule setup_queues_steps [OF run])
  obtain q1 a1 where q1: "virtio_vsockdev_setup_queue junk (b_features b) (b_max b 0) 0 (d_rx (w_dev (b_w b))) (w_alloc (b_w b)) = (0, q1, a1)"
    "b_w b1 = (put_rx q1 (b_w b))\<lparr>w_alloc := a1\<rparr>" "b_max b1 = b_max b" "b_features b1 = b_features b" "b_status b1 = b_status b"
    using st(1) by (auto simp: setup_rx_def Let_def split: prod.split_asm)
  obtain q2 a2 where q2: "virtio_vsockdev_setup_queue junk (b_features b1) (b_max b1 1) 0 (d_tx (w_dev (b_w b1))) (w_alloc (b_w b1)) = (0, q2, a2)"
    "b_w b2 = (put_tx q2 (b_w b1))\<lparr>w_alloc := a2\<rparr>" "b_max b2 = b_max b1" "b_features b2 = b_features b1" "b_status b2 = b_status b1"
    using st(2) by (auto simp: setup_tx_def Let_def split: prod.split_asm)
  obtain q3 a3 where q3: "b_w b3 = (put_ev q3 (b_w b2))\<lparr>w_alloc := a3\<rparr>" "b_features b3 = b_features b2" "b_status b3 = b_status b2"
    using st(3) by (auto simp: setup_ev_def Let_def split: prod.split_asm)
  note w3 = q3(1) q2(2) q1(2)
  obtain k1 where "vq_inv [0..<2 ^ k1] [] (q_vq q1)" by (rule setup_queue_ok [OF q1(1)])
  then have "vq_holds wf_netbuf (q_vq q1)" unfolding vq_holds_def by (intro exI [of _ "[0..<2 ^ k1]"] exI [of _ "[]"]) simp
  then have "rx_ok (b_w b3)" using empty(3) unfolding w3 by (simp add: rx_ok_def put_rx_def put_tx_def put_ev_def)
  then have inv3: "sock_inv (b_w b3)" using empty(1,2) unfolding w3
    by (auto simp: sock_inv_def table_inv_def table_ids_def put_rx_def put_tx_def put_ev_def)
  have fr: "boot_frame (b_w b3) w5" using boot_frame_trans fillup_boot_frame(1) [OF st(5)] fillup_boot_frame(2) [OF st(4)] by blast
  note f = boot_frame_fields [OF fr]
  obtain k where k: "k \<le> 15" "unat (b_max b1 1) = 2 ^ k" "vq_inv [0..<2 ^ k] [] (q_vq q2)" "q_sg q2 = q_sg (d_tx (w_dev (b_w b1)))"
    by (rule setup_queue_ok [OF q2(1)])
  have "tx_queue (b_w b3) = q2" "tx_queue (b_w b1) = tx_queue (b_w b)" unfolding w3 by (simp_all add: put_rx_def put_ev_def put_tx_def)
  then show "\<exists>k \<le> 15. unat (b_max b 1) = 2 ^ k \<and> tx_queue_ok [0..<2 ^ k] [] (tx_queue (b_w b'))"
    using k f(5) st(8) sg q1(3) by (auto simp: tx_queue_ok_def)
  show "sock_inv (b_w b')" using f(1) [OF inv3] st(8) by simp
  show "w_main_dev (b_w b') = w_main_dev (b_w b)" "d_cid (w_dev (b_w b')) = d_cid (w_dev (b_w b))" "w_sockets (b_w b') = Null"
    using f(2-4) st(8) empty(2) by (simp_all add: w3 put_rx_def put_tx_def put_ev_def)
  show "eh_dispatcher (b_rxq b')" "eh_dispatcher (b_evq b')"
    using st(6-8) by (auto simp: create_event_handler_def bind_eq_Some_conv Let_def split: if_split_asm)
  show "b_features b' = b_features b" "b_status b' = b_status b" using st(8) q1 q2 q3 by simp_all
qed

lemma feature_has: "VIRTIO_FEATURE_HAS f n \<longleftrightarrow> n < 64 \<and> bit f n"
proof -
  have b: "bit (f AND push_bit n 1) i \<longleftrightarrow> i = n \<and> n < 64 \<and> bit f n" for i by (auto simp: bit_simps)
  show ?thesis
  proof
    assume "VIRTIO_FEATURE_HAS f n"
    then obtain i where "bit (f AND push_bit n 1) i" unfolding VIRTIO_FEATURE_HAS_def by (metis bit_word_eqI bit_0_eq bot_apply bot_bool_def)
    with b show "n < 64 \<and> bit f n" by simp
  next
    assume "n < 64 \<and> bit f n"
    with b [of n] show "VIRTIO_FEATURE_HAS f n" unfolding VIRTIO_FEATURE_HAS_def by (metis bit_0_eq bot_apply bot_bool_def)
  qed
qed

lemma offered_bit:
  assumes "bit (offered host n drv) i" and "\<And>i. bit drv i \<Longrightarrow> bit host i"
  shows "bit host i"
  using assms by (auto simp: offered_def VIRTIO_FEATURE_SET_def feature_has bit_simps split: if_splits)

lemma negotiate_ok:
  assumes "virtio_vsockdev_feature_negotiate bus b = (0, b')"
  shows "\<exists>cid. 3 \<le> cid \<and> ucast cid = snd (vb_config bus) \<and> b_w b' = (b_w b)\<lparr>w_dev := (w_dev (b_w b))\<lparr>d_cid := cid\<rparr>\<rparr>"
    and "bit (b_features b') i \<Longrightarrow> bit (vb_features bus) i" and "vb_status_set bus"
proof -
  obtain rc cid where c: "vb_config bus = (rc, cid)" by fastforce
  with assms have z: "rc = 0" "3 \<le> cid" "cid \<le> 0xFFFFFFFF"
    by (auto simp: virtio_vsockdev_feature_negotiate_def Let_def not_less split: if_split_asm)
  show set: "vb_status_set bus" using assms c z
    by (auto simp: virtio_vsockdev_feature_negotiate_def virtio_dev_status_update_def Let_def split: if_split_asm)
  have n: "snd (virtio_vsockdev_feature_negotiate bus b) = b\<lparr>b_w := (b_w b)\<lparr>w_dev := (w_dev (b_w b))\<lparr>d_cid := ucast cid\<rparr>\<rparr>,
      b_features := offered (vb_features bus) VIRTIO_F_EVENT_IDX (offered (vb_features bus) VIRTIO_VSOCK_F_SEQPACKET
        (offered (vb_features bus) VIRTIO_VSOCK_F_STREAM (offered (vb_features bus) VIRTIO_VSOCK_F_NO_IMPLIED_STREAM
          (offered (vb_features bus) VIRTIO_F_VERSION_1 0)))), b_status := 11 # b_status b\<rparr>"
    using c z set by (simp add: virtio_vsockdev_feature_negotiate_def virtio_dev_status_update_def Let_def)
  have cid: "3 \<le> (ucast cid :: u32)" "ucast (ucast cid :: u32) = cid"
  proof -
    have lt: "unat cid < 2 ^ 32" "3 \<le> unat cid" using z(2,3) by (simp_all add: word_le_nat_alt)
    then have u: "unat (ucast cid :: u32) = unat cid" by (simp add: unsigned_ucast_eq take_bit_nat_eq_self)
    show "3 \<le> (ucast cid :: u32)" using u lt by (simp add: word_le_nat_alt)
    show "ucast (ucast cid :: u32) = cid" by (rule unsigned_word_eqI [where 'a = nat]) (use lt in \<open>simp add: unsigned_ucast_eq unsigned_take_bit_eq take_bit_nat_eq_self\<close>)
  qed
  with n assms c show "\<exists>cid. 3 \<le> cid \<and> ucast cid = snd (vb_config bus)
      \<and> b_w b' = (b_w b)\<lparr>w_dev := (w_dev (b_w b))\<lparr>d_cid := cid\<rparr>\<rparr>"
    by (intro exI [of _ "ucast cid"]) simp
  show "bit (vb_features bus) i" if "bit (b_features b') i"
    using that n assms by (auto elim!: offered_bit)
qed

lemma start_ok:
  assumes "virtio_vsockdev_start bus b = (0, b')"
  shows "boot_frame (b_w b) (b_w b')" and "vb_status_set bus \<Longrightarrow> hd (b_status b') = 15" and "b_features b' = b_features b"
    and "b_rxq b' = b_rxq b" and "b_evq b' = b_evq b"
proof -
  let ?w1 = "snd (virtio_vsockdev_rx_intr_enable (b_w b))"
  have b': "b' = virtio_dev_drv_up bus (b\<lparr>b_w := snd (virtio_vsockdev_evq_intr_enable ?w1)\<rparr>)"
    using assms by (auto simp: virtio_vsockdev_start_def Let_def case_prod_unfold split: if_split_asm)
  have put: "rx_frame v (put_rx ((d_rx (w_dev v))\<lparr>q_intr_enabled := x\<rparr>) v)" for v x
    by (rule rx_frame_put) (simp add: rx_ok_def)
  have "rx_frame (b_w b) ?w1"
    using rx_frame_trans [OF put rx_intr_enable_frame] rx_frame_trans [OF rx_frame_trans [OF put rx_intr_enable_frame] put]
    by (auto simp: virtio_vsockdev_rx_intr_enable_def Let_def case_prod_unfold rx_frame_refl)
  then have "rx_frame (b_w b) (snd (virtio_vsockdev_evq_intr_enable ?w1))"
    by (rule rx_frame_trans) (rule rx_frame_core [OF ev_intr_core(1)])
  moreover have "tx_queue (snd (virtio_vsockdev_evq_intr_enable ?w1)) = tx_queue (b_w b)"
    by (simp add: virtio_vsockdev_evq_intr_enable_def ev_vq_intr_enable_def virtio_vsockdev_rx_intr_enable_def rx_vq_intr_enable_def
        put_rx_def put_ev_def Let_def case_prod_unfold)
  ultimately show "boot_frame (b_w b) (b_w b')"
    unfolding b' by (simp add: boot_frame_def virtio_dev_drv_up_def virtio_dev_status_update_def)
qed (use assms in \<open>auto simp: virtio_vsockdev_start_def virtio_dev_drv_up_def virtio_dev_status_update_def Let_def case_prod_unfold
    split: if_split_asm\<close>)

lemma add_dev_steps:
  assumes run: "virtio_vsockdev_add_dev bus junk junk_ev b = Some (0, b')"
  obtains a b1 b2 b3 where "virtio_vsockdev_feature_negotiate bus (b\<lparr>b_w := (b_w b)\<lparr>w_alloc := a, w_main_dev := True, w_sockets := Null\<rparr>,
        b_rxq := \<lparr>eh_callback = False, eh_events = 0, eh_sched = False, eh_dispatcher = False\<rparr>,
        b_evq := \<lparr>eh_callback = False, eh_events = 0, eh_sched = False, eh_dispatcher = False\<rparr>\<rparr>) = (0, b1)"
    and "virtio_vsockdev_alloc_queues bus b1 = (0, b2)" and "virtio_vsockdev_setup_queues bus junk junk_ev b2 = Some (0, b3)"
    and "virtio_vsockdev_start bus b3 = (0, b')"
proof -
  let ?h = "\<lparr>eh_callback = False, eh_events = 0, eh_sched = False, eh_dispatcher = False\<rparr>"
  obtain vv a where m: "uk_malloc (w_alloc (b_w b)) (vb_sizeof_dev bus) = (vv, a)" by fastforce
  let ?b0 = "b\<lparr>b_w := (b_w b)\<lparr>w_alloc := a, w_main_dev := True, w_sockets := Null\<rparr>, b_rxq := ?h, b_evq := ?h\<rparr>"
  obtain r1 b1 r2 b2 where s: "virtio_vsockdev_feature_negotiate bus ?b0 = (r1, b1)" "virtio_vsockdev_alloc_queues bus b1 = (r2, b2)"
    by (metis prod.exhaust)
  note unf = virtio_vsockdev_add_dev_def uk_vsockdev_register_def uk_vsockets_init_def
  have z: "r1 = 0" "r2 = 0" using run m s
    by (auto simp: unf Let_def bind_eq_Some_conv split: if_split_asm option.split_asm)
  obtain r3 b3 where s3: "virtio_vsockdev_setup_queues bus junk junk_ev b2 = Some (r3, b3)"
    using run m s z by (auto simp: unf Let_def bind_eq_Some_conv split: if_split_asm option.split_asm)
  obtain r4 b4 where s4: "virtio_vsockdev_start bus b3 = (r4, b4)" by fastforce
  have "r3 = 0" "r4 = 0" "b' = b4" using run m s z s3 s4
    by (auto simp: unf Let_def bind_eq_Some_conv split: if_split_asm option.split_asm)
  with s z s3 s4 that show thesis by simp
qed

lemma alloc_queues_ok:
  assumes "virtio_vsockdev_alloc_queues bus b = (0, b')"
  shows "w_socks (b_w b') = w_socks (b_w b)" "w_sockets (b_w b') = w_sockets (b_w b)" "w_host (b_w b') = w_host (b_w b)"
    "w_main_dev (b_w b') = w_main_dev (b_w b)" "d_cid (w_dev (b_w b')) = d_cid (w_dev (b_w b))"
    "wf_sglist (q_sg (tx_queue (b_w b')))" "VSOCK_MAX_FRAGMENTS \<le> sg_maxseg (q_sg (tx_queue (b_w b')))"
    "b_max b' = snd (vb_vqs bus)" "b_features b' = b_features b"
  using assms
  by (auto simp: virtio_vsockdev_alloc_queues_def empty_queue_def wf_sglist_def uk_sglist_init_def Let_def
      split: if_split_asm option.split_asm prod.split_asm)


text \<open>A device with small queues, which does nothing before it is told that the driver is ready.\<close>

definition example_bus :: virtio_bus where
  "example_bus = \<lparr>vb_features = 0x100000001, vb_config = (0, 3), vb_vqs = (3, \<lambda>_. 1), vb_status_set = True,
     vb_rxq_thread = True, vb_evq_thread = True, vb_sizeof_dev = 64, vb_sizeof_queue = 256\<rparr>"

definition idle_boot :: virtio_boot where
  "idle_boot = \<lparr>b_w = example_world\<lparr>w_socks := Map.empty, w_main_dev := False, w_host := (\<lambda>_ vq. vq), w_host_ev := (\<lambda>_ vq. vq)\<rparr>,
     b_features = 0, b_status = [], b_max = (\<lambda>_. 0), b_vq = (\<lambda>_. False),
     b_rxq = \<lparr>eh_callback = False, eh_events = 0, eh_sched = False, eh_dispatcher = False\<rparr>,
     b_evq = \<lparr>eh_callback = False, eh_events = 0, eh_sched = False, eh_dispatcher = False\<rparr>\<rparr>"

definition ring1 :: "'c virtqueue_vring" where
  "ring1 = (case virtqueue_create (\<lambda>_. \<lparr>di_cookie = None, di_desc_count = 0\<rparr>) alloc_plenty 1 4096 0 of (Inr vq, _) \<Rightarrow> vq)"

lemma ring1_eq: "ring1 = \<lparr>vr_num = 1, vr_desc = [\<lparr>vd_addr = 0, vd_len = 0, vd_flags = 0, vd_next = of_nat VIRTQUEUE_MAX_SIZE\<rparr>],
    va_flags = 0, va_idx = 0, va_ring = [0], va_used_event = 0, vu_flags = 0, vu_idx = 0, vu_ring = [\<lparr>ue_id = 0, ue_len = 0\<rparr>],
    vu_avail_event = 0, vq_desc_avail = 1, vq_head_free_desc = 0, vq_last_used_desc_idx = 0, vq_uses_event_idx = False,
    vq_last_notified_idx = 0, vq_info = [\<lparr>di_cookie = None, di_desc_count = 0\<rparr>]\<rparr>"
  by (simp add: ring1_def virtqueue_create_def virtqueue_vring_init_def uk_malloc_def uk_memalign_def alloc_plenty_def vring_size_def
      align_up_def align_down_def Let_def PAGE_SIZE_def)

lemma setup_ring1:
  assumes "r < 1000"
  shows "virtio_vsockdev_setup_queue (\<lambda>_. \<lparr>di_cookie = None, di_desc_count = 0\<rparr>) 0x100000001 1 0 q (alloc_plenty\<lparr>al_requests := r\<rparr>)
    = (0, q\<lparr>q_vq := ring1, q_nb_desc := 1\<rparr>, alloc_plenty\<lparr>al_requests := r + 2\<rparr>)"
  using assms unfolding ring1_eq
  by (simp add: virtio_vsockdev_setup_queue_def POWER_OF_2_def vm_setup_vq_def virtqueue_create_def virtqueue_vring_init_def
    uk_malloc_def uk_memalign_def alloc_plenty_def vring_size_def Let_def PAGE_SIZE_def align_up_def VIRTIO_F_EVENT_IDX_def)

lemma enqueue_ring1:
  assumes "0 < length (sg_segs sg)"
  shows "\<exists>vq. virtqueue_buffer_enqueue ring1 c sg 0 1 = Some (0, vq) \<and> \<not> virtqueue_hasdata vq"
  using assms unfolding ring1_eq
  by (simp add: virtqueue_buffer_enqueue_def virtqueue_buffer_enqueue_segments_def virtqueue_ring_update_avail_def virtqueue_hasdata_def Let_def)

abbreviation sg0 :: uk_sglist where
  "sg0 \<equiv> uk_sglist_init VSOCK_MAX_FRAGMENTS (replicate VSOCK_MAX_FRAGMENTS \<lparr>ss_paddr = 0, ss_len = 0\<rparr>)"

lemma append_one:
  "\<exists>sg. uk_sglist_append (\<lambda>v. v) (uk_sglist_reset sg0) 72 4 = Some (0, sg) \<and> sg_nseg sg = 1 \<and> 0 < length (sg_segs sg)"
  "\<exists>sg. uk_sglist_append (\<lambda>v. v) (uk_sglist_reset sg0) 80 4096 = Some (0, sg) \<and> sg_nseg sg = 1 \<and> 0 < length (sg_segs sg)"
  by (simp_all add: uk_sglist_append_def uk_sglist_reset_def uk_sglist_init_def sglist_append_buf_def VSOCK_MAX_FRAGMENTS_def Let_def
      page_off_def PAGE_SIZE_def sglist_append_pages.simps sglist_append_range_def)

lemma fill_ev1:
  assumes "d_ev (w_dev w) = (empty_queue x)\<lparr>q_vq := ring1, q_nb_desc := 1\<rparr>" and "w_alloc w = alloc_plenty\<lparr>al_requests := 8\<rparr>" and "w_v2p w = (\<lambda>v. v)"
  shows "\<exists>sg vq. virtio_vsockdev_evq_fillup 1 False w = Some (0, (put_ev ((d_ev (w_dev w))\<lparr>q_sg := sg, q_vq := vq\<rparr>) w)
      \<lparr>w_alloc := alloc_plenty\<lparr>al_requests := 9\<rparr>\<rparr>) \<and> \<not> virtqueue_hasdata vq"
proof -
  obtain sg where sg: "uk_sglist_append (\<lambda>v. v) (uk_sglist_reset sg0) 72 4 = Some (0, sg)" "sg_nseg sg = 1" "0 < length (sg_segs sg)"
    using append_one(1) by auto
  obtain vq where vq: "virtqueue_buffer_enqueue ring1 (72 :: nat) sg 0 1 = Some (0, vq)" "\<not> virtqueue_hasdata vq"
    using enqueue_ring1 [OF sg(3), of 72] by auto
  have full: "\<not> virtqueue_is_full (ring1 :: nat virtqueue_vring)" by (simp add: ring1_eq virtqueue_is_full_def)
  show ?thesis using assms sg vq full
    by (intro exI [of _ sg] exI [of _ vq]) (simp add: virtio_vsockdev_evq_fillup_def uk_malloc_def uk_memalign_def alloc_plenty_def
      sizeof_event_def virtio_vsockdev_evq_enqueue_def empty_queue_def put_ev_def Let_def)
qed

lemma fill_rx1:
  assumes "d_rx (w_dev w) = (empty_queue x)\<lparr>q_vq := ring1, q_nb_desc := 1\<rparr>" and "w_alloc w = alloc_plenty\<lparr>al_requests := 9\<rparr>" and "w_v2p w = (\<lambda>v. v)"
  shows "\<exists>sg vq w1. virtio_vsockdev_rxq_fillup 1 False w = Some (0, put_rx ((d_rx (w_dev w))\<lparr>q_sg := sg, q_vq := vq\<rparr>) w1)
      \<and> \<not> virtqueue_hasdata vq \<and> w_dev w1 = w_dev w \<and> w_host w1 = w_host w \<and> w_host_ev w1 = w_host_ev w"
proof -
  have al: "align_up PAGE_SIZE 8 = PAGE_SIZE" "align_down (80 + (PAGE_SIZE + align_up 96 8)) 8 = 80 + (PAGE_SIZE + align_up 96 8)"
    "80 + (PAGE_SIZE + align_up 96 8) \<le> 2 ^ 64" "0 < PAGE_SIZE"
    by (simp_all add: PAGE_SIZE_def align_up_def align_down_def)
  have "\<exists>p w1. drv_netbuf_alloc PAGE_SIZE 0 w = Some (Some p, w1) \<and> w_dev w1 = w_dev w \<and> w_host w1 = w_host w \<and> w_host_ev w1 = w_host_ev w
      \<and> w_v2p w1 = w_v2p w \<and> nb_base p + nb_data p = 80 \<and> length (nb_buf p) = PAGE_SIZE"
    using assms(2) al
    by (simp add: drv_netbuf_alloc_def uk_netbuf_alloc_buf_def uk_netbuf_prepare_buf_def uk_netbuf_init_indir_def uk_memalign_def alloc_plenty_def
        sizeof_uk_netbuf_def NETBUF_ADDR_ALIGNMENT_def Let_def)
  then obtain p w1 where p: "drv_netbuf_alloc PAGE_SIZE 0 w = Some (Some p, w1)" "w_dev w1 = w_dev w" "w_host w1 = w_host w"
    "w_host_ev w1 = w_host_ev w" "w_v2p w1 = w_v2p w" "nb_base p + nb_data p = 80" "length (nb_buf p) = PAGE_SIZE" by auto
  let ?p = "p\<lparr>nb_len := of_nat (length (nb_buf p))\<rparr>"
  have len: "unat (of_nat PAGE_SIZE :: u16) = 4096" by (simp add: PAGE_SIZE_def)
  obtain sg where sg: "uk_sglist_append (\<lambda>v. v) (uk_sglist_reset sg0) 80 4096 = Some (0, sg)" "sg_nseg sg = 1" "0 < length (sg_segs sg)"
    using append_one(2) by auto
  obtain vq where vq: "virtqueue_buffer_enqueue ring1 ?p sg 0 1 = Some (0, vq)" "\<not> virtqueue_hasdata vq"
    using enqueue_ring1 [OF sg(3), of ?p] by auto
  have full: "\<not> virtqueue_is_full (ring1 :: uk_netbuf virtqueue_vring)" by (simp add: ring1_eq virtqueue_is_full_def)
  have "virtio_vsockdev_rxq_enqueue ?p w1 = Some (0, put_rx ((d_rx (w_dev w))\<lparr>q_sg := sg, q_vq := vq\<rparr>) w1)"
    using assms p sg vq full len by (simp add: virtio_vsockdev_rxq_enqueue_def empty_queue_def Let_def)
  then show ?thesis using p vq(2)
    by (intro exI [of _ sg] exI [of _ vq] exI [of _ w1]) (simp add: virtio_vsockdev_rxq_fillup_def Let_def)
qed

lemma idle_intr_enable:
  "\<not> virtqueue_hasdata vq \<Longrightarrow> fst (virtqueue_intr_enable (\<lambda>vq. vq) vq) = 0"
  by (simp add: virtqueue_intr_enable_def virtqueue_hasdata_def Let_def)

lemma idle_start:
  assumes "\<not> virtqueue_hasdata (q_vq (d_rx (w_dev (b_w b))))" and "\<not> virtqueue_hasdata (q_vq (d_ev (w_dev (b_w b))))"
    and "w_host (b_w b) = (\<lambda>_ vq. vq)" and "w_host_ev (b_w b) = (\<lambda>_ vq. vq)"
  shows "\<exists>b'. virtio_vsockdev_start bus b = (0, b')"
proof -
  let ?w = "snd (virtio_vsockdev_rx_intr_enable (b_w b))"
  have w: "d_ev (w_dev ?w) = d_ev (w_dev (b_w b))" "w_host_ev ?w = w_host_ev (b_w b)"
    by (simp_all add: virtio_vsockdev_rx_intr_enable_def rx_vq_intr_enable_def put_rx_def case_prod_unfold Let_def)
  have "fst (virtio_vsockdev_rx_intr_enable (b_w b)) = 0"
    using idle_intr_enable [OF assms(1)] assms(3)
    by (simp add: virtio_vsockdev_rx_intr_enable_def rx_vq_intr_enable_def put_rx_def case_prod_unfold Let_def)
  moreover have "fst (virtio_vsockdev_evq_intr_enable ?w) = 0"
    using idle_intr_enable [OF assms(2)] assms(4) w
    by (simp add: virtio_vsockdev_evq_intr_enable_def ev_vq_intr_enable_def put_ev_def case_prod_unfold Let_def)
  ultimately show ?thesis by (simp add: virtio_vsockdev_start_def case_prod_unfold Let_def)
qed

lemma example_rings:
  assumes "b_features b = 0x100000001" and "b_max b = (\<lambda>_. 1)" and "w_alloc (b_w b) = alloc_plenty\<lparr>al_requests := 2\<rparr>"
    and "d_rx (w_dev (b_w b)) = empty_queue x" and "d_ev (w_dev (b_w b)) = empty_queue z" and "w_v2p (b_w b) = (\<lambda>v. v)"
  obtains b1 b2 b3 where "setup_rx (\<lambda>_. \<lparr>di_cookie = None, di_desc_count = 0\<rparr>) b = (0, b1)"
    and "setup_tx (\<lambda>_. \<lparr>di_cookie = None, di_desc_count = 0\<rparr>) b1 = (0, b2)"
    and "setup_ev (\<lambda>_. \<lparr>di_cookie = None, di_desc_count = 0\<rparr>) b2 = (0, b3)"
    and "d_ev (w_dev (b_w b3)) = (empty_queue z)\<lparr>q_vq := ring1, q_nb_desc := 1\<rparr>"
    and "w_alloc (b_w b3) = alloc_plenty\<lparr>al_requests := 8\<rparr>" and "w_v2p (b_w b3) = (\<lambda>v. v)"
    and "d_rx (w_dev (b_w b3)) = (empty_queue x)\<lparr>q_vq := ring1, q_nb_desc := 1\<rparr>" and "b_rxq b3 = b_rxq b" and "b_evq b3 = b_evq b"
    and "w_host (b_w b3) = w_host (b_w b)" and "w_host_ev (b_w b3) = w_host_ev (b_w b)"
proof -
  let ?junk = "\<lambda>_. \<lparr>di_cookie = None, di_desc_count = 0\<rparr>"
  let ?q = "\<lambda>q. q\<lparr>q_vq := ring1, q_nb_desc := 1\<rparr>" and ?a = "\<lambda>r. alloc_plenty\<lparr>al_requests := r\<rparr>"
  define b1 where "b1 = b\<lparr>b_w := (put_rx (?q (empty_queue x)) (b_w b))\<lparr>w_alloc := ?a 4\<rparr>, b_vq := (b_vq b)(0 := True)\<rparr>"
  define b2 where "b2 = b1\<lparr>b_w := (put_tx (?q (tx_queue (b_w b1))) (b_w b1))\<lparr>w_alloc := ?a 6\<rparr>, b_vq := (b_vq b1)(1 := True)\<rparr>"
  define b3 where "b3 = b2\<lparr>b_w := (put_ev ((empty_queue z)\<lparr>q_vq := ring1, q_nb_desc := 1\<rparr>) (b_w b2))\<lparr>w_alloc := ?a 8\<rparr>, b_vq := (b_vq b2)(2 := True)\<rparr>"
  have q1: "setup_rx ?junk b = (0, b1)"
    using setup_ring1 [of 2 "empty_queue x"] assms(1-4) by (simp add: setup_rx_def Let_def b1_def)
  have q2: "setup_tx ?junk b1 = (0, b2)"
    using setup_ring1 [of 4 "tx_queue (b_w b1)"] assms(1,2) by (simp add: setup_tx_def Let_def b2_def) (simp add: b1_def)
  have d: "d_ev (w_dev (b_w b2)) = empty_queue z" "b_features b2 = b_features b" "b_max b2 = b_max b" "w_alloc (b_w b2) = ?a 6"
    "d_rx (w_dev (b_w b2)) = ?q (empty_queue x)" "w_v2p (b_w b2) = w_v2p (b_w b)" "b_rxq b2 = b_rxq b" "b_evq b2 = b_evq b"
    "w_host (b_w b2) = w_host (b_w b)" "w_host_ev (b_w b2) = w_host_ev (b_w b)"
    using assms(5) by (simp_all add: b2_def b1_def put_rx_def put_tx_def)
  have q3: "setup_ev ?junk b2 = (0, b3)"
    using setup_ring1 [of 6 "empty_queue z"] assms(1,2) d by (simp add: setup_ev_def Let_def b3_def)
  have d3: "d_ev (w_dev (b_w b3)) = (empty_queue z)\<lparr>q_vq := ring1, q_nb_desc := 1\<rparr>" "w_alloc (b_w b3) = ?a 8" "w_v2p (b_w b3) = (\<lambda>v. v)"
    "d_rx (w_dev (b_w b3)) = ?q (empty_queue x)" "b_rxq b3 = b_rxq b" "b_evq b3 = b_evq b"
    "w_host (b_w b3) = w_host (b_w b)" "w_host_ev (b_w b3) = w_host_ev (b_w b)"
    using d assms(6) by (simp_all add: b3_def put_ev_def)
  show thesis by (rule that [OF q1 q2 q3 d3])
qed

lemma example_setup:
  assumes "b_features b = 0x100000001" and "b_max b = (\<lambda>_. 1)" and "w_alloc (b_w b) = alloc_plenty\<lparr>al_requests := 2\<rparr>"
    and "d_rx (w_dev (b_w b)) = empty_queue x" and "d_ev (w_dev (b_w b)) = empty_queue z" and "w_v2p (b_w b) = (\<lambda>v. v)"
    and "\<not> eh_dispatcher (b_rxq b)" "\<not> eh_dispatcher (b_evq b)"
    and "w_host (b_w b) = (\<lambda>_ vq. vq)" and "w_host_ev (b_w b) = (\<lambda>_ vq. vq)"
  shows "\<exists>b' b''. virtio_vsockdev_setup_queues example_bus (\<lambda>_. \<lparr>di_cookie = None, di_desc_count = 0\<rparr>)
      (\<lambda>_. \<lparr>di_cookie = None, di_desc_count = 0\<rparr>) b = Some (0, b') \<and> virtio_vsockdev_start example_bus b' = (0, b'')"
proof -
  let ?junk = "\<lambda>_. \<lparr>di_cookie = None, di_desc_count = 0\<rparr>"
  let ?q = "\<lambda>q. q\<lparr>q_vq := ring1, q_nb_desc := 1\<rparr>" and ?a = "\<lambda>r. alloc_plenty\<lparr>al_requests := r\<rparr>"
  obtain b1 b2 b3 where q1: "setup_rx ?junk b = (0, b1)" and q2: "setup_tx ?junk b1 = (0, b2)" and q3: "setup_ev ?junk b2 = (0, b3)"
    and d3: "d_ev (w_dev (b_w b3)) = (empty_queue z)\<lparr>q_vq := ring1, q_nb_desc := 1\<rparr>" "w_alloc (b_w b3) = ?a 8" "w_v2p (b_w b3) = (\<lambda>v. v)"
      "d_rx (w_dev (b_w b3)) = ?q (empty_queue x)" "b_rxq b3 = b_rxq b" "b_evq b3 = b_evq b"
      "w_host (b_w b3) = w_host (b_w b)" "w_host_ev (b_w b3) = w_host_ev (b_w b)"
    by (rule example_rings [OF assms(1-6)])
  obtain sg vq where e: "virtio_vsockdev_evq_fillup 1 False (b_w b3) = Some (0, (put_ev ((d_ev (w_dev (b_w b3)))\<lparr>q_sg := sg, q_vq := vq\<rparr>) (b_w b3))
      \<lparr>w_alloc := ?a 9\<rparr>)" "\<not> virtqueue_hasdata vq"
    using fill_ev1 [OF d3(1-3)] by blast
  define w4 where "w4 = (put_ev ((d_ev (w_dev (b_w b3)))\<lparr>q_sg := sg, q_vq := vq\<rparr>) (b_w b3))\<lparr>w_alloc := ?a 9\<rparr>"
  have d4: "d_rx (w_dev w4) = ?q (empty_queue x)" "w_alloc w4 = ?a 9" "w_v2p w4 = (\<lambda>v. v)" "q_vq (d_ev (w_dev w4)) = vq"
    "w_host w4 = w_host (b_w b)" "w_host_ev w4 = w_host_ev (b_w b)"
    using d3 by (simp_all add: w4_def put_ev_def)
  obtain sg' vq' w5 where f: "virtio_vsockdev_rxq_fillup 1 False w4 = Some (0, put_rx ((d_rx (w_dev w4))\<lparr>q_sg := sg', q_vq := vq'\<rparr>) w5)"
    "\<not> virtqueue_hasdata vq'" "w_dev w5 = w_dev w4" "w_host w5 = w_host w4" "w_host_ev w5 = w_host_ev w4"
    using fill_rx1 [OF d4(1-3)] by blast
  define w6 where "w6 = put_rx ((d_rx (w_dev w4))\<lparr>q_sg := sg', q_vq := vq'\<rparr>) w5"
  have n: "q_nb_desc (d_ev (w_dev (b_w b3))) = 1" "q_nb_desc (d_rx (w_dev w4)) = 1" using d3(1) d4(1) by simp_all
  have "\<exists>h1 h2. virtio_vsockdev_setup_queues example_bus ?junk ?junk b = Some (0, b3\<lparr>b_w := w6, b_evq := h1, b_rxq := h2\<rparr>)"
    using q1 q2 q3 e(1) [folded w4_def] f(1) [folded w6_def] n d3(5,6) assms(7,8)
    by (simp add: virtio_vsockdev_setup_queues_def configure_defs create_event_handler_def example_bus_def Let_def) (intro exI, rule refl)
  moreover have "\<exists>b''. virtio_vsockdev_start example_bus (b3\<lparr>b_w := w6, b_evq := h1, b_rxq := h2\<rparr>) = (0, b'')" for h1 h2
    by (rule idle_start) (use e(2) f d4 assms(9,10) in \<open>simp_all add: w6_def put_rx_def\<close>)
  ultimately show ?thesis by blast
qed


section \<open>A failed start\<close>

text \<open>The structure of the device is freed, but the device remains registered.\<close>

lemma add_dev_failure_registered:
  assumes "virtio_vsockdev_add_dev bus junk junk_ev b = Some (rc, b')" and "fst (uk_malloc (w_alloc (b_w b)) (vb_sizeof_dev bus)) \<noteq> None"
    and "snd (vb_config bus) < 3"
  shows "rc = - EAGAIN \<and> w_main_dev (b_w b')"
  using assms
  by (auto simp: virtio_vsockdev_add_dev_def uk_vsockdev_register_def uk_vsockets_init_def virtio_vsockdev_feature_negotiate_def
      Let_def bind_eq_Some_conv case_prod_unfold split: if_split_asm option.split_asm)

end
