(* ===== verification/Spec2Isabelle.thy ===== *)
theory Spec2Isabelle
  imports Inet_Props Sglist_Ops Virtio_Setup
begin

text \<open>
  \<^bold>\<open>The virtio socket stack of the netperf unikernel\<close>

  The program runs netperf on Unikraft over AF_VSOCK sockets. All paths below are relative to
  \<open>src/unikraft-vsock/unikraft/\<close>. A call of the application goes through these parts:

  \<^item> \<open>lib/posix-socket/socket.c\<close> has the system calls and the descriptors. A stream socket that the
    application creates for AF_INET is replaced by an AF_VSOCK socket behind a facade, whose \<open>bind\<close> and
    \<open>getsockname\<close> translate addresses.
  \<^item> \<open>lib/ukvsockdev/vsock.c\<close> implements the socket operations (\<open>bind\<close>, \<open>listen\<close>, \<open>connect\<close>,
    \<open>accept\<close>, \<open>read\<close>, \<open>write\<close>, ...), keeps all sockets with an address in one search tree, and has
    a circular buffer of received bytes per socket.
  \<^item> \<open>drivers/virtio/vsock/virtio_vsock.c\<close> is the driver. It turns the operations into packets, and
    the packets that it receives into calls of the socket layer.
  \<^item> \<open>drivers/virtio/ring/virtio_ring.c\<close> is the split virtqueue that hands buffers to the host.
  \<^item> \<open>lib/uksglist/sglist.c\<close> gathers the physical pages of a buffer, \<open>lib/uknetdev/netbuf.c\<close> has the
    packet buffers, \<open>include/uk/tree.h\<close> the rank-balanced tree.

  \<^bold>\<open>The theories and the code they model\<close>

  \<^item> \<open>Vk_Prelude\<close>: assertions, error codes, memory as byte lists, the allocator as an oracle, words
    and little-endian bytes; the collections \<open>returns\<close> and \<open>frame\<close> of the rules that take
    definitions in the option monad apart.
  \<^item> \<open>Netbuf\<close>: \<open>struct uk_netbuf\<close> and its allocation, header moves and release.
  \<^item> \<open>Vsock_Buffer\<close>: \<open>struct uk_vsock_buffer\<close> with its operations, and the locale of a byte queue that
    it implements.
  \<^item> \<open>Sglist\<close>: scatter/gather lists over a translation of virtual to physical addresses;
    \<open>Sglist_Ops\<close>: copying, joining, splitting and slicing of such lists.
  \<^item> \<open>Virtqueue\<close>: the ring, its free list of descriptors, enqueue, dequeue, notification and
    interrupt suppression, creation; the invariant \<open>vq_inv\<close> says which descriptors are free and which
    chains are in flight. \<open>Virtqueue_Device\<close> adds what the host may do with a queue.
  \<^item> \<open>Rbtree\<close>: insertion, removal and search of the tree macros, with their rebalancing, refined to
    operations on sorted lists.
  \<^item> \<open>Vsock_Hdr\<close>: the packet header and its wire format.
  \<^item> \<open>Vsock_State\<close>, \<open>Vsock_Table\<close>: the record \<open>vsock_world\<close> with all sockets, the table and the device,
    the masked comparison of addresses, and what searches in the table find.
  \<^item> \<open>Vsock\<close>: all functions of \<open>vsock.c\<close> over a record of driver operations (\<open>struct uk_vsockdev_ops\<close>).
  \<^item> \<open>Posix_Socket\<close>: \<open>socket.c\<close> over a list of socket drivers, of which \<open>socket_vsock_ops\<close> is the table of
    \<open>vsock.c\<close>; a process has files, descriptors and the states of the drivers.
  \<^item> \<open>Vsock_Inv\<close>, \<open>Vsock_Preserve\<close>, \<open>Vsock_Posix\<close>, \<open>Vsock_Term\<close>: the locale \<open>vsock_driver\<close> is the contract
    that the socket layer relies on; in it the invariant \<open>sock_inv\<close> is preserved by every handler and
    operation. \<open>vsock_driver_live\<close> extends it by what the end of a transport reset needs.
  \<^item> \<open>Virtio_Vsock\<close>, \<open>Virtio_Tx\<close>, \<open>Virtio_Send\<close>: transmission; the driver's operations interpret both
    locales. \<open>Virtio_Vsock_Rx\<close>, \<open>Virtio_Rx_Inv\<close>: reception, the event queue and the work loops.
  \<^item> \<open>Virtio_Setup\<close>: \<open>lib/ukvsockdev/vsockdev.c\<close> (registration, event handlers and their threads) and the probe of
    the driver: features, queues, start, and its error paths.
  \<^item> \<open>Vsock_System\<close>: one step of the whole system (a call, a packet, an interrupt, a yield), and runs
    of steps. \<open>Vsock_Example\<close> has concrete systems for the witnesses.
  \<^item> \<open>Vsock_Props\<close>, \<open>Rx_Props\<close>, \<open>Posix_Props\<close>, \<open>Inet_Props\<close>: the properties that span components,
    the last one from the AF_INET system calls down to the driver.

  \<^bold>\<open>Conventions\<close>

  State is passed explicitly. An operation that can fail an assertion, touch memory out of bounds or
  not return gives an option, and \<open>None\<close> is that outcome; error codes are results, as in C. Lengths and
  counters that can wrap are words of their width. Objects that the code reaches by pointers (sockets,
  POSIX sockets, netbufs) are numbers or values; a netbuf has one owner at each time and its count is
  kept in \<open>w_live_netbufs\<close>.

  \<^bold>\<open>Parameters and hypotheses\<close>

  The allocator is an oracle with the contract \<open>alloc_ok\<close>: memory that it returns is aligned, not at
  address 0 and does not wrap. The address translation \<open>w_v2p\<close> is linear inside a page
  (\<open>page_linear\<close>). The host that works on a virtqueue may complete any buffers in flight in any order
  (\<open>device_keeps\<close>); only the properties about the end of a loop ask that it completes some buffer when
  the driver yields (\<open>device_serves\<close>). The driver of AF_INET, which is lwIP, is a parameter; creating one of its sockets does
  not touch AF_VSOCK sockets (\<open>keeps_vsock\<close>). The choice of a free descriptor and what happens while a call
  waits for an event are parameters without any hypothesis, and so is what the registers of the device return
  while it is probed. Each hypothesis is a premise that the witnesses discharge.

  \<^bold>\<open>Loops\<close>

  Loops over a list or a counter are structural recursion; the allocation of ports tries 65536 ports
  as the code does. Loops that poll a queue, and the walk of the transport reset, are partial functions
  in the option monad, and that they end is a property of its own.

  \<^bold>\<open>What the properties show\<close>

  A successful probe of the device establishes the system invariant, it holds in all reachable states,
  and therefore a packet reaches exactly the
  socket that its addresses belong to. Sending hands the device exactly the bytes of the header and the
  data; receiving appends exactly the payload; composed, data sent at one end arrives at the other.
  Flow control stays within the announced credit. Binding, accepting, reading and closing do what their
  callers expect. The components below are shown correct on their own: virtqueue, receive buffer, tree,
  scatter/gather lists, netbufs, wire format. For an AF_INET application, a stream socket becomes an
  AF_VSOCK socket, an address that was bound is read back, and a waiting accept returns a connection.
  Some properties state deviations of the code from its intent: the swapped flags of a shutdown, the
  accepted socket that is not in the table, the truncated length of a large packet, addresses that the
  facade does not translate, and two operations on scatter/gather lists that the vsock path does not use.

  \<^bold>\<open>Not modelled\<close>

  Threads do not interleave inside an operation; a yield lets the host act, not another thread.
  Hardware access (virtio transports, PCI, MMIO, interrupts), the scheduler, the allocators, paging, file
  systems and the rest of Unikraft are outside the vsock path; netperf, lwIP and musl are not in
  the repository. Of the modelled files these parts are left out: chains of netbufs except their
  gathering (\<open>connect\<close>, \<open>append\<close> and \<open>disconnect\<close>), the tree macros that \<open>vsock.c\<close> does not use
  (\<open>NFIND\<close>, \<open>PFIND\<close>, \<open>INSERT_NEXT\<close>, \<open>INSERT_PREV\<close>, splay trees), and the initialisation of the socket
  families at boot.
\<close>

end
